(* ===== verification/Gateway_Prelude.thy ===== *)
theory Gateway_Prelude
  imports Main "HOL-Library.Word" "HOL-Library.Char_ord" "HOL-Library.List_Lexorder"
    "HOL-Library.Multiset" "HOL-Library.Sublist"
begin

text \<open>
  What the components share: the names of the model's types, results as sums, the pieces of the
  Rust standard library the gateway calls on text and integers, and its ordered collections.

  A Rust \<open>String\<close>, \<open>&str\<close> or \<open>Vec<u8>\<close> of text is a \<^typ>\<open>string\<close>: a \<^typ>\<open>char\<close> is one byte, so a
  string is its UTF-8 encoding, \<open>len\<close> is \<^const>\<open>length\<close> and the order of strings (\<open>BTreeMap\<close> keys,
  \<open>sort_by_key\<close>) is the lexicographic order of bytes. A digest is a list of 8-bit words. \<open>i64\<close> and
  \<open>u64\<close> are 64-bit words, read with \<^const>\<open>sint\<close> and \<^const>\<open>unat\<close>.
\<close>

section \<open>Types and collections of rules\<close>

type_synonym u8 = "8 word"
type_synonym u32 = "32 word"
type_synonym u64 = "64 word"
type_synonym i64 = "64 word"

type_synonym digest = "u8 list"

named_theorems result_simps \<open>inversion of results\<close>
named_theorems text_simps \<open>equations for text operations\<close>

abbreviation NL :: char where "NL \<equiv> CHR 0x0A"
abbreviation DQ :: char where "DQ \<equiv> CHR 0x22"

section \<open>Results\<close>

text \<open>\<open>Result<T, E>\<close> is \<open>'e + 'a\<close>; \<open>bind_r\<close> is the \<open>?\<close> operator and \<open>map_err\<close> the method.\<close>

definition bind_r :: "'e + 'a \<Rightarrow> ('a \<Rightarrow> 'e + 'b) \<Rightarrow> 'e + 'b" where
  "bind_r r f = (case r of Inl e \<Rightarrow> Inl e | Inr a \<Rightarrow> f a)"

definition map_err :: "('e \<Rightarrow> 'f) \<Rightarrow> 'e + 'a \<Rightarrow> 'f + 'a" where
  "map_err g r = (case r of Inl e \<Rightarrow> Inl (g e) | Inr a \<Rightarrow> Inr a)"

definition is_ok :: "'e + 'a \<Rightarrow> bool" where
  "is_ok r = (case r of Inl _ \<Rightarrow> False | Inr _ \<Rightarrow> True)"

lemma bind_r_simps [simp]:
  "bind_r (Inl e) f = Inl e"
  "bind_r (Inr a) f = f a"
  by (simp_all add: bind_r_def)

lemma map_err_simps [simp]:
  "map_err g (Inl e) = Inl (g e)"
  "map_err g (Inr a) = Inr a"
  by (simp_all add: map_err_def)

lemma is_ok_simps [simp]: "\<not> is_ok (Inl e)" "is_ok (Inr a)"
  by (simp_all add: is_ok_def)

lemma bind_r_Inr_iff [result_simps]:
  "bind_r r f = Inr b \<longleftrightarrow> (\<exists>a. r = Inr a \<and> f a = Inr b)"
  by (cases r) auto

lemma bind_r_Inl_iff [result_simps]:
  "bind_r r f = Inl e \<longleftrightarrow> r = Inl e \<or> (\<exists>a. r = Inr a \<and> f a = Inl e)"
  by (cases r) auto

lemma map_err_Inr_iff [result_simps]: "map_err g r = Inr a \<longleftrightarrow> r = Inr a"
  by (cases r) auto

lemma map_err_Inl_iff [result_simps]: "map_err g r = Inl x \<longleftrightarrow> (\<exists>e. r = Inl e \<and> x = g e)"
  by (cases r) auto

section \<open>Decimal text\<close>

definition digit_char :: "nat \<Rightarrow> char" where
  "digit_char n = char_of (48 + n :: nat)"

fun show_nat :: "nat \<Rightarrow> string" where
  "show_nat n = (if n < 10 then [digit_char n] else show_nat (n div 10) @ [digit_char (n mod 10)])"

declare show_nat.simps [simp del]

definition show_int :: "int \<Rightarrow> string" where
  "show_int i = (if i < 0 then CHR ''-'' # show_nat (nat (- i)) else show_nat (nat i))"

definition digit_val :: "char \<Rightarrow> nat" where
  "digit_val c = of_char c - 48"

definition read_nat :: "string \<Rightarrow> nat" where
  "read_nat s = foldl (\<lambda>a c. 10 * a + digit_val c) 0 s"

definition is_ascii_digit :: "char \<Rightarrow> bool" where
  "is_ascii_digit c \<longleftrightarrow> CHR ''0'' \<le> c \<and> c \<le> CHR ''9''"

lemma digit_val_char [simp]: "n < 10 \<Longrightarrow> digit_val (digit_char n) = n"
  by (simp add: digit_val_def digit_char_def of_char_of)

lemma read_show_nat [simp]: "read_nat (show_nat n) = n"
proof (induction n rule: show_nat.induct)
  case (1 n)
  show ?case
  proof (cases "n < 10")
    case True
    then show ?thesis by (subst show_nat.simps) (simp add: read_nat_def)
  next
    case False
    with 1 show ?thesis by (subst show_nat.simps) (simp add: read_nat_def)
  qed
qed

lemma show_nat_inj: "show_nat m = show_nat n \<longleftrightarrow> m = n"
  by (metis read_show_nat)

lemma digit_char_is_digit: "n < 10 \<Longrightarrow> is_ascii_digit (digit_char n)"
  by (simp add: is_ascii_digit_def digit_char_def less_eq_char_def of_char_of)

lemma show_nat_digits: "c \<in> set (show_nat n) \<Longrightarrow> is_ascii_digit c"
proof (induction n rule: show_nat.induct)
  case (1 n)
  then show ?case
    by (cases "n < 10") (auto simp: show_nat.simps [of n] digit_char_is_digit)
qed

lemma show_nat_nonempty [simp]: "show_nat n \<noteq> []"
  by (subst show_nat.simps) simp

lemma show_int_inj: "show_int i = show_int j \<longleftrightarrow> i = j"
proof -
  have minus: "CHR ''-'' \<notin> set (show_nat n)" for n
    using show_nat_digits [of "CHR ''-''" n] by (auto simp: is_ascii_digit_def less_eq_char_def)
  have ne: "CHR ''-'' # show_nat m \<noteq> show_nat n" "show_nat n \<noteq> CHR ''-'' # show_nat m" for m n
    using minus by (metis list.set_intros(1))+
  show ?thesis by (auto simp: show_int_def show_nat_inj ne)
qed


section \<open>Text\<close>

text \<open>The \<open>str\<close> methods the sources call, each as one function.\<close>

definition starts_with :: "string \<Rightarrow> string \<Rightarrow> bool" where
  "starts_with s p = (take (length p) s = p)"

definition strip_prefix :: "string \<Rightarrow> string \<Rightarrow> string option" where
  "strip_prefix s p = (if starts_with s p then Some (drop (length p) s) else None)"

definition strip_suffix :: "string \<Rightarrow> string \<Rightarrow> string option" where
  "strip_suffix s p =
     (if length p \<le> length s \<and> drop (length s - length p) s = p
      then Some (take (length s - length p) s) else None)"

definition ends_with_char :: "string \<Rightarrow> char \<Rightarrow> bool" where
  "ends_with_char s c = (s \<noteq> [] \<and> last s = c)"

definition count_char :: "char \<Rightarrow> string \<Rightarrow> nat" where
  "count_char c s = length (filter (\<lambda>x. x = c) s)"

text \<open>\<open>split_once\<close> with a character and with a string pattern.\<close>

fun split_once_char :: "char \<Rightarrow> string \<Rightarrow> (string \<times> string) option" where
  "split_once_char c [] = None"
| "split_once_char c (x # xs) =
     (if x = c then Some ([], xs)
      else map_option (\<lambda>(a, b). (x # a, b)) (split_once_char c xs))"

fun split_once_str :: "string \<Rightarrow> string \<Rightarrow> (string \<times> string) option" where
  "split_once_str p [] = (if p = [] then Some ([], []) else None)"
| "split_once_str p (x # xs) =
     (if starts_with (x # xs) p then Some ([], drop (length p) (x # xs))
      else map_option (\<lambda>(a, b). (x # a, b)) (split_once_str p xs))"

definition contains_str :: "string \<Rightarrow> string \<Rightarrow> bool" where
  "contains_str s p = (split_once_str p s \<noteq> None)"

text \<open>\<open>str::lines\<close>: split at line feeds, a final empty piece dropped, one carriage return before
  the line feed dropped.\<close>

definition chop_cr :: "string \<Rightarrow> string" where
  "chop_cr l = (if ends_with_char l (CHR 0x0D) then butlast l else l)"

fun split_lines :: "string \<Rightarrow> string \<Rightarrow> string list" where
  "split_lines acc [] = (if acc = [] then [] else [rev acc])"
| "split_lines acc (x # xs) =
     (if x = NL then chop_cr (rev acc) # split_lines [] xs else split_lines (x # acc) xs)"

definition lines_of :: "string \<Rightarrow> string list" where
  "lines_of s = split_lines [] s"

text \<open>\<open>join\<close> of a slice of strings and \<open>trim_end_matches\<close> of one character.\<close>

fun join_with :: "string \<Rightarrow> string list \<Rightarrow> string" where
  "join_with sep [] = []"
| "join_with sep [x] = x"
| "join_with sep (x # y # xs) = x @ sep @ join_with sep (y # xs)"

definition trim_end_char :: "char \<Rightarrow> string \<Rightarrow> string" where
  "trim_end_char c s = rev (dropWhile (\<lambda>x. x = c) (rev s))"

definition is_ascii_alphabetic :: "char \<Rightarrow> bool" where
  "is_ascii_alphabetic c \<longleftrightarrow>
     (CHR ''a'' \<le> c \<and> c \<le> CHR ''z'') \<or> (CHR ''A'' \<le> c \<and> c \<le> CHR ''Z'')"

definition to_ascii_lower :: "char \<Rightarrow> char" where
  "to_ascii_lower c =
     (if CHR ''A'' \<le> c \<and> c \<le> CHR ''Z'' then char_of (of_char c + 32 :: nat) else c)"

definition eq_ignore_ascii_case :: "string \<Rightarrow> string \<Rightarrow> bool" where
  "eq_ignore_ascii_case a b = (map to_ascii_lower a = map to_ascii_lower b)"

text \<open>
  \<open>char::is_whitespace\<close> on UTF-8 bytes: the number of bytes of the white space character at the
  head of the text, 0 if there is none. The multi-byte entries are U+0085, U+00A0, U+1680,
  U+2000 to U+200A, U+2028, U+2029, U+202F, U+205F and U+3000.
\<close>

definition ws_len :: "string \<Rightarrow> nat" where
  "ws_len s =
     (case s of
        [] \<Rightarrow> 0
      | a # s1 \<Rightarrow>
          if a = CHR '' '' \<or> (CHR 0x09 \<le> a \<and> a \<le> CHR 0x0D) then 1
          else (case s1 of
              [] \<Rightarrow> 0
            | b # s2 \<Rightarrow>
                if a = CHR 0xC2 \<and> (b = CHR 0x85 \<or> b = CHR 0xA0) then 2
                else (case s2 of
                    [] \<Rightarrow> 0
                  | c # _ \<Rightarrow>
                      if (a = CHR 0xE1 \<and> b = CHR 0x9A \<and> c = CHR 0x80)
                       \<or> (a = CHR 0xE2 \<and> b = CHR 0x80 \<and>
                            (CHR 0x80 \<le> c \<and> c \<le> CHR 0x8A \<or> c = CHR 0xA8 \<or> c = CHR 0xA9 \<or> c = CHR 0xAF))
                       \<or> (a = CHR 0xE2 \<and> b = CHR 0x81 \<and> c = CHR 0x9F)
                       \<or> (a = CHR 0xE3 \<and> b = CHR 0x80 \<and> c = CHR 0x80)
                      then 3 else 0)))"

lemma ws_len_le: "ws_len s \<le> length s"
  by (auto simp: ws_len_def split: list.splits)

text \<open>The text without its white space, and its words (\<open>split_whitespace\<close>).\<close>

function drop_whitespace :: "string \<Rightarrow> string" where
  "drop_whitespace s =
     (case s of
        [] \<Rightarrow> []
      | x # xs \<Rightarrow>
          if ws_len s = 0 then x # drop_whitespace xs else drop_whitespace (drop (ws_len s) s))"
  by pat_completeness auto
termination
  by (relation "measure length") auto

declare drop_whitespace.simps [simp del]

function words_acc :: "string \<Rightarrow> string \<Rightarrow> string list" where
  "words_acc acc s =
     (case s of
        [] \<Rightarrow> (if acc = [] then [] else [rev acc])
      | x # xs \<Rightarrow>
          if ws_len s = 0 then words_acc (x # acc) xs
          else if acc = [] then words_acc [] (drop (ws_len s) s)
          else rev acc # words_acc [] (drop (ws_len s) s))"
  by pat_completeness auto
termination
  by (relation "measure (\<lambda>(acc, s). length s)") auto

declare words_acc.simps [simp del]

definition split_whitespace :: "string \<Rightarrow> string list" where
  "split_whitespace s = words_acc [] s"


section \<open>UTF-8\<close>

text \<open>
  \<open>String::from_utf8\<close> and \<open>String::from_utf8_lossy\<close>. \<open>utf8_step\<close> reads the sequence at the head of the
  bytes: whether it encodes a scalar value, and how many bytes it takes (for an ill-formed one, the
  bytes that one replacement character stands for).
\<close>

definition byte_in :: "nat \<Rightarrow> nat \<Rightarrow> string \<Rightarrow> nat \<Rightarrow> bool" where
  "byte_in lo hi s i = (i < length s \<and> lo \<le> of_char (s ! i) \<and> of_char (s ! i) \<le> hi)"

definition utf8_step :: "string \<Rightarrow> bool \<times> nat" where
  "utf8_step s =
     (if byte_in 0 0x7F s 0 then (True, 1)
      else if byte_in 0xC2 0xDF s 0 then
        (if byte_in 0x80 0xBF s 1 then (True, 2) else (False, 1))
      else if byte_in 0xE0 0xEF s 0 then
        (if (if byte_in 0xE0 0xE0 s 0 then byte_in 0xA0 0xBF s 1
             else if byte_in 0xED 0xED s 0 then byte_in 0x80 0x9F s 1
             else byte_in 0x80 0xBF s 1)
         then (if byte_in 0x80 0xBF s 2 then (True, 3) else (False, 2))
         else (False, 1))
      else if byte_in 0xF0 0xF4 s 0 then
        (if (if byte_in 0xF0 0xF0 s 0 then byte_in 0x90 0xBF s 1
             else if byte_in 0xF4 0xF4 s 0 then byte_in 0x80 0x8F s 1
             else byte_in 0x80 0xBF s 1)
         then (if byte_in 0x80 0xBF s 2
               then (if byte_in 0x80 0xBF s 3 then (True, 4) else (False, 3))
               else (False, 2))
         else (False, 1))
      else (False, 1))"

lemma utf8_step_pos: "0 < snd (utf8_step s)"
  by (simp add: utf8_step_def)

function utf8_valid :: "string \<Rightarrow> bool" where
  "utf8_valid s =
     (if s = [] then True
      else if fst (utf8_step s) then utf8_valid (drop (snd (utf8_step s)) s) else False)"
  by pat_completeness auto
termination
  by (relation "measure length") (auto simp: utf8_step_pos)

declare utf8_valid.simps [simp del]

definition from_utf8 :: "string \<Rightarrow> string option" where
  "from_utf8 s = (if utf8_valid s then Some s else None)"

function from_utf8_lossy :: "string \<Rightarrow> string" where
  "from_utf8_lossy s =
     (if s = [] then []
      else (if fst (utf8_step s) then take (snd (utf8_step s)) s
            else [CHR 0xEF, CHR 0xBF, CHR 0xBD])
           @ from_utf8_lossy (drop (snd (utf8_step s)) s))"
  by pat_completeness auto
termination
  by (relation "measure length") (auto simp: utf8_step_pos)

declare from_utf8_lossy.simps [simp del]

text \<open>Decoding leniently leaves well-formed text as it is.\<close>

lemma from_utf8_lossy_valid: "utf8_valid s \<Longrightarrow> from_utf8_lossy s = s"
proof (induction s rule: from_utf8_lossy.induct)
  case (1 s)
  show ?case
  proof (cases "s = []")
    case True
    then show ?thesis by (simp add: from_utf8_lossy.simps)
  next
    case False
    with "1.prems" have step: "fst (utf8_step s)" and rest: "utf8_valid (drop (snd (utf8_step s)) s)"
      by (simp_all add: utf8_valid.simps [of s] split: if_splits)
    with "1.IH" [OF False] show ?thesis
      by (simp add: from_utf8_lossy.simps [of s] False)
  qed
qed

lemma utf8_valid_ascii: "\<forall>c \<in> set s. c < CHR 0x80 \<Longrightarrow> utf8_valid s"
proof (induction s)
  case Nil
  then show ?case by (simp add: utf8_valid.simps)
next
  case (Cons c s)
  have "utf8_step (c # s) = (True, 1)"
    using Cons.prems by (simp add: utf8_step_def byte_in_def less_char_def)
  then have "utf8_valid (c # s) = utf8_valid s"
    by (subst utf8_valid.simps) simp
  with Cons show ?case by simp
qed

lemma byte_in_append: "byte_in lo hi s i \<Longrightarrow> byte_in lo hi (s @ t) i"
  by (auto simp: byte_in_def nth_append)

lemma byte_in_append_0: "s \<noteq> [] \<Longrightarrow> byte_in lo hi (s @ t) 0 = byte_in lo hi s 0"
  by (auto simp: byte_in_def nth_append)

lemma byte_in_length: "byte_in lo hi s i \<Longrightarrow> i < length s"
  by (simp add: byte_in_def)

lemma utf8_step_append:
  assumes "s \<noteq> []" "fst (utf8_step s)"
  shows "utf8_step (s @ t) = utf8_step s"
proof -
  note zero = byte_in_append_0 [OF assms(1), of _ _ t]
  note step = assms(2) [unfolded utf8_step_def]
  consider "byte_in 0 0x7F s 0"
    | "\<not> byte_in 0 0x7F s 0" "byte_in 0xC2 0xDF s 0"
    | "\<not> byte_in 0 0x7F s 0" "\<not> byte_in 0xC2 0xDF s 0" "byte_in 0xE0 0xEF s 0"
    | "\<not> byte_in 0 0x7F s 0" "\<not> byte_in 0xC2 0xDF s 0" "\<not> byte_in 0xE0 0xEF s 0" by blast
  then show ?thesis
  proof cases
    case 1
    then show ?thesis by (simp add: utf8_step_def zero)
  next
    case 2
    with step have "byte_in 0x80 0xBF s 1" by (simp split: if_splits)
    with 2 byte_in_append [OF this] show ?thesis by (simp add: utf8_step_def zero)
  next
    case 3
    define C where "C = (\<lambda>s'. if byte_in 0xE0 0xE0 s 0 then byte_in 0xA0 0xBF s' 1
      else if byte_in 0xED 0xED s 0 then byte_in 0x80 0x9F s' 1 else byte_in 0x80 0xBF s' 1)"
    from step 3 have C: "C s" "byte_in 0x80 0xBF s 2" unfolding C_def by (simp_all split: if_splits)
    then have "C (s @ t)" "byte_in 0x80 0xBF (s @ t) 2" unfolding C_def by (simp_all add: byte_in_append split: if_splits)
    note this [unfolded C_def] and C [unfolded C_def]
    with 3 show ?thesis
      unfolding utf8_step_def zero
      by (simp only: if_True if_False simp_thms) (rule trans [OF if_P if_P [symmetric]]; assumption)
  next
    case 4
    define C where "C = (\<lambda>s'. if byte_in 0xF0 0xF0 s 0 then byte_in 0x90 0xBF s' 1
      else if byte_in 0xF4 0xF4 s 0 then byte_in 0x80 0x8F s' 1 else byte_in 0x80 0xBF s' 1)"
    from step 4 have C: "byte_in 0xF0 0xF4 s 0" "C s" "byte_in 0x80 0xBF s 2" "byte_in 0x80 0xBF s 3"
      unfolding C_def by (simp_all split: if_splits)
    then have "C (s @ t)" "byte_in 0x80 0xBF (s @ t) 2" "byte_in 0x80 0xBF (s @ t) 3"
      unfolding C_def by (simp_all add: byte_in_append split: if_splits)
    note this [unfolded C_def] and C [unfolded C_def]
    with 4 show ?thesis
      unfolding utf8_step_def zero
      by (simp only: if_True if_False simp_thms) (rule trans [OF if_P if_P [symmetric]]; assumption)
  qed
qed

lemma utf8_step_length: "fst (utf8_step s) \<Longrightarrow> snd (utf8_step s) \<le> length s"
  unfolding utf8_step_def by (simp split: if_splits; (drule byte_in_length)+; linarith)

lemma utf8_valid_append: "utf8_valid s \<Longrightarrow> utf8_valid t \<Longrightarrow> utf8_valid (s @ t)"
proof (induction s rule: utf8_valid.induct)
  case (1 s)
  show ?case
  proof (cases "s = []")
    case True
    with "1.prems" show ?thesis by simp
  next
    case False
    with "1.prems" have step: "fst (utf8_step s)" and rest: "utf8_valid (drop (snd (utf8_step s)) s)"
      by (simp_all add: utf8_valid.simps [of s] split: if_splits)
    from "1.IH" [OF False step rest "1.prems"(2)] utf8_step_append [OF False step, of t] utf8_step_length [OF step] step False
    show ?thesis by (simp add: utf8_valid.simps [of "s @ t"])
  qed
qed

section \<open>Facts about text\<close>

lemma strip_prefix_Some [text_simps]: "strip_prefix s p = Some r \<longleftrightarrow> s = p @ r"
  by (auto simp: strip_prefix_def starts_with_def) (metis append_take_drop_id)

lemma strip_suffix_Some [text_simps]: "strip_suffix s p = Some r \<longleftrightarrow> s = r @ p"
  by (auto simp: strip_suffix_def) (metis append_take_drop_id)

lemma starts_with_append [simp]: "starts_with (p @ s) p"
  by (simp add: starts_with_def)

lemma split_once_char_Some:
  "split_once_char c s = Some (a, b) \<longleftrightarrow> s = a @ c # b \<and> c \<notin> set a"
proof (induction s arbitrary: a)
  case Nil
  then show ?case by simp
next
  case (Cons x s)
  show ?case
  proof (cases a)
    case Nil
    then show ?thesis by auto
  next
    case (Cons y a')
    with Cons.IH [of a'] show ?thesis by auto
  qed
qed

lemma split_once_char_None: "split_once_char c s = None \<longleftrightarrow> c \<notin> set s"
  by (induction s) auto

lemma split_once_str_Some: "split_once_str p s = Some (a, b) \<Longrightarrow> s = a @ p @ b"
proof (induction s arbitrary: a)
  case Nil
  then show ?case by (simp split: if_splits)
next
  case (Cons x s)
  show ?case
  proof (cases "starts_with (x # s) p")
    case True
    with Cons.prems show ?thesis by (auto simp: starts_with_def) (metis append_take_drop_id)
  next
    case False
    with Cons show ?thesis by auto
  qed
qed

lemma count_char_append [simp]: "count_char c (a @ b) = count_char c a + count_char c b"
  by (simp add: count_char_def)

lemma count_char_Nil [simp]: "count_char c [] = 0"
  by (simp add: count_char_def)

lemma count_char_Cons [simp]: "count_char c (x # s) = (if x = c then 1 else 0) + count_char c s"
  by (simp add: count_char_def)

lemma count_char_0_iff: "count_char c s = 0 \<longleftrightarrow> c \<notin> set s"
  by (auto simp: count_char_def filter_empty_conv)

lemma count_char_concat: "count_char c (concat xs) = sum_list (map (count_char c) xs)"
  by (induction xs) auto


section \<open>Ordered collections\<close>

text \<open>
  A \<open>BTreeMap\<close> is the list of its entries in iteration order, strictly increasing in the key;
  \<open>get\<close> is \<^const>\<open>map_of\<close>. A \<open>BTreeSet\<close> is its increasing list of elements.
\<close>

type_synonym ('k, 'v) btree_map = "('k \<times> 'v) list"

fun bt_insert :: "'k::linorder \<Rightarrow> 'v \<Rightarrow> ('k, 'v) btree_map \<Rightarrow> ('k, 'v) btree_map" where
  "bt_insert k v [] = [(k, v)]"
| "bt_insert k v ((a, b) # m) =
     (if k < a then (k, v) # (a, b) # m
      else if k = a then (k, v) # m
      else (a, b) # bt_insert k v m)"

definition bt_wf :: "('k::linorder, 'v) btree_map \<Rightarrow> bool" where
  "bt_wf m = sorted_wrt (<) (map fst m)"

definition bt_of_list :: "('k::linorder \<times> 'v) list \<Rightarrow> ('k, 'v) btree_map" where
  "bt_of_list xs = foldl (\<lambda>m (k, v). bt_insert k v m) [] xs"

definition bset_of_list :: "'k::linorder list \<Rightarrow> 'k list" where
  "bset_of_list xs = foldl (\<lambda>s x. insort_insert x s) [] xs"

text \<open>The contract of an ordered map: what a look-up returns after an insertion, and that the
  entries come sorted, which makes them canonical.\<close>

locale ordered_map =
  fixes empty :: "'m"
    and insert :: "'k::linorder \<Rightarrow> 'v \<Rightarrow> 'm \<Rightarrow> 'm"
    and lookup :: "'m \<Rightarrow> 'k \<Rightarrow> 'v option"
    and entries :: "'m \<Rightarrow> ('k \<times> 'v) list"
    and wf :: "'m \<Rightarrow> bool"
  assumes lookup_empty: "lookup empty k = None"
    and lookup_insert: "wf m \<Longrightarrow> lookup (insert k v m) = (lookup m)(k \<mapsto> v)"
    and wf_empty: "wf empty"
    and wf_insert: "wf m \<Longrightarrow> wf (insert k v m)"
    and entries_sorted: "wf m \<Longrightarrow> sorted_wrt (<) (map fst (entries m))"
    and entries_lookup: "wf m \<Longrightarrow> map_of (entries m) = lookup m"
begin

lemma wf_collect: "wf m \<Longrightarrow> wf (foldl (\<lambda>m (k, v). insert k v m) m xs)"
  by (induction xs arbitrary: m) (auto simp: wf_insert)

lemma lookup_collect:
  "wf m \<Longrightarrow> lookup (foldl (\<lambda>m (k, v). insert k v m) m xs) = lookup m ++ map_of (rev xs)"
proof (induction xs arbitrary: m)
  case Nil
  then show ?case by simp
next
  case (Cons p xs)
  obtain k v where "p = (k, v)" by fastforce
  with Cons show ?case by (simp add: wf_insert lookup_insert map_add_def fun_eq_iff split: option.splits)
qed

lemma entries_canonical:
  assumes "wf m" "wf m'" "lookup m = lookup m'"
  shows "entries m = entries m'"
proof -
  let ?e = "entries m" and ?e' = "entries m'"
  have sd: "sorted (map fst e) \<and> distinct (map fst e)"
    if "sorted_wrt (<) (map fst e)" for e :: "('k \<times> 'v) list"
    using that strict_sorted_iff by blast
  have s: "sorted (map fst ?e) \<and> distinct (map fst ?e)" "sorted (map fst ?e') \<and> distinct (map fst ?e')"
    using assms(1,2) by (simp_all add: sd entries_sorted)
  have "map_of ?e = map_of ?e'" using assms by (simp add: entries_lookup)
  with s have set: "set ?e = set ?e'" by (metis map_of_inject_set)
  with s have keys: "map fst ?e = map fst ?e'"
    by (metis list.set_map sorted_distinct_set_unique)
  have "e = map (\<lambda>k. (k, the (map_of e k))) (map fst e)" if "distinct (map fst e)" for e :: "('k \<times> 'v) list"
    using that by (auto simp: o_def intro!: map_idI [symmetric])
  with s keys \<open>map_of ?e = map_of ?e'\<close> show ?thesis by metis
qed

end

lemma map_of_bt_insert: "map_of (bt_insert k v m) = (map_of m)(k \<mapsto> v)"
  by (induction m) auto

lemma set_fst_bt_insert: "set (map fst (bt_insert k v m)) = insert k (set (map fst m))"
proof -
  have "dom (map_of (bt_insert k v m)) = insert k (dom (map_of m))"
    by (simp add: map_of_bt_insert)
  then show ?thesis by (simp add: dom_map_of_conv_image_fst)
qed

lemma bt_wf_insert: "bt_wf m \<Longrightarrow> bt_wf (bt_insert k v m)"
proof (induction m)
  case Nil
  then show ?case by (simp add: bt_wf_def)
next
  case (Cons p m)
  obtain a b where p: "p = (a, b)" by fastforce
  with Cons have wf: "bt_wf m" and less: "\<forall>x \<in> set (map fst m). a < x"
    by (simp_all add: bt_wf_def)
  have "\<forall>x \<in> set (map fst (bt_insert k v m)). a < x" if "a < k"
    using less that unfolding set_fst_bt_insert by blast
  with Cons.IH [OF wf] wf less p show ?case
    by (auto simp: bt_wf_def)
qed

interpretation btm: ordered_map "[]" bt_insert map_of "\<lambda>m. m" bt_wf
  by unfold_locales
    (simp_all add: map_of_bt_insert bt_wf_insert, simp_all add: bt_wf_def)

lemma bt_wf_of_list [simp]: "bt_wf (bt_of_list xs)"
  unfolding bt_of_list_def by (rule btm.wf_collect [OF btm.wf_empty])

lemma map_of_bt_of_list: "map_of (bt_of_list xs) = map_of (rev xs)"
  unfolding bt_of_list_def by (simp add: btm.lookup_collect [OF btm.wf_empty])

lemma map_of_rev_distinct: "distinct (map fst xs) \<Longrightarrow> map_of (rev xs) = map_of xs"
  by (rule map_of_inject_set [THEN iffD2]) (simp_all add: rev_map [symmetric])

lemma bt_wf_distinct: "bt_wf m \<Longrightarrow> distinct (map fst m)"
  by (simp add: bt_wf_def strict_sorted_iff)

lemma bt_of_list_id: "bt_wf m \<Longrightarrow> bt_of_list m = m"
  by (rule btm.entries_canonical) (simp_all add: map_of_bt_of_list map_of_rev_distinct bt_wf_distinct)

text \<open>Collecting entries with distinct keys gives the same map in whatever order they come.\<close>

lemma bt_of_list_perm: "mset xs = mset ys \<Longrightarrow> distinct (map fst xs) \<Longrightarrow> bt_of_list xs = bt_of_list ys"
proof -
  assume xs: "mset xs = mset ys" "distinct (map fst xs)"
  then have "distinct (map fst ys)" by (metis mset_eq_imp_distinct_iff mset_map)
  moreover from xs have "map_of xs = map_of ys"
    using calculation by (metis map_of_inject_set mset_eq_setD)
  ultimately show "bt_of_list xs = bt_of_list ys"
    using xs by (intro btm.entries_canonical) (simp_all add: map_of_bt_of_list map_of_rev_distinct)
qed

lemma bset_collect:
  "sorted s \<Longrightarrow> distinct s \<Longrightarrow>
     sorted (foldl (\<lambda>s x. insort_insert x s) s xs) \<and> distinct (foldl (\<lambda>s x. insort_insert x s) s xs) \<and>
     set (foldl (\<lambda>s x. insort_insert x s) s xs) = set s \<union> set xs"
  by (induction xs arbitrary: s)
    (auto simp: sorted_insort_insert distinct_insort_insert set_insort_insert)

lemma set_bset_of_list [simp]: "set (bset_of_list xs) = set xs"
  using bset_collect [of "[]" xs] by (simp add: bset_of_list_def)

lemma sorted_bset_of_list: "sorted (bset_of_list xs) \<and> distinct (bset_of_list xs)"
  using bset_collect [of "[]" xs] by (simp add: bset_of_list_def)

lemma bset_of_list_cong: "set xs = set ys \<Longrightarrow> bset_of_list xs = bset_of_list ys"
  by (metis set_bset_of_list sorted_bset_of_list sorted_distinct_set_unique)

text \<open>Sorting by a key that tells the elements apart does not depend on their order.\<close>

lemma sort_key_perm:
  assumes "mset xs = mset ys" "inj_on f (set xs)"
  shows "sort_key f xs = sort_key f ys"
  by (rule sort_key_inj_key_eq) (use assms in \<open>simp_all\<close>)

end
