(* ===== verification/Json_Value.thy ===== *)
theory Json_Value
  imports Gateway_Prelude
begin

text \<open>
  \<open>serde_json::Value\<close> as the gateway uses it. The crate is built without its \<open>preserve_order\<close> and
  \<open>arbitrary_precision\<close> features (\<open>Cargo.lock\<close>), so an object iterates in key order and a number is
  a \<open>u64\<close>, a negative \<open>i64\<close> or an \<open>f64\<close>. The gateway observes a float only through the text its
  \<open>Display\<close> prints, so a float is represented by that text.

  The crate's reader and writer are not part of the repository: they are the two functions of
  \<open>serde\<close>, an argument of every definition that reads or writes JSON text.
\<close>

section \<open>Values\<close>

datatype json_number = PosInt u64 | NegInt i64 | Float string

datatype json =
    JNull
  | JBool bool
  | JNumber json_number
  | JString string
  | JArray "json list"
  | JObject "(string \<times> json) list"

record serde =
  json_text :: "json \<Rightarrow> string"
  json_parse :: "string \<Rightarrow> string + json"

text \<open>\<open>Number::as_i64\<close>, \<open>as_u64\<close> and \<open>to_string\<close>.\<close>

fun number_as_i64 :: "json_number \<Rightarrow> i64 option" where
  "number_as_i64 (PosInt n) = (if unat n < 2 ^ 63 then Some n else None)"
| "number_as_i64 (NegInt i) = Some i"
| "number_as_i64 (Float t) = None"

fun number_as_u64 :: "json_number \<Rightarrow> u64 option" where
  "number_as_u64 (PosInt n) = Some n"
| "number_as_u64 (NegInt i) = None"
| "number_as_u64 (Float t) = None"

fun number_text :: "json_number \<Rightarrow> string" where
  "number_text (PosInt n) = show_nat (unat n)"
| "number_text (NegInt i) = show_int (sint i)"
| "number_text (Float t) = t"

fun as_i64 :: "json \<Rightarrow> i64 option" where
  "as_i64 (JNumber n) = number_as_i64 n"
| "as_i64 _ = None"

fun as_u64 :: "json \<Rightarrow> u64 option" where
  "as_u64 (JNumber n) = number_as_u64 n"
| "as_u64 _ = None"

fun as_str :: "json \<Rightarrow> string option" where
  "as_str (JString s) = Some s"
| "as_str _ = None"

fun as_array :: "json \<Rightarrow> json list option" where
  "as_array (JArray xs) = Some xs"
| "as_array _ = None"

fun as_object :: "json \<Rightarrow> (string \<times> json) list option" where
  "as_object (JObject m) = Some m"
| "as_object _ = None"

fun is_object :: "json \<Rightarrow> bool" where
  "is_object (JObject m) = True"
| "is_object _ = False"

fun is_null :: "json \<Rightarrow> bool" where
  "is_null JNull = True"
| "is_null _ = False"

text \<open>\<open>Value::get\<close> with a string index.\<close>

fun json_get :: "json \<Rightarrow> string \<Rightarrow> json option" where
  "json_get (JObject m) k = map_of m k"
| "json_get _ k = None"

section \<open>Well-formed values\<close>

text \<open>What the Rust types guarantee: the sign split of integers, sorted distinct object keys, and
  arrays no longer than a \<open>Vec\<close> can be.\<close>

fun wf_number :: "json_number \<Rightarrow> bool" where
  "wf_number (PosInt n) = True"
| "wf_number (NegInt i) = (sint i < 0)"
| "wf_number (Float t) = True"

fun wf_json :: "json \<Rightarrow> bool" where
  "wf_json (JNumber n) = wf_number n"
| "wf_json (JArray xs) = (length xs < 2 ^ 63 \<and> list_all wf_json xs)"
| "wf_json (JObject m) = (bt_wf m \<and> list_all (\<lambda>p. wf_json (snd p)) m)"
| "wf_json _ = True"

text \<open>The values JSON text tells apart without a convention for floats: integers, in their sign split,
  are the only numbers. What the gateway signs and hashes is of this kind.\<close>

fun plain_json :: "json \<Rightarrow> bool" where
  "plain_json (JNumber n) = (wf_number n \<and> (\<forall>t. n \<noteq> Float t))"
| "plain_json (JArray xs) = list_all plain_json xs"
| "plain_json (JObject m) = list_all (\<lambda>p. plain_json (snd p)) m"
| "plain_json _ = True"

definition text_faithful :: "(json \<Rightarrow> string) \<Rightarrow> bool" where
  "text_faithful f \<longleftrightarrow> inj_on f {j. plain_json j}"

lemma text_faithfulD: "text_faithful f \<Longrightarrow> plain_json a \<Longrightarrow> plain_json b \<Longrightarrow> f a = f b \<longleftrightarrow> a = b"
  by (auto simp: text_faithful_def inj_on_def)

lemma is_null_iff: "is_null v \<longleftrightarrow> v = JNull"
  by (cases v) auto

lemma is_object_iff: "is_object v \<longleftrightarrow> (\<exists>m. v = JObject m)"
  by (cases v) auto

lemma as_str_Some [simp]: "as_str v = Some s \<longleftrightarrow> v = JString s"
  by (cases v) auto

lemma json_get_Some: "json_get v k = Some j \<longleftrightarrow> (\<exists>m. v = JObject m \<and> map_of m k = Some j)"
  by (cases v) auto

lemma sint_small: "unat (n :: u64) < 2 ^ 63 \<Longrightarrow> sint n = int (unat n)"
proof -
  assume small: "unat n < 2 ^ 63"
  have eq: "uint n = int (unat n)" by simp
  from small have "int (unat n) < int (2 ^ 63)" by (simp only: of_nat_less_iff)
  with eq have "uint n < 2 ^ 63" by simp
  moreover have "- (2 ^ 63) \<le> uint n" by (rule order_trans [OF _ uint_ge_0]) simp
  ultimately have "signed_take_bit 63 (uint n) = uint n"
    by (intro signed_take_bit_int_eq_self)
  with eq show ?thesis by (simp add: sint_uint)
qed

text \<open>An integer number reads as an \<open>i64\<close> exactly when it fits, and then as itself.\<close>

lemma number_as_i64_value:
  "number_as_i64 n = Some i \<Longrightarrow> number_text n = show_int (sint i)"
  by (cases n) (auto simp: sint_small show_int_def split: if_splits)

lemma number_as_i64_None_u64:
  "number_as_i64 n = None \<Longrightarrow> number_as_u64 n = Some m \<Longrightarrow> 2 ^ 63 \<le> unat m"
  by (cases n) (auto split: if_splits)

text \<open>The range test on integers, for evaluation.\<close>

lemma number_as_i64_code [code]:
  "number_as_i64 (PosInt n) = (if uint n < 9223372036854775808 then Some n else None)"
  "number_as_i64 (NegInt i) = Some i"
  "number_as_i64 (Float t) = None"
proof -
  have "unat n < 2 ^ 63 \<longleftrightarrow> int (unat n) < int (2 ^ 63)" by (simp only: of_nat_less_iff)
  then have "unat n < 2 ^ 63 \<longleftrightarrow> uint n < 9223372036854775808" by simp
  then show "number_as_i64 (PosInt n) = (if uint n < 9223372036854775808 then Some n else None)"
    by (simp only: number_as_i64.simps)
qed simp_all

end
