(* ===== verification/Gateway_Config.thy ===== *)
theory Gateway_Config
  imports Gateway_Prelude
begin

text \<open>
  \<open>src/config.rs\<close>: the configuration file, secrets as references to environment variables, and the
  limits of the virtual machine.

  The TOML reader is not part of the repository. It is an argument, a function from text to a
  configuration or an error text; that it builds every \<open>Secret\<close> and \<open>DownstreamConfig\<close> with the
  \<open>TryFrom\<close> conversions below (the attributes \<open>serde(try_from)\<close>) is the hypothesis \<open>toml_typed\<close>.
  A path is the list of its components, with \<open>/\<close> for the root directory.
\<close>

section \<open>Paths\<close>

type_synonym path = "string list"

fun split_slash :: "string \<Rightarrow> string \<Rightarrow> string list" where
  "split_slash acc [] = [rev acc]"
| "split_slash acc (c # s) =
     (if c = CHR ''/'' then rev acc # split_slash [] s else split_slash (c # acc) s)"

text \<open>\<open>Path::components\<close>: repeated separators and inner \<open>.\<close> components vanish.\<close>

definition path_components :: "string \<Rightarrow> path" where
  "path_components s =
     (if starts_with s ''/'' then [''/''] else if s = ''.'' \<or> starts_with s ''./'' then [''.''] else [])
     @ filter (\<lambda>c. c \<noteq> [] \<and> c \<noteq> ''.'') (split_slash [] s)"

definition is_absolute :: "path \<Rightarrow> bool" where
  "is_absolute p = (p \<noteq> [] \<and> hd p = ''/'')"

definition path_join :: "path \<Rightarrow> path \<Rightarrow> path" where
  "path_join base p =
     (if is_absolute p then p
      else if base = [] then p
      else base @ dropWhile (\<lambda>c. c = ''.'') p)"

definition path_parent :: "path \<Rightarrow> path option" where
  "path_parent p = (if p = [] \<or> last p = ''/'' then None else Some (butlast p))"

definition path_display :: "path \<Rightarrow> string" where
  "path_display p =
     (if is_absolute p then ''/'' @ join_with ''/'' (tl p) else join_with ''/'' p)"

section \<open>The configuration\<close>

datatype secret = Secret string

datatype transport = Stdio string | Http string

record downstream_config =
  dc_name :: string
  dc_transport :: transport
  dc_credential :: "secret option"

record raw_downstream =
  rd_name :: string
  rd_transport :: string
  rd_command :: "string option"
  rd_url :: "string option"
  rd_credential :: "secret option"

record server_config =
  listen :: string
  signing_key :: secret

record vm_settings =
  gas_limit :: u64
  memory_limit_bytes :: u64
  max_call_depth :: u64
  max_tool_calls :: u64
  max_tool_bytes_in :: u64
  max_tool_bytes_out :: u64
  max_output_bytes :: u64

record vm_config =
  vc_gas_limit :: u64
  vc_memory_limit_bytes :: u64
  vc_max_call_depth :: u64
  vc_max_tool_calls :: u64
  vc_max_tool_bytes_in :: u64
  vc_max_tool_bytes_out :: u64
  vc_max_output_bytes :: u64
  vc_record_trace :: bool

record policy_ref =
  policy_file :: path

record store_config =
  store_dir :: path

record principal_config =
  pc_token :: secret

record gateway_config =
  gc_server :: server_config
  gc_vm :: vm_settings
  gc_downstream :: "downstream_config list"
  gc_policy :: policy_ref
  gc_store :: store_config
  gc_principals :: "(string, principal_config) btree_map"

text \<open>\<open>VmSettings::default\<close>, from the machine's own defaults, and the conversion back.\<close>

definition vm_settings_default :: "vm_config \<Rightarrow> vm_settings" where
  "vm_settings_default d =
     \<lparr>gas_limit = vc_gas_limit d,
      memory_limit_bytes = vc_memory_limit_bytes d,
      max_call_depth = vc_max_call_depth d,
      max_tool_calls = vc_max_tool_calls d,
      max_tool_bytes_in = vc_max_tool_bytes_in d,
      max_tool_bytes_out = vc_max_tool_bytes_out d,
      max_output_bytes = vc_max_output_bytes d\<rparr>"

definition vm_config_of :: "vm_settings \<Rightarrow> vm_config" where
  "vm_config_of s =
     \<lparr>vc_gas_limit = gas_limit s,
      vc_memory_limit_bytes = memory_limit_bytes s,
      vc_max_call_depth = max_call_depth s,
      vc_max_tool_calls = max_tool_calls s,
      vc_max_tool_bytes_in = max_tool_bytes_in s,
      vc_max_tool_bytes_out = max_tool_bytes_out s,
      vc_max_output_bytes = max_output_bytes s,
      vc_record_trace = False\<rparr>"

text \<open>\<open>DownstreamConfig::try_from\<close>, in the order of its match arms.\<close>

definition transport_of ::
  "string \<Rightarrow> string \<Rightarrow> string option \<Rightarrow> string option \<Rightarrow> string + transport" where
  "transport_of name kind command url =
     (if kind = ''stdio'' then
        (case (command, url) of
           (Some c, None) \<Rightarrow> Inr (Stdio c)
         | (_, Some _) \<Rightarrow>
             Inl (''downstream `'' @ name @ ''`: stdio transport takes `command`, not `url`'')
         | (None, None) \<Rightarrow>
             Inl (''downstream `'' @ name @ ''`: stdio transport requires `command`''))
      else if kind = ''http'' then
        (case (command, url) of
           (None, Some u) \<Rightarrow> Inr (Http u)
         | (Some _, _) \<Rightarrow>
             Inl (''downstream `'' @ name @ ''`: http transport takes `url`, not `command`'')
         | (None, None) \<Rightarrow>
             Inl (''downstream `'' @ name @ ''`: http transport requires `url`''))
      else Inl (''downstream `'' @ name @ ''`: unknown transport `'' @ kind
                @ ''`, expected `stdio` or `http`''))"

definition downstream_try_from :: "raw_downstream \<Rightarrow> string + downstream_config" where
  "downstream_try_from raw =
     bind_r (transport_of (rd_name raw) (rd_transport raw) (rd_command raw) (rd_url raw))
       (\<lambda>t. Inr \<lparr>dc_name = rd_name raw, dc_transport = t, dc_credential = rd_credential raw\<rparr>)"

text \<open>Secrets: only \<open>env:NAME\<close> is accepted, and resolving one reads that variable. The environment
  is a function, \<open>None\<close> where \<open>std::env::var\<close> fails.\<close>

definition secret_try_from :: "string \<Rightarrow> string + secret" where
  "secret_try_from s =
     (case strip_prefix s ''env:'' of
        Some name \<Rightarrow> if name \<noteq> [] then Inr (Secret s)
          else Inl (''secret `'' @ s @ ''` must have the form `env:NAME`; no other form is accepted'')
      | None \<Rightarrow> Inl (''secret `'' @ s @ ''` must have the form `env:NAME`; no other form is accepted''))"

fun env_name :: "secret \<Rightarrow> string" where
  "env_name (Secret s) = drop (length ''env:'') s"

definition secret_resolve :: "(string \<Rightarrow> string option) \<Rightarrow> secret \<Rightarrow> string + string" where
  "secret_resolve env s =
     (case env (env_name s) of
        Some v \<Rightarrow> Inr v
      | None \<Rightarrow> Inl (''environment variable `'' @ env_name s @ ''` is not set''))"

text \<open>The loop of \<open>parse\<close> over the downstreams, and \<open>parse\<close> and \<open>load\<close> themselves.\<close>

fun check_downstream_names :: "string list \<Rightarrow> downstream_config list \<Rightarrow> string + unit" where
  "check_downstream_names names [] = Inr ()"
| "check_downstream_names names (d # ds) =
     (if CHR ''.'' \<in> set (dc_name d)
      then Inl (''downstream `'' @ dc_name d @ ''`: name must not contain `.`'')
      else if dc_name d \<in> set names
      then Inl (''downstream `'' @ dc_name d @ ''`: name is used more than once'')
      else check_downstream_names (insort_insert (dc_name d) names) ds)"

definition config_parse ::
  "(string \<Rightarrow> string + gateway_config) \<Rightarrow> string \<Rightarrow> path \<Rightarrow> string + gateway_config" where
  "config_parse toml text base =
     bind_r (toml text) (\<lambda>c.
     bind_r (check_downstream_names [] (gc_downstream c)) (\<lambda>_.
       Inr (c\<lparr>gc_policy := (gc_policy c)\<lparr>policy_file := path_join base (policy_file (gc_policy c))\<rparr>,
              gc_store := (gc_store c)\<lparr>store_dir := path_join base (store_dir (gc_store c))\<rparr>\<rparr>)))"

definition config_load ::
  "(string \<Rightarrow> string + gateway_config) \<Rightarrow> (path \<Rightarrow> string + string) \<Rightarrow> path \<Rightarrow> string + gateway_config" where
  "config_load toml read_to_string p =
     bind_r (map_err (\<lambda>e. path_display p @ '': '' @ e) (read_to_string p)) (\<lambda>text.
       map_err (\<lambda>e. path_display p @ '': '' @ e)
         (config_parse toml text (case path_parent p of Some b \<Rightarrow> b | None \<Rightarrow> [])))"

definition toml_typed :: "(string \<Rightarrow> string + gateway_config) \<Rightarrow> bool" where
  "toml_typed toml \<longleftrightarrow>
     (\<forall>text c. toml text = Inr c \<longrightarrow>
        (\<forall>d \<in> set (gc_downstream c). \<exists>raw. downstream_try_from raw = Inr d) \<and>
        (\<forall>s. s = signing_key (gc_server c) \<or> s \<in> (pc_token \<circ> snd) ` set (gc_principals c)
             \<or> (\<exists>d \<in> set (gc_downstream c). dc_credential d = Some s) \<longrightarrow>
             (\<exists>t. secret_try_from t = Inr s)) \<and>
        bt_wf (gc_principals c))"

section \<open>Facts\<close>

lemma secret_try_from_Inr:
  "secret_try_from t = Inr s \<longleftrightarrow> (\<exists>name. name \<noteq> [] \<and> t = ''env:'' @ name \<and> s = Secret t)"
  by (auto simp: secret_try_from_def text_simps split: option.splits if_splits)
     (auto simp: strip_prefix_def starts_with_def split: if_splits)

lemma env_name_try_from: "secret_try_from (''env:'' @ name) = Inr s \<Longrightarrow> env_name s = name"
  by (auto simp: secret_try_from_Inr)

lemma check_downstream_names_ok:
  "check_downstream_names names ds = Inr () \<longleftrightarrow>
     (\<forall>d \<in> set ds. CHR ''.'' \<notin> set (dc_name d)) \<and> distinct (map dc_name ds)
     \<and> set (map dc_name ds) \<inter> set names = {}"
  by (induction ds arbitrary: names) (auto simp: set_insort_insert)

lemma downstream_try_from_Inr:
  "downstream_try_from raw = Inr d \<longleftrightarrow>
     dc_name d = rd_name raw \<and> dc_credential d = rd_credential raw \<and>
     ((rd_transport raw = ''stdio'' \<and> rd_url raw = None \<and>
        (\<exists>c. rd_command raw = Some c \<and> dc_transport d = Stdio c)) \<or>
      (rd_transport raw = ''http'' \<and> rd_command raw = None \<and>
        (\<exists>u. rd_url raw = Some u \<and> dc_transport d = Http u)))"
  by (cases d)
    (auto simp: downstream_try_from_def transport_of_def split: option.splits if_splits)

text \<open>The limits survive the round trip through the trace header.\<close>

lemma vm_config_of_default:
  "vm_config_of (vm_settings_default d) = d\<lparr>vc_record_trace := False\<rparr>"
  by (simp add: vm_config_of_def vm_settings_default_def)

lemma path_join_relative: "\<not> is_absolute p \<Longrightarrow> base \<noteq> [] \<Longrightarrow> \<exists>q. path_join base p = base @ q"
  by (simp add: path_join_def)

end
