(* ===== verification/Trace_Format.thy ===== *)
theory Trace_Format
  imports Json_Value Gateway_Config
begin

text \<open>
  \<open>src/trace.rs\<close>: the signed record of a run, its JSON form and its signature.

  \<open>serde_json\<close> of a struct lists the fields in declaration order, so the JSON form of each type is
  a function into \<^typ>\<open>json\<close> that follows the \<open>derive(Serialize)\<close> attributes of the type. A call
  record is a type of proveno-core with its own serialisation: \<open>record_json\<close> is an argument. SHA-256,
  Ed25519 and the hex codec are the record \<open>crypto\<close>.
\<close>

section \<open>Data\<close>

datatype provenance =
    Unsigned
  | Signed (prov_by: string) (prov_sig: string)
  | Onchain (prov_chain: string) (prov_block: u64) (prov_reference: string)
  | Notarized (prov_scheme: string) (prov_ref: string)

datatype call_decision =
    Allowed
  | RejectedBySchema string
  | DeniedByPolicy string

record trace_header =
  trace_id :: string
  th_session :: "string option"
  th_principal :: string
  program_hash :: string
  gateway_policy_hash :: string
  description_hash :: string
  vm_version :: string
  th_vm_config :: vm_settings
  th_request :: "string option"

datatype tool_call_status = CallOk | CallError

record tool_call_record =
  seq :: u64
  tool_name :: string
  args_canonical :: string
  args_bytes :: u64
  response_hash :: string
  response_bytes :: u64
  response_canonical :: string
  error_message :: string
  rec_attestation :: string
  gas_charged :: u64
  rec_status :: tool_call_status

record trace_entry =
  te_record :: tool_call_record
  te_decision :: call_decision
  te_provenance :: provenance

datatype run_status = RunOk | RunError (status_kind_of: string) (status_message: string)

record trace_footer =
  tf_output :: "string option"
  tf_status :: run_status
  tf_gas_used :: u64
  tf_memory_used :: u64
  tf_signature :: string

record trace =
  tr_header :: trace_header
  tr_entries :: "trace_entry list"
  tr_footer :: trace_footer

datatype trace_error = InvalidSigningKey | MalformedSignature | SignatureMismatch

text \<open>The cryptography the trace uses. A signing key is its 32-byte seed.\<close>

record crypto =
  sha256 :: "string \<Rightarrow> digest"
  ed_sign :: "u8 list \<Rightarrow> digest \<Rightarrow> u8 list"
  ed_verifying_key :: "u8 list \<Rightarrow> u8 list"
  ed_verify_strict :: "u8 list \<Rightarrow> digest \<Rightarrow> u8 list \<Rightarrow> bool"
  hex_encode :: "u8 list \<Rightarrow> string"
  hex_decode_to_slice :: "nat \<Rightarrow> string \<Rightarrow> u8 list option"

section \<open>The JSON form\<close>

text \<open>A struct is written field by field, so its JSON text lists the fields in declaration order;
  the objects here are such lists, not maps. Tagged enums put the tag first.\<close>

fun opt_json :: "string option \<Rightarrow> json" where
  "opt_json None = JNull"
| "opt_json (Some s) = JString s"

definition u64_json :: "u64 \<Rightarrow> json" where
  "u64_json n = JNumber (PosInt n)"

fun provenance_json :: "provenance \<Rightarrow> json" where
  "provenance_json Unsigned = JObject [(''type'', JString ''unsigned'')]"
| "provenance_json (Signed b s) =
     JObject [(''type'', JString ''signed''), (''by'', JString b), (''sig'', JString s)]"
| "provenance_json (Onchain c b r) =
     JObject [(''type'', JString ''onchain''), (''chain'', JString c), (''block'', u64_json b),
              (''reference'', JString r)]"
| "provenance_json (Notarized s r) =
     JObject [(''type'', JString ''notarized''), (''scheme'', JString s), (''reference'', JString r)]"

fun decision_json :: "call_decision \<Rightarrow> json" where
  "decision_json Allowed = JObject [(''type'', JString ''allowed'')]"
| "decision_json (RejectedBySchema r) =
     JObject [(''type'', JString ''rejected_by_schema''), (''reason'', JString r)]"
| "decision_json (DeniedByPolicy r) =
     JObject [(''type'', JString ''denied_by_policy''), (''reason'', JString r)]"

definition vm_settings_json :: "vm_settings \<Rightarrow> json" where
  "vm_settings_json v =
     JObject [(''gas_limit'', u64_json (gas_limit v)),
              (''memory_limit_bytes'', u64_json (memory_limit_bytes v)),
              (''max_call_depth'', u64_json (max_call_depth v)),
              (''max_tool_calls'', u64_json (max_tool_calls v)),
              (''max_tool_bytes_in'', u64_json (max_tool_bytes_in v)),
              (''max_tool_bytes_out'', u64_json (max_tool_bytes_out v)),
              (''max_output_bytes'', u64_json (max_output_bytes v))]"

definition header_json :: "trace_header \<Rightarrow> json" where
  "header_json h =
     JObject [(''trace_id'', JString (trace_id h)),
              (''session'', opt_json (th_session h)),
              (''principal'', JString (th_principal h)),
              (''program_hash'', JString (program_hash h)),
              (''gateway_policy_hash'', JString (gateway_policy_hash h)),
              (''description_hash'', JString (description_hash h)),
              (''vm_version'', JString (vm_version h)),
              (''vm_config'', vm_settings_json (th_vm_config h)),
              (''request'', opt_json (th_request h))]"

definition entry_json :: "(tool_call_record \<Rightarrow> json) \<Rightarrow> trace_entry \<Rightarrow> json" where
  "entry_json record_json e =
     JObject [(''record'', record_json (te_record e)),
              (''decision'', decision_json (te_decision e)),
              (''provenance'', provenance_json (te_provenance e))]"

fun status_json :: "run_status \<Rightarrow> json" where
  "status_json RunOk = JObject [(''type'', JString ''ok'')]"
| "status_json (RunError k m) =
     JObject [(''type'', JString ''error''), (''kind'', JString k), (''message'', JString m)]"

definition footer_json :: "trace_footer \<Rightarrow> json" where
  "footer_json f =
     JObject [(''output'', opt_json (tf_output f)),
              (''status'', status_json (tf_status f)),
              (''gas_used'', u64_json (tf_gas_used f)),
              (''memory_used'', u64_json (tf_memory_used f)),
              (''signature'', JString (tf_signature f))]"

definition trace_json :: "(tool_call_record \<Rightarrow> json) \<Rightarrow> trace \<Rightarrow> json" where
  "trace_json record_json t =
     JObject [(''header'', header_json (tr_header t)),
              (''entries'', JArray (map (entry_json record_json) (tr_entries t))),
              (''footer'', footer_json (tr_footer t))]"

section \<open>Signing\<close>

text \<open>The trace writer: how a call record and a JSON value become text.\<close>

record trace_writer =
  tw_record_json :: "tool_call_record \<Rightarrow> json"
  tw_text :: "json \<Rightarrow> string"

definition trace_text :: "trace_writer \<Rightarrow> trace \<Rightarrow> string" where
  "trace_text w t = tw_text w (trace_json (tw_record_json w) t)"

definition trace_digest :: "crypto \<Rightarrow> trace_writer \<Rightarrow> trace \<Rightarrow> digest" where
  "trace_digest cr w t = sha256 cr (trace_text w t)"

definition set_signature :: "string \<Rightarrow> trace \<Rightarrow> trace" where
  "set_signature s t = t\<lparr>tr_footer := (tr_footer t)\<lparr>tf_signature := s\<rparr>\<rparr>"

definition trace_sign :: "crypto \<Rightarrow> trace_writer \<Rightarrow> u8 list \<Rightarrow> trace \<Rightarrow> trace" where
  "trace_sign cr w key t =
     (let t0 = set_signature [] t
      in set_signature (hex_encode cr (ed_sign cr key (trace_digest cr w t0))) t0)"

definition trace_verify :: "crypto \<Rightarrow> trace_writer \<Rightarrow> u8 list \<Rightarrow> trace \<Rightarrow> trace_error + unit" where
  "trace_verify cr w key t =
     (case hex_decode_to_slice cr 64 (tf_signature (tr_footer t)) of
        None \<Rightarrow> Inl MalformedSignature
      | Some sig \<Rightarrow>
          if ed_verify_strict cr key (trace_digest cr w (set_signature [] t)) sig
          then Inr () else Inl SignatureMismatch)"

definition signing_key_from_hex :: "crypto \<Rightarrow> string \<Rightarrow> trace_error + u8 list" where
  "signing_key_from_hex cr s =
     (case hex_decode_to_slice cr 32 s of
        None \<Rightarrow> Inl InvalidSigningKey
      | Some seed \<Rightarrow> Inr seed)"


section \<open>Documented behaviour of the libraries\<close>

text \<open>What the code relies on: strict verification accepts what the matching key signed, a signature
  has 64 bytes and a digest 32, hex text is two lowercase digits a byte and decodes to what was
  encoded, and only to slices of the asked length.\<close>

definition is_lower_hex :: "char \<Rightarrow> bool" where
  "is_lower_hex c \<longleftrightarrow> is_ascii_digit c \<or> (CHR ''a'' \<le> c \<and> c \<le> CHR ''f'')"

definition crypto_laws :: "crypto \<Rightarrow> bool" where
  "crypto_laws cr \<longleftrightarrow>
     (\<forall>k m. ed_verify_strict cr (ed_verifying_key cr k) m (ed_sign cr k m)) \<and>
     (\<forall>k m. length (ed_sign cr k m) = 64) \<and>
     (\<forall>s. length (sha256 cr s) = 32) \<and>
     (\<forall>bs. hex_decode_to_slice cr (length bs) (hex_encode cr bs) = Some bs) \<and>
     (\<forall>n s bs. hex_decode_to_slice cr n s = Some bs \<longrightarrow> length bs = n) \<and>
     (\<forall>bs. length (hex_encode cr bs) = 2 * length bs \<and> list_all is_lower_hex (hex_encode cr bs))"

definition writer_faithful :: "trace_writer \<Rightarrow> bool" where
  "writer_faithful w \<longleftrightarrow>
     inj (tw_record_json w) \<and> (\<forall>r. plain_json (tw_record_json w r)) \<and> text_faithful (tw_text w)"

section \<open>Facts\<close>

lemma set_signature_simps [simp]:
  "set_signature s (set_signature s' t) = set_signature s t"
  "tf_signature (tr_footer (set_signature s t)) = s"
  "tr_header (set_signature s t) = tr_header t"
  "tr_entries (set_signature s t) = tr_entries t"
  "tf_output (tr_footer (set_signature s t)) = tf_output (tr_footer t)"
  "tf_status (tr_footer (set_signature s t)) = tf_status (tr_footer t)"
  "tf_gas_used (tr_footer (set_signature s t)) = tf_gas_used (tr_footer t)"
  "tf_memory_used (tr_footer (set_signature s t)) = tf_memory_used (tr_footer t)"
  by (simp_all add: set_signature_def)

lemma set_signature_same: "set_signature (tf_signature (tr_footer t)) t = t"
  by (simp add: set_signature_def)

lemma opt_json_inj [simp]: "opt_json a = opt_json b \<longleftrightarrow> a = b"
  by (cases a; cases b) auto

lemma u64_json_inj [simp]: "u64_json a = u64_json b \<longleftrightarrow> a = b"
  by (simp add: u64_json_def)

lemma provenance_json_inj [simp]: "provenance_json a = provenance_json b \<longleftrightarrow> a = b"
  by (cases a; cases b) auto

lemma decision_json_inj [simp]: "decision_json a = decision_json b \<longleftrightarrow> a = b"
  by (cases a; cases b) auto

lemma status_json_inj [simp]: "status_json a = status_json b \<longleftrightarrow> a = b"
  by (cases a; cases b) auto

lemma vm_settings_json_inj [simp]: "vm_settings_json a = vm_settings_json b \<longleftrightarrow> a = b"
  by (cases a; cases b) (auto simp: vm_settings_json_def)

lemma header_json_inj [simp]: "header_json a = header_json b \<longleftrightarrow> a = b"
  by (cases a; cases b) (auto simp: header_json_def)

lemma footer_json_inj [simp]: "footer_json a = footer_json b \<longleftrightarrow> a = b"
  by (cases a; cases b) (auto simp: footer_json_def)

lemma entry_json_inj: "inj rj \<Longrightarrow> entry_json rj a = entry_json rj b \<longleftrightarrow> a = b"
  by (cases a; cases b) (auto simp: entry_json_def dest: injD)

lemma trace_json_inj: "inj rj \<Longrightarrow> trace_json rj a = trace_json rj b \<longleftrightarrow> a = b"
proof -
  assume rj: "inj rj"
  then have "inj (entry_json rj)" by (simp add: inj_def entry_json_inj)
  then have "map (entry_json rj) xs = map (entry_json rj) ys \<longleftrightarrow> xs = ys" for xs ys
    by (simp add: inj_map_eq_map)
  then show ?thesis by (cases a; cases b) (auto simp: trace_json_def)
qed

lemma plain_json_opt [simp]: "plain_json (opt_json x)"
  by (cases x) simp_all

lemma plain_json_u64 [simp]: "plain_json (u64_json n)"
  by (simp add: u64_json_def)

lemma plain_json_provenance [simp]: "plain_json (provenance_json p)"
  by (cases p) simp_all

lemma plain_json_decision [simp]: "plain_json (decision_json d)"
  by (cases d) simp_all

lemma plain_json_status [simp]: "plain_json (status_json s)"
  by (cases s) simp_all

lemma plain_json_trace: "(\<And>r. plain_json (rj r)) \<Longrightarrow> plain_json (trace_json rj t)"
  by (simp add: trace_json_def header_json_def footer_json_def entry_json_def vm_settings_json_def
      list_all_iff)

lemma trace_text_inj: "writer_faithful w \<Longrightarrow> trace_text w a = trace_text w b \<longleftrightarrow> a = b"
  by (simp add: writer_faithful_def trace_text_def trace_json_inj text_faithfulD plain_json_trace)

lemma trace_sign_frame [simp]:
  "tr_header (trace_sign cr w k t) = tr_header t"
  "tr_entries (trace_sign cr w k t) = tr_entries t"
  "tf_output (tr_footer (trace_sign cr w k t)) = tf_output (tr_footer t)"
  "tf_status (tr_footer (trace_sign cr w k t)) = tf_status (tr_footer t)"
  "tf_gas_used (tr_footer (trace_sign cr w k t)) = tf_gas_used (tr_footer t)"
  "tf_memory_used (tr_footer (trace_sign cr w k t)) = tf_memory_used (tr_footer t)"
  by (simp_all add: trace_sign_def Let_def)

lemma trace_sign_unsigned: "set_signature [] (trace_sign cr w k t) = set_signature [] t"
  by (simp add: trace_sign_def Let_def)

lemma trace_sign_idem: "trace_sign cr w k (trace_sign cr w k t) = trace_sign cr w k t"
  by (simp add: trace_sign_def Let_def)

lemma trace_verify_signed:
  assumes "crypto_laws cr"
  shows "trace_verify cr w (ed_verifying_key cr k) (trace_sign cr w k t) = Inr ()"
proof -
  let ?m = "trace_digest cr w (set_signature [] t)"
  have len: "length (ed_sign cr k ?m) = 64" and ok: "ed_verify_strict cr (ed_verifying_key cr k) ?m (ed_sign cr k ?m)"
    and hex: "\<And>bs. hex_decode_to_slice cr (length bs) (hex_encode cr bs) = Some bs"
    using assms by (auto simp: crypto_laws_def)
  have "hex_decode_to_slice cr 64 (hex_encode cr (ed_sign cr k ?m)) = Some (ed_sign cr k ?m)"
    using hex [of "ed_sign cr k ?m"] len by simp
  with ok show ?thesis by (simp add: trace_verify_def trace_sign_def Let_def)
qed

text \<open>What a verified signature says: the accepted bytes are the digest of the whole trace with the
  signature field empty.\<close>

lemma trace_verify_Inr:
  "trace_verify cr w key t = Inr () \<longleftrightarrow>
     (\<exists>sig. hex_decode_to_slice cr 64 (tf_signature (tr_footer t)) = Some sig \<and>
        ed_verify_strict cr key (trace_digest cr w (set_signature [] t)) sig)"
  by (auto simp: trace_verify_def split: option.splits)

end
