(* ===== verification/Policy_Rules.thy ===== *)
theory Policy_Rules
  imports Json_Value Trace_Format
begin

text \<open>
  \<open>src/policy.rs\<close>: the allow-lists and per-argument bounds, how a policy file becomes one, its hash,
  and the decision for one tool call. The TOML reader is an argument, as in \<open>Gateway_Config\<close>.
\<close>

section \<open>Data\<close>

datatype decision = Allow | Deny string

record policy =
  pol_principals :: "(string, string list) btree_map"
  pol_constraints :: "(string, (string, i64) btree_map) btree_map"

record principal_file =
  pf_allow :: "string list"

record policy_file_toml =
  pf_principals :: "(string, principal_file) btree_map"
  pf_constraints :: "(string, (string, i64) btree_map) btree_map"

section \<open>Loading\<close>

definition bound_error :: "string \<Rightarrow> string \<Rightarrow> string" where
  "bound_error tool key =
     ''constraint '' @ tool @ ''.'' @ key @ '': only <arg>_max bounds are supported''"

fun parse_bounds ::
  "string \<Rightarrow> (string, i64) btree_map \<Rightarrow> (string \<times> i64) list \<Rightarrow> string + (string, i64) btree_map" where
  "parse_bounds tool args [] = Inr args"
| "parse_bounds tool args ((key, mx) # bounds) =
     (case strip_suffix key ''_max'' of
        None \<Rightarrow> Inl (bound_error tool key)
      | Some arg \<Rightarrow>
          if arg = [] then Inl (bound_error tool key)
          else parse_bounds tool (bt_insert arg mx args) bounds)"

fun parse_constraints ::
  "(string, (string, i64) btree_map) btree_map \<Rightarrow> (string \<times> (string, i64) btree_map) list
     \<Rightarrow> string + (string, (string, i64) btree_map) btree_map" where
  "parse_constraints acc [] = Inr acc"
| "parse_constraints acc ((tool, bounds) # rest) =
     (case parse_bounds tool [] bounds of
        Inl e \<Rightarrow> Inl e
      | Inr args \<Rightarrow> parse_constraints (bt_insert tool args acc) rest)"

definition policy_of_file :: "policy_file_toml \<Rightarrow> string + policy" where
  "policy_of_file file =
     (case parse_constraints [] (pf_constraints file) of
        Inl e \<Rightarrow> Inl e
      | Inr cs \<Rightarrow>
          Inr \<lparr>pol_principals =
                 bt_of_list (map (\<lambda>(name, p). (name, bset_of_list (pf_allow p))) (pf_principals file)),
               pol_constraints = cs\<rparr>)"

definition policy_parse ::
  "(string \<Rightarrow> string + policy_file_toml) \<Rightarrow> string \<Rightarrow> string + policy" where
  "policy_parse toml text = bind_r (toml text) policy_of_file"

definition policy_load ::
  "(string \<Rightarrow> string + policy_file_toml) \<Rightarrow> (path \<Rightarrow> string + string) \<Rightarrow> path \<Rightarrow> string + policy" where
  "policy_load toml read_to_string p =
     bind_r (map_err (\<lambda>e. path_display p @ '': '' @ e) (read_to_string p)) (\<lambda>text.
       map_err (\<lambda>e. path_display p @ '': '' @ e) (policy_parse toml text))"

section \<open>Hash\<close>

definition i64_json :: "i64 \<Rightarrow> json" where
  "i64_json i = JNumber (if sint i < 0 then NegInt i else PosInt i)"

definition policy_json :: "policy \<Rightarrow> json" where
  "policy_json p =
     JObject [(''principals'',
                JObject (map (\<lambda>(n, ts). (n, JArray (map JString ts))) (pol_principals p))),
              (''constraints'',
                JObject (map (\<lambda>(t, bs). (t, JObject (map (\<lambda>(a, m). (a, i64_json m)) bs)))
                  (pol_constraints p)))]"

definition policy_hash :: "crypto \<Rightarrow> serde \<Rightarrow> policy \<Rightarrow> digest" where
  "policy_hash cr sd p = sha256 cr (json_text sd (policy_json p))"

section \<open>Decision\<close>

definition allowed_tools :: "policy \<Rightarrow> string \<Rightarrow> string list" where
  "allowed_tools p who =
     (case map_of (pol_principals p) who of Some allow \<Rightarrow> allow | None \<Rightarrow> [])"

fun check_bounds :: "serde \<Rightarrow> string \<Rightarrow> json \<Rightarrow> (string \<times> i64) list \<Rightarrow> decision" where
  "check_bounds sd tool args [] = Allow"
| "check_bounds sd tool args ((arg, mx) # bounds) =
     (case json_get args arg of
        None \<Rightarrow> Deny (tool @ '': '' @ arg @ '' is required by '' @ arg @ ''_max'')
      | Some v \<Rightarrow>
          (let exceeds = Deny (tool @ '': '' @ arg @ '' '' @ json_text sd v @ '' exceeds '' @ arg
                               @ ''_max '' @ show_int (sint mx))
           in case (as_i64 v, as_u64 v) of
                (Some n, _) \<Rightarrow>
                  if sint n > sint mx then exceeds else check_bounds sd tool args bounds
              | (None, Some _) \<Rightarrow> exceeds
              | (None, None) \<Rightarrow>
                  Deny (tool @ '': '' @ arg @ '' '' @ json_text sd v @ '' is not an integer'')))"

definition policy_check :: "serde \<Rightarrow> policy \<Rightarrow> string \<Rightarrow> string \<Rightarrow> json \<Rightarrow> decision" where
  "policy_check sd p who tool args =
     (case map_of (pol_principals p) who of
        None \<Rightarrow> Deny (''unknown principal '' @ who)
      | Some allow \<Rightarrow>
          if tool \<notin> set allow
          then Deny (tool @ '' is not allowed for principal '' @ who)
          else check_bounds sd tool args
                 (case map_of (pol_constraints p) tool of Some bs \<Rightarrow> bs | None \<Rightarrow> []))"

section \<open>What a policy promises\<close>

text \<open>The integer a JSON value denotes, if it is one; the bounds are about this number.\<close>

fun json_int :: "json \<Rightarrow> int option" where
  "json_int (JNumber (PosInt n)) = Some (int (unat n))"
| "json_int (JNumber (NegInt i)) = Some (sint i)"
| "json_int _ = None"

definition within_bound :: "json \<Rightarrow> string \<times> i64 \<Rightarrow> bool" where
  "within_bound args b =
     (\<exists>v n. json_get args (fst b) = Some v \<and> json_int v = Some n \<and> n \<le> sint (snd b))"

definition bounds_for :: "policy \<Rightarrow> string \<Rightarrow> (string, i64) btree_map" where
  "bounds_for p tool = (case map_of (pol_constraints p) tool of Some bs \<Rightarrow> bs | None \<Rightarrow> [])"

definition permits :: "policy \<Rightarrow> string \<Rightarrow> string \<Rightarrow> json \<Rightarrow> bool" where
  "permits p who tool args =
     (tool \<in> set (allowed_tools p who) \<and> (\<forall>b \<in> set (bounds_for p tool). within_bound args b))"

section \<open>Facts\<close>

lemma as_i64_json_int: "as_i64 v = Some n \<Longrightarrow> json_int v = Some (sint n)"
  by (cases v rule: json_int.cases) (auto simp: sint_small split: if_splits)

lemma as_u64_beyond:
  assumes "as_i64 v = None" "as_u64 v = Some m"
  shows "json_int v = Some (int (unat m)) \<and> sint (mx :: i64) < int (unat m)"
proof -
  from assms have v: "v = JNumber (PosInt m)" and big: "2 ^ 63 \<le> unat m"
    by (cases v rule: json_int.cases; simp split: if_splits)+
  have "sint mx < 2 ^ 63" using sint_lt [of mx] by simp
  moreover have "int (2 ^ 63) \<le> int (unat m)" using big by (simp only: of_nat_le_iff)
  ultimately show ?thesis using v by simp
qed

lemma as_none_json_int: "as_i64 v = None \<Longrightarrow> as_u64 v = None \<Longrightarrow> json_int v = None"
  by (cases v rule: json_int.cases) (auto split: if_splits)

lemma check_bounds_Allow:
  "check_bounds sd tool args bs = Allow \<longleftrightarrow> (\<forall>b \<in> set bs. within_bound args b)"
proof (induction bs)
  case Nil
  then show ?case by simp
next
  case (Cons b bs)
  obtain arg mx where b: "b = (arg, mx)" by fastforce
  show ?case
  proof (cases "json_get args arg")
    case None
    then show ?thesis by (simp add: b within_bound_def)
  next
    case (Some v)
    then have wb: "within_bound args b \<longleftrightarrow> (\<exists>n. json_int v = Some n \<and> n \<le> sint mx)"
      by (simp add: b within_bound_def)
    consider (i) n where "as_i64 v = Some n" | (u) m where "as_i64 v = None" "as_u64 v = Some m"
      | (no) "as_i64 v = None" "as_u64 v = None" by (cases "as_i64 v"; cases "as_u64 v") auto
    then show ?thesis
    proof cases
      case i
      then show ?thesis using Some Cons wb as_i64_json_int [OF i] by (auto simp: b Let_def)
    next
      case u
      then show ?thesis using Some wb as_u64_beyond [OF u, of mx] by (auto simp: b Let_def)
    next
      case no
      then show ?thesis using Some wb as_none_json_int [OF no] by (auto simp: b Let_def)
    qed
  qed
qed

lemma policy_check_Allow:
  "policy_check sd p who tool args = Allow \<longleftrightarrow> permits p who tool args"
  by (auto simp: policy_check_def permits_def allowed_tools_def bounds_for_def check_bounds_Allow
      split: option.splits)

lemma permits_allowed: "permits p who tool args \<Longrightarrow> tool \<in> set (allowed_tools p who)"
  by (simp add: permits_def)


lemma parse_bounds_ok:
  "is_ok (parse_bounds tool args bs) \<longleftrightarrow> (\<forall>key \<in> fst ` set bs. \<exists>arg. arg \<noteq> [] \<and> key = arg @ ''_max'')"
proof (induction bs arbitrary: args)
  case Nil
  then show ?case by simp
next
  case (Cons b bs)
  obtain key mx where b: "b = (key, mx)" by fastforce
  show ?case
  proof (cases "strip_suffix key ''_max''")
    case None
    then have "\<nexists>arg. key = arg @ ''_max''" using strip_suffix_Some by (metis option.distinct(1))
    with None show ?thesis by (auto simp: b)
  next
    case (Some arg)
    then have "key = arg @ ''_max''" by (simp add: strip_suffix_Some)
    with Some Cons show ?thesis by (auto simp: b)
  qed
qed

lemma parse_bounds_lookup:
  "parse_bounds tool args bs = Inr r \<Longrightarrow> distinct (map fst bs) \<Longrightarrow>
     map_of r arg = (case map_of bs (arg @ ''_max'') of Some m \<Rightarrow> Some m | None \<Rightarrow> map_of args arg)"
proof (induction bs arbitrary: args)
  case Nil
  then show ?case by simp
next
  case (Cons b bs)
  obtain key mx where b: "b = (key, mx)" by fastforce
  from Cons.prems b obtain a where a: "key = a @ ''_max''"
    and rest: "parse_bounds tool (bt_insert a mx args) bs = Inr r"
    by (auto simp: strip_suffix_Some split: option.splits if_splits)
  from Cons.prems b have fresh: "map_of bs key = None" by (auto simp: map_of_eq_None_iff)
  have IH: "map_of r arg = (case map_of bs (arg @ ''_max'') of Some m \<Rightarrow> Some m
      | None \<Rightarrow> map_of (bt_insert a mx args) arg)"
    using Cons.IH [OF rest] Cons.prems by simp
  show ?case
    using IH fresh a by (auto simp: b map_of_bt_insert split: option.splits)
qed

lemma parse_constraints_lookup:
  "parse_constraints acc cs = Inr r \<Longrightarrow> distinct (map fst cs) \<Longrightarrow>
     (case map_of cs tool of
        None \<Rightarrow> map_of r tool = map_of acc tool
      | Some bs \<Rightarrow> \<exists>args. parse_bounds tool [] bs = Inr args \<and> map_of r tool = Some args)"
proof (induction cs arbitrary: acc)
  case Nil
  then show ?case by simp
next
  case (Cons c cs)
  obtain t bs where c: "c = (t, bs)" by fastforce
  with Cons.prems obtain args where args: "parse_bounds t [] bs = Inr args"
    and rest: "parse_constraints (bt_insert t args acc) cs = Inr r"
    by (auto split: sum.splits)
  from Cons.prems c have fresh: "map_of cs t = None" by (auto simp: map_of_eq_None_iff)
  have IH: "case map_of cs tool of
        None \<Rightarrow> map_of r tool = map_of (bt_insert t args acc) tool
      | Some bs \<Rightarrow> \<exists>args. parse_bounds tool [] bs = Inr args \<and> map_of r tool = Some args"
    using Cons.IH [OF rest] Cons.prems by simp
  show ?case
    using IH fresh args by (cases "t = tool") (auto simp: c map_of_bt_insert split: option.splits)
qed

lemma policy_of_file_Inr:
  "policy_of_file f = Inr p \<longleftrightarrow>
     (\<exists>cs. parse_constraints [] (pf_constraints f) = Inr cs \<and>
        p = \<lparr>pol_principals = bt_of_list (map (\<lambda>(name, p). (name, bset_of_list (pf_allow p))) (pf_principals f)),
             pol_constraints = cs\<rparr>)"
  by (auto simp: policy_of_file_def split: sum.splits)

lemma parse_constraints_ok:
  "is_ok (parse_constraints acc cs) \<longleftrightarrow>
     (\<forall>bs \<in> snd ` set cs. \<forall>key \<in> fst ` set bs. \<exists>arg. arg \<noteq> [] \<and> key = arg @ ''_max'')"
proof (induction cs arbitrary: acc)
  case Nil
  then show ?case by simp
next
  case (Cons c cs)
  obtain t bs where c: "c = (t, bs)" by fastforce
  have "is_ok (parse_constraints acc (c # cs)) \<longleftrightarrow>
      is_ok (parse_bounds t [] bs) \<and> is_ok (parse_constraints [] cs)"
    using Cons.IH by (auto simp: c split: sum.split)
  with Cons.IH [of "[]"] show ?case by (simp add: c parse_bounds_ok)
qed

lemma policy_of_file_ok: "is_ok (policy_of_file f) \<longleftrightarrow> is_ok (parse_constraints [] (pf_constraints f))"
  by (simp add: policy_of_file_def split: sum.split)

lemma policy_of_file_tools:
  assumes "policy_of_file f = Inr p" "bt_wf (pf_principals f)"
  shows "set (allowed_tools p who) =
     (case map_of (pf_principals f) who of Some l \<Rightarrow> set (pf_allow l) | None \<Rightarrow> {})"
proof -
  let ?g = "\<lambda>(name, p). (name, bset_of_list (pf_allow p))"
  have "bt_wf (map ?g (pf_principals f))" using assms(2) by (simp add: bt_wf_def split_def o_def)
  moreover have "map_of (map ?g (pf_principals f)) who =
      map_option (\<lambda>p. bset_of_list (pf_allow p)) (map_of (pf_principals f) who)"
    by (simp add: map_of_map)
  ultimately show ?thesis
    using assms(1) by (auto simp: policy_of_file_Inr allowed_tools_def bt_of_list_id split: option.splits)
qed

lemma policy_of_file_bounds:
  assumes "policy_of_file f = Inr p" "bt_wf (pf_constraints f)" "\<forall>bs \<in> snd ` set (pf_constraints f). bt_wf bs"
  shows "map_of (bounds_for p tool) arg =
     Option.bind (map_of (pf_constraints f) tool) (\<lambda>bs. map_of bs (arg @ ''_max''))"
proof -
  from assms(1) have cs: "parse_constraints [] (pf_constraints f) = Inr (pol_constraints p)"
    by (auto simp: policy_of_file_Inr)
  note look = parse_constraints_lookup [OF cs bt_wf_distinct [OF assms(2)], of tool]
  show ?thesis
  proof (cases "map_of (pf_constraints f) tool")
    case None
    with look show ?thesis by (simp add: bounds_for_def)
  next
    case (Some bs)
    then have "bs \<in> snd ` set (pf_constraints f)" by (force dest: map_of_SomeD)
    then have "distinct (map fst bs)" using assms(3) bt_wf_distinct by blast
    with Some look show ?thesis
      by (auto simp: bounds_for_def parse_bounds_lookup split: option.splits)
  qed
qed

lemma policy_of_file_cong:
  assumes "pf_constraints f = pf_constraints f'"
    and "list_all2 (\<lambda>(n, p) (n', p'). n = n' \<and> set (pf_allow p) = set (pf_allow p'))
           (pf_principals f) (pf_principals f')"
  shows "policy_of_file f = policy_of_file f'"
proof -
  have "map (\<lambda>(name, p). (name, bset_of_list (pf_allow p))) (pf_principals f)
      = map (\<lambda>(name, p). (name, bset_of_list (pf_allow p))) (pf_principals f')"
    using assms(2) by (induction rule: list_all2_induct) (auto intro: bset_of_list_cong)
  with assms(1) show ?thesis by (simp only: policy_of_file_def)
qed

lemma i64_json_inj [simp]: "i64_json a = i64_json b \<longleftrightarrow> a = b"
  by (auto simp: i64_json_def)

lemma plain_json_policy: "plain_json (policy_json p)"
  by (auto simp: policy_json_def i64_json_def list_all_iff)

lemma policy_json_inj: "policy_json p = policy_json q \<longleftrightarrow> p = q"
proof -
  have pairs: "map (\<lambda>(a, b). (a, f b)) xs = map (\<lambda>(a, b). (a, f b)) ys \<longleftrightarrow> xs = ys"
    if "inj f" for f :: "'b \<Rightarrow> json" and xs ys :: "(string \<times> 'b) list"
  proof -
    have "inj (\<lambda>(a, b). (a, f b))" using that by (auto simp: inj_def)
    then show ?thesis by (rule inj_map_eq_map)
  qed
  have "inj JString" by (auto simp: inj_def)
  then have tools: "inj (\<lambda>ts. JArray (map JString ts))" by (auto simp: inj_def)
  have "inj i64_json" by (auto simp: inj_def)
  then have bounds: "inj (\<lambda>bs. JObject (map (\<lambda>(a, m). (a, i64_json m)) bs))"
    by (auto simp: inj_def pairs)
  show ?thesis
    by (cases p; cases q) (auto simp: policy_json_def pairs [OF tools] pairs [OF bounds])
qed

section \<open>Properties\<close>

text \<open>A policy file and the policy it stands for, as a running example.\<close>

definition sample_policy_file :: policy_file_toml where
  "sample_policy_file =
     \<lparr>pf_principals = [(''alice'', \<lparr>pf_allow = [''w.transfer'', ''w.balance'']\<rparr>)],
      pf_constraints = [(''w.transfer'', [(''amount_max'', 100)])]\<rparr>"

definition sample_policy :: policy where
  "sample_policy =
     \<lparr>pol_principals = [(''alice'', [''w.balance'', ''w.transfer''])],
      pol_constraints = [(''w.transfer'', [(''amount'', 100)])]\<rparr>"

text \<open>C10: the decision procedure allows a call exactly when the tool is on the principal's allow-list
  and every bounded argument is present, an integer, and at most its bound as a mathematical integer,
  including \<open>u64\<close> values beyond the range of the bound's type.\<close>

theorem policy_check_exact:
  "policy_check sd p who tool args = Allow \<longleftrightarrow> permits p who tool args"
  by (rule policy_check_Allow)

text \<open>A policy file is accepted exactly when every constraint key is a non-empty argument name
  followed by \<open>_max\<close>; anything else is refused rather than ignored.\<close>

theorem policy_file_accepted:
  "is_ok (policy_of_file f) \<longleftrightarrow>
     (\<forall>bs \<in> snd ` set (pf_constraints f). \<forall>key \<in> fst ` set bs. \<exists>arg. arg \<noteq> [] \<and> key = arg @ ''_max'')"
  unfolding policy_of_file_ok by (rule parse_constraints_ok)

theorem policy_file_accepted_witness:
  "is_ok (policy_of_file sample_policy_file) \<and>
   \<not> is_ok (policy_of_file (sample_policy_file\<lparr>pf_constraints := [(''w.transfer'', [(''_max'', 1)])]\<rparr>))"
  unfolding policy_file_accepted by (auto simp: sample_policy_file_def)

text \<open>An accepted file means what it says: the tools of a principal are those listed for it, and
  the bound on an argument is the one under its \<open>_max\<close> key of that tool's table.\<close>

theorem policy_file_meaning:
  assumes "policy_of_file f = Inr p" and "bt_wf (pf_principals f)" and "bt_wf (pf_constraints f)"
    and "\<forall>bs \<in> snd ` set (pf_constraints f). bt_wf bs"
  shows "set (allowed_tools p who) =
         (case map_of (pf_principals f) who of Some l \<Rightarrow> set (pf_allow l) | None \<Rightarrow> {}) \<and>
       map_of (bounds_for p tool) arg =
         Option.bind (map_of (pf_constraints f) tool) (\<lambda>bs. map_of bs (arg @ ''_max''))"
  using policy_of_file_tools [OF assms(1,2)] policy_of_file_bounds [OF assms(1,3,4)] by simp

theorem policy_file_meaning_witness:
  "set (allowed_tools sample_policy ''alice'') = {''w.balance'', ''w.transfer''} \<and>
   map_of (bounds_for sample_policy ''w.transfer'') ''amount'' = Some 100"
proof -
  have ok: "policy_of_file sample_policy_file = Inr sample_policy" by code_simp
  have wf: "bt_wf (pf_principals sample_policy_file)" "bt_wf (pf_constraints sample_policy_file)"
    "\<forall>bs \<in> snd ` set (pf_constraints sample_policy_file). bt_wf bs"
    by code_simp+
  show ?thesis
    using policy_file_meaning [OF ok wf, of "''alice''" "''w.transfer''" "''amount''"]
    by (auto simp: sample_policy_file_def)
qed

text \<open>C26: a policy file is accepted exactly when every constraint key is a non-empty argument name
  followed by \<open>_max\<close>, and then it means what it says: the tools of a principal are those listed for it,
  and the bound on an argument is the one under its \<open>_max\<close> key of that tool's table. (A table of a TOML
  file has each key once.)\<close>

theorem policy_file_exact:
  assumes "bt_wf (pf_principals f)" and "bt_wf (pf_constraints f)" and "\<forall>bs \<in> snd ` set (pf_constraints f). bt_wf bs"
  shows "(is_ok (policy_of_file f) \<longleftrightarrow>
       (\<forall>bs \<in> snd ` set (pf_constraints f). \<forall>key \<in> fst ` set bs. \<exists>arg. arg \<noteq> [] \<and> key = arg @ ''_max'')) \<and>
     (\<forall>p. policy_of_file f = Inr p \<longrightarrow>
       (\<forall>who. set (allowed_tools p who) =
          (case map_of (pf_principals f) who of Some l \<Rightarrow> set (pf_allow l) | None \<Rightarrow> {})) \<and>
       (\<forall>tool arg. map_of (bounds_for p tool) arg =
          Option.bind (map_of (pf_constraints f) tool) (\<lambda>bs. map_of bs (arg @ ''_max''))))"
  unfolding policy_of_file_ok parse_constraints_ok
  using policy_of_file_tools [OF _ assms(1)] policy_of_file_bounds [OF _ assms(2,3)] by blast

theorem policy_file_exact_witness:
  "is_ok (policy_of_file sample_policy_file) \<and>
   set (allowed_tools sample_policy ''alice'') = {''w.balance'', ''w.transfer''} \<and>
   map_of (bounds_for sample_policy ''w.transfer'') ''amount'' = Some 100"
proof -
  have ok: "policy_of_file sample_policy_file = Inr sample_policy" by code_simp
  have wf: "bt_wf (pf_principals sample_policy_file)" "bt_wf (pf_constraints sample_policy_file)"
    "\<forall>bs \<in> snd ` set (pf_constraints sample_policy_file). bt_wf bs"
    by code_simp+
  from policy_file_exact [OF wf] ok
  have "set (allowed_tools sample_policy who) =
      (case map_of (pf_principals sample_policy_file) who of Some l \<Rightarrow> set (pf_allow l) | None \<Rightarrow> {})"
    "map_of (bounds_for sample_policy tool) arg =
      Option.bind (map_of (pf_constraints sample_policy_file) tool) (\<lambda>bs. map_of bs (arg @ ''_max''))" for who tool arg
    by blast+
  then show ?thesis using ok by (auto simp: sample_policy_file_def)
qed

text \<open>The layout of the file does not matter: allow-lists that hold the same tools, in whatever
  order and with repetitions, give the same policy and so the same hash.\<close>

theorem policy_layout_irrelevant:
  assumes "pf_constraints f = pf_constraints f'"
    and "list_all2 (\<lambda>(n, p) (n', p'). n = n' \<and> set (pf_allow p) = set (pf_allow p'))
           (pf_principals f) (pf_principals f')"
  shows "policy_of_file f = policy_of_file f'"
  using assms by (rule policy_of_file_cong)

end
