(* ===== verification/Downstream_Client.thy ===== *)
theory Downstream_Client
  imports Trace_Format
begin

text \<open>
  \<open>src/downstream.rs\<close>: the connections to the tool servers, the tools they list, one \<open>tools/call\<close>, and
  the provenance a server reports beside its result.

  The MCP client is the crate \<open>rmcp\<close>. What it does is an argument: \<open>serve\<close> opens a connection from
  a launch description and either fails with an error text or lists the server's tools, and
  \<open>call_tool\<close> sends one request in a world of type \<open>'w\<close> (the servers and everything behind them)
  and returns the world after it. A world is otherwise opaque, so "this call never reached a
  server" is "the world is the same".
\<close>

section \<open>Data\<close>

record tool_schema =
  ts_server :: string
  ts_name :: string
  ts_description :: string
  ts_input_schema :: json
  ts_output_schema :: "json option"

definition qualified_name :: "tool_schema \<Rightarrow> string" where
  "qualified_name t = ts_server t @ ''.'' @ ts_name t"

text \<open>A tool as \<open>tools/list\<close> reports it, and the result of \<open>tools/call\<close>: content blocks, of which
  only text is looked at, structured content and metadata.\<close>

record mcp_tool =
  mt_name :: string
  mt_description :: "string option"
  mt_input_schema :: "(string \<times> json) list"
  mt_output_schema :: "(string \<times> json) list option"

datatype content_block = TextBlock string | OtherBlock

record call_tool_result =
  cr_content :: "content_block list"
  cr_is_error :: "bool option"
  cr_structured :: "json option"
  cr_meta :: "(string \<times> json) list option"

record tool_response =
  tp_value :: json
  tp_provenance :: provenance
  tp_attestation :: string

record downstreams =
  ds_clients :: "(string, downstream_config) btree_map"
  ds_tools :: "tool_schema list"

definition PROVENANCE_META_KEY :: string where
  "PROVENANCE_META_KEY = ''proveno/provenance''"

section \<open>Connecting\<close>

text \<open>How a server is reached: a child process with its command line and whole environment, or a
  URL with an optional bearer token.\<close>

datatype launch =
    Spawn (launch_program: string) (launch_args: "string list") (launch_env: "(string, string) btree_map")
  | Connect (launch_url: string) (launch_token: "string option")

definition connect_error :: "string \<Rightarrow> string \<Rightarrow> string \<Rightarrow> string" where
  "connect_error name what e = ''downstream `'' @ name @ ''`: '' @ what @ '': '' @ e"

definition resolve_credential ::
  "(string \<Rightarrow> string option) \<Rightarrow> downstream_config \<Rightarrow> string + (string \<times> string) option" where
  "resolve_credential env c =
     (case dc_credential c of
        Some s \<Rightarrow>
          (case secret_resolve env s of
             Inl e \<Rightarrow> Inl (connect_error (dc_name c) ''credential'' e)
           | Inr v \<Rightarrow> Inr (Some (env_name s, v)))
      | None \<Rightarrow> Inr None)"

text \<open>The environment of a child: cleared, then \<open>PATH\<close> and \<open>HOME\<close> where set, then the credential.
  \<open>osenv\<close> is \<open>std::env::var_os\<close>.\<close>

definition child_env ::
  "(string \<Rightarrow> string option) \<Rightarrow> (string \<times> string) option \<Rightarrow> (string, string) btree_map" where
  "child_env osenv cred =
     bt_of_list
       (concat (map (\<lambda>var. case osenv var of Some v \<Rightarrow> [(var, v)] | None \<Rightarrow> []) [''PATH'', ''HOME''])
        @ (case cred of Some (var, v) \<Rightarrow> [(var, v)] | None \<Rightarrow> []))"

definition launch_for ::
  "(string \<Rightarrow> string option) \<Rightarrow> (string \<Rightarrow> string option) \<Rightarrow> downstream_config \<Rightarrow> string + launch" where
  "launch_for env osenv c =
     bind_r (resolve_credential env c) (\<lambda>cred.
       case dc_transport c of
         Stdio command \<Rightarrow>
           (case split_whitespace command of
              [] \<Rightarrow> Inl (connect_error (dc_name c) ''spawn'' ''command is empty'')
            | program # args \<Rightarrow> Inr (Spawn program args (child_env osenv cred)))
       | Http url \<Rightarrow> Inr (Connect url (map_option snd cred)))"

text \<open>\<open>open\<close> and \<open>tools/list\<close>: the server's tools, or the error of the first of the two steps that
  failed.\<close>

datatype mcp_failure = SpawnFailed string | InitializeFailed string | ListFailed string

fun failure_text :: "mcp_failure \<Rightarrow> string \<times> string" where
  "failure_text (SpawnFailed e) = (''spawn'', e)"
| "failure_text (InitializeFailed e) = (''initialize'', e)"
| "failure_text (ListFailed e) = (''tools/list'', e)"

definition open_client ::
  "(launch \<Rightarrow> mcp_failure + mcp_tool list) \<Rightarrow> (string \<Rightarrow> string option) \<Rightarrow> (string \<Rightarrow> string option)
     \<Rightarrow> downstream_config \<Rightarrow> string + mcp_tool list" where
  "open_client serve env osenv c =
     bind_r (launch_for env osenv c) (\<lambda>l.
       map_err (\<lambda>f. connect_error (dc_name c) (fst (failure_text f)) (snd (failure_text f))) (serve l))"

definition tool_schema_of :: "string \<Rightarrow> mcp_tool \<Rightarrow> string + tool_schema" where
  "tool_schema_of server t =
     (if CHR ''.'' \<in> set (mt_name t)
      then Inl (''downstream `'' @ server @ ''`: tool name `'' @ mt_name t @ ''` must not contain `.`'')
      else Inr \<lparr>ts_server = server,
                ts_name = mt_name t,
                ts_description = (case mt_description t of Some d \<Rightarrow> d | None \<Rightarrow> []),
                ts_input_schema = JObject (mt_input_schema t),
                ts_output_schema = map_option JObject (mt_output_schema t)\<rparr>)"

fun list_tools :: "string \<Rightarrow> mcp_tool list \<Rightarrow> tool_schema list \<Rightarrow> string + tool_schema list" where
  "list_tools server [] tools = Inr tools"
| "list_tools server (t # ts) tools =
     (case tool_schema_of server t of
        Inl e \<Rightarrow> Inl e
      | Inr s \<Rightarrow> list_tools server ts (tools @ [s]))"

fun connect_loop ::
  "(downstream_config \<Rightarrow> string + mcp_tool list) \<Rightarrow> downstream_config list
     \<Rightarrow> (string, downstream_config) btree_map \<Rightarrow> tool_schema list
     \<Rightarrow> string + (string, downstream_config) btree_map \<times> tool_schema list" where
  "connect_loop op [] clients tools = Inr (clients, tools)"
| "connect_loop op (c # cs) clients tools =
     (case op c of
        Inl e \<Rightarrow> Inl e
      | Inr listed \<Rightarrow>
          (case list_tools (dc_name c) listed tools of
             Inl e \<Rightarrow> Inl e
           | Inr tools' \<Rightarrow> connect_loop op cs (bt_insert (dc_name c) c clients) tools'))"

definition downstreams_connect ::
  "(launch \<Rightarrow> mcp_failure + mcp_tool list) \<Rightarrow> (string \<Rightarrow> string option) \<Rightarrow> (string \<Rightarrow> string option)
     \<Rightarrow> downstream_config list \<Rightarrow> string + downstreams" where
  "downstreams_connect serve env osenv configs =
     bind_r (connect_loop (open_client serve env osenv) configs [] []) (\<lambda>(clients, tools).
       Inr \<lparr>ds_clients = clients, ds_tools = sort_key qualified_name tools\<rparr>)"

section \<open>Results\<close>

fun block_text :: "content_block \<Rightarrow> string option" where
  "block_text (TextBlock t) = Some t"
| "block_text OtherBlock = None"

definition texts_of :: "call_tool_result \<Rightarrow> string list" where
  "texts_of r = List.map_filter block_text (cr_content r)"

definition result_value :: "serde \<Rightarrow> call_tool_result \<Rightarrow> json" where
  "result_value sd r =
     (let fallback = JObject [(''text'', JString (concat (texts_of r)))]
      in case cr_structured r of
           Some v \<Rightarrow> v
         | None \<Rightarrow>
             (case cr_content r of
                [TextBlock t] \<Rightarrow>
                  (case json_parse sd t of Inr (JObject m) \<Rightarrow> JObject m | _ \<Rightarrow> fallback)
              | _ \<Rightarrow> fallback))"

definition map_result :: "serde \<Rightarrow> call_tool_result \<Rightarrow> string + json" where
  "map_result sd r =
     (if cr_is_error r = Some True then Inl (concat (texts_of r))
      else Inr (case result_value sd r of
                  JObject m \<Rightarrow> JObject m
                | other \<Rightarrow> JObject [(''value'', other)]))"

section \<open>Provenance\<close>

text \<open>\<open>serde_json::from_value\<close> of an object into the tagged enum \<open>Provenance\<close>: the tag must name a
  variant and that variant's fields must be there with their types; other fields are ignored. The
  texts of the errors are serde's: \<open>derr\<close>.\<close>

definition provenance_from_object ::
  "(json \<Rightarrow> string) \<Rightarrow> (string \<times> json) list \<Rightarrow> string + provenance" where
  "provenance_from_object derr m =
     (let fail = Inl (derr (JObject m));
          str = (\<lambda>k. Option.bind (map_of m k) as_str);
          num = (\<lambda>k. Option.bind (map_of m k) as_u64)
      in case str ''type'' of
           None \<Rightarrow> fail
         | Some tag \<Rightarrow>
             if tag = ''unsigned'' then Inr Unsigned
             else if tag = ''signed'' then
               (case (str ''by'', str ''sig'') of
                  (Some b, Some s) \<Rightarrow> Inr (Signed b s)
                | _ \<Rightarrow> fail)
             else if tag = ''onchain'' then
               (case (str ''chain'', num ''block'', str ''reference'') of
                  (Some c, Some b, Some r) \<Rightarrow> Inr (Onchain c b r)
                | _ \<Rightarrow> fail)
             else if tag = ''notarized'' then
               (case (str ''scheme'', str ''reference'') of
                  (Some s, Some r) \<Rightarrow> Inr (Notarized s r)
                | _ \<Rightarrow> fail)
             else fail)"

text \<open>\<open>serde_json::to_value\<close> of a provenance: the fields in key order.\<close>

definition provenance_fields :: "provenance \<Rightarrow> (string, json) btree_map" where
  "provenance_fields p = (case provenance_json p of JObject m \<Rightarrow> bt_of_list m | _ \<Rightarrow> [])"

definition canonical_json :: "serde \<Rightarrow> (string \<times> json) list \<Rightarrow> string" where
  "canonical_json sd flds = json_text sd (JObject (bt_of_list flds))"

definition read_provenance ::
  "serde \<Rightarrow> (json \<Rightarrow> string) \<Rightarrow> (string \<times> json) list option \<Rightarrow> string + provenance \<times> string" where
  "read_provenance sd derr meta =
     (case Option.bind meta (\<lambda>m. map_of m PROVENANCE_META_KEY) of
        None \<Rightarrow> Inr (Unsigned, [])
      | Some reported \<Rightarrow>
          (case reported of
             JObject flds \<Rightarrow>
               bind_r (map_err (\<lambda>e. ''`'' @ PROVENANCE_META_KEY @ ''`: '' @ e)
                         (provenance_from_object derr flds)) (\<lambda>p.
                 let typed = provenance_fields p;
                     unknown = filter (\<lambda>k. k \<notin> set (map fst typed)) (map fst flds)
                 in if unknown \<noteq> [] then
                      Inl (''`'' @ PROVENANCE_META_KEY @ ''`: `''
                           @ (case Option.bind (map_of typed ''type'') as_str of Some t \<Rightarrow> t | None \<Rightarrow> [])
                           @ ''` does not define field(s) ''
                           @ join_with '', '' (map (\<lambda>k. ''`'' @ k @ ''`'') (sort unknown)))
                    else (case List.find (\<lambda>(k, v). as_str v = Some []) typed of
                            Some (field, _) \<Rightarrow>
                              Inl (''`'' @ PROVENANCE_META_KEY @ ''`: field `'' @ field @ ''` is empty'')
                          | None \<Rightarrow>
                              Inr (p, if p = Unsigned then [] else canonical_json sd flds)))
           | _ \<Rightarrow> Inl (''`'' @ PROVENANCE_META_KEY @ ''` must be an object'')))"

section \<open>One call\<close>

type_synonym 'w caller =
  "'w \<Rightarrow> string \<Rightarrow> string \<Rightarrow> (string \<times> json) list option \<Rightarrow> 'w \<times> (string + call_tool_result)"

definition downstream_call ::
  "serde \<Rightarrow> (json \<Rightarrow> string) \<Rightarrow> 'w caller \<Rightarrow> downstreams \<Rightarrow> string \<Rightarrow> json \<Rightarrow> 'w
     \<Rightarrow> 'w \<times> (string + tool_response)" where
  "downstream_call sd derr call_tool ds qualified args w =
     (let unknown = (w, Inl (''unknown tool `'' @ qualified @ ''`''))
      in case split_once_char (CHR ''.'') qualified of
           None \<Rightarrow> unknown
         | Some (server, tool) \<Rightarrow>
             if map_of (ds_clients ds) server = None
                \<or> \<not> list_ex (\<lambda>t. ts_server t = server \<and> ts_name t = tool) (ds_tools ds)
             then unknown
             else
               (let send = (\<lambda>arguments.
                     case call_tool w server tool arguments of
                       (w', Inl e) \<Rightarrow> (w', Inl (qualified @ '': '' @ e))
                     | (w', Inr r) \<Rightarrow>
                         (w', bind_r (map_result sd r) (\<lambda>v.
                               bind_r (map_err (\<lambda>e. qualified @ '': malformed provenance from downstream `''
                                                    @ server @ ''`: '' @ e)
                                         (read_provenance sd derr (cr_meta r))) (\<lambda>(p, a).
                                 Inr \<lparr>tp_value = v, tp_provenance = p, tp_attestation = a\<rparr>))))
                in case args of
                     JObject m \<Rightarrow> send (Some m)
                   | JNull \<Rightarrow> send None
                   | _ \<Rightarrow> (w, Inl (qualified @ '': arguments must be a JSON object''))))"


section \<open>Facts: results and provenance\<close>

lemma map_result_object: "map_result sd r = Inr v \<Longrightarrow> is_object v"
  by (cases "result_value sd r"; simp add: map_result_def is_object_iff split: if_splits; metis)

lemma map_result_error: "is_ok (map_result sd r) \<longleftrightarrow> cr_is_error r \<noteq> Some True"
  by (simp add: map_result_def)

lemmas string_order_simps = bt_of_list_def less_char_def

lemma provenance_fields_simps:
  "provenance_fields Unsigned = [(''type'', JString ''unsigned'')]"
  "provenance_fields (Signed b s) =
     [(''by'', JString b), (''sig'', JString s), (''type'', JString ''signed'')]"
  "provenance_fields (Onchain c n r) =
     [(''block'', u64_json n), (''chain'', JString c), (''reference'', JString r),
      (''type'', JString ''onchain'')]"
  "provenance_fields (Notarized s r) =
     [(''reference'', JString r), (''scheme'', JString s), (''type'', JString ''notarized'')]"
  by (simp_all add: provenance_fields_def string_order_simps)

lemma bt_wf_provenance_fields [simp]: "bt_wf (provenance_fields p)"
  by (cases p) (simp_all add: provenance_fields_def)

lemma as_u64_Some: "as_u64 v = Some n \<longleftrightarrow> v = u64_json n"
proof (cases v)
  case (JNumber m)
  then show ?thesis by (cases m) (auto simp: u64_json_def)
qed (auto simp: u64_json_def)

lemma provenance_from_object_fields:
  assumes "provenance_from_object derr m = Inr p"
  shows "\<forall>(k, v) \<in> set (provenance_fields p). map_of m k = Some v"
  using assms unfolding provenance_from_object_def Let_def
  by (auto simp: provenance_fields_simps as_u64_Some bind_eq_Some_conv
      split: option.splits if_splits)

text \<open>What passes the check is exactly the JSON form of the tag: the same fields and nothing else.\<close>

lemma read_provenance_reported:
  assumes "read_provenance sd derr (Some meta) = Inr (p, a)"
    and "map_of meta PROVENANCE_META_KEY = Some v" and "wf_json v"
  shows "v = JObject (provenance_fields p)"
    and "a = (if p = Unsigned then [] else json_text sd (JObject (provenance_fields p)))"
    and "\<forall>(k, s) \<in> set (provenance_fields p). s \<noteq> JString []"
proof -
  from assms(1,2) obtain m where v: "v = JObject m"
    by (auto simp: read_provenance_def split: json.splits)
  with assms(1,2) have dec: "provenance_from_object derr m = Inr p"
    and known: "filter (\<lambda>k. k \<notin> set (map fst (provenance_fields p))) (map fst m) = []"
    and full: "List.find (\<lambda>(k, v). as_str v = Some []) (provenance_fields p) = None"
    and att: "a = (if p = Unsigned then [] else canonical_json sd m)"
    by (auto simp: read_provenance_def result_simps Let_def split: if_splits option.splits)
  have wfm: "bt_wf m" using assms(3) v by simp
  have sub: "map_of (provenance_fields p) k = Some x \<Longrightarrow> map_of m k = Some x" for k x
    using provenance_from_object_fields [OF dec] by (auto dest: map_of_SomeD)
  have keys: "map_of (provenance_fields p) k = None \<Longrightarrow> map_of m k = None" for k
    using known by (auto simp: filter_empty_conv map_of_eq_None_iff)
  have "map_of m = map_of (provenance_fields p)"
  proof
    fix k show "map_of m k = map_of (provenance_fields p) k"
      using sub [of k] keys [of k] by (cases "map_of (provenance_fields p) k") auto
  qed
  then have m: "m = provenance_fields p"
    by (rule btm.entries_canonical [OF wfm bt_wf_provenance_fields])
  then show "v = JObject (provenance_fields p)" by (simp add: v)
  have "bt_of_list m = m" by (rule bt_of_list_id [OF wfm])
  with att m show "a = (if p = Unsigned then [] else json_text sd (JObject (provenance_fields p)))"
    by (simp add: canonical_json_def)
  show "\<forall>(k, s) \<in> set (provenance_fields p). s \<noteq> JString []"
    using full by (auto simp: find_None_iff)
qed


text \<open>And every tag whose texts are not empty is accepted back when its JSON form is reported.\<close>

lemma provenance_from_fields: "provenance_from_object derr (provenance_fields p) = Inr p"
  by (cases p)
    (simp_all add: provenance_fields_simps provenance_from_object_def Let_def u64_json_def)

lemma read_provenance_accepts:
  assumes "map_of meta PROVENANCE_META_KEY = Some (JObject (provenance_fields p))"
    and "\<forall>(k, s) \<in> set (provenance_fields p). s \<noteq> JString []"
  shows "read_provenance sd derr (Some meta) =
     Inr (p, if p = Unsigned then [] else json_text sd (JObject (provenance_fields p)))"
proof -
  have "List.find (\<lambda>(k, v). as_str v = Some []) (provenance_fields p) = None"
    using assms(2) by (auto simp: find_None_iff)
  then show ?thesis
    by (simp add: read_provenance_def assms(1) provenance_from_fields Let_def canonical_json_def
        bt_of_list_id)
qed

lemma read_provenance_absent:
  "Option.bind meta (\<lambda>m. map_of m PROVENANCE_META_KEY) = None \<Longrightarrow>
     read_provenance sd derr meta = Inr (Unsigned, [])"
  by (simp add: read_provenance_def)

text \<open>An attestation is empty exactly for an unsigned response, since JSON text is never empty.\<close>

lemma read_provenance_unsigned:
  "read_provenance sd derr meta = Inr (Unsigned, a) \<Longrightarrow> a = []"
  by (auto simp: read_provenance_def result_simps Let_def
      split: option.splits json.splits if_splits)

section \<open>Facts: connecting and calling\<close>

text \<open>What connecting establishes: tools sorted by qualified name, each from a connected server whose
  name has no dot, with a name that has no dot either.\<close>

definition tool_wf :: "(string, downstream_config) btree_map \<Rightarrow> tool_schema \<Rightarrow> bool" where
  "tool_wf clients t \<longleftrightarrow>
     CHR ''.'' \<notin> set (ts_server t) \<and> CHR ''.'' \<notin> set (ts_name t) \<and>
     map_of clients (ts_server t) \<noteq> None"

definition downstreams_wf :: "downstreams \<Rightarrow> bool" where
  "downstreams_wf ds \<longleftrightarrow>
     sorted (map qualified_name (ds_tools ds)) \<and> (\<forall>t \<in> set (ds_tools ds). tool_wf (ds_clients ds) t)"

lemma tool_wf_insert: "tool_wf clients t \<Longrightarrow> tool_wf (bt_insert k c clients) t"
  by (simp add: tool_wf_def map_of_bt_insert)

lemma list_tools_Inr:
  "list_tools server ts acc = Inr tools \<Longrightarrow>
     \<exists>new. tools = acc @ new \<and> (\<forall>t \<in> set new. ts_server t = server \<and> CHR ''.'' \<notin> set (ts_name t))"
proof (induction ts arbitrary: acc)
  case Nil
  then show ?case by simp
next
  case (Cons t ts)
  then obtain s where s: "tool_schema_of server t = Inr s" and rest: "list_tools server ts (acc @ [s]) = Inr tools"
    by (auto split: sum.splits)
  from s have "ts_server s = server" "CHR ''.'' \<notin> set (ts_name s)"
    by (auto simp: tool_schema_of_def split: if_splits)
  with Cons.IH [OF rest] show ?case by auto
qed

lemma connect_loop_wf:
  assumes "connect_loop op cs clients tools = Inr (clients', tools')"
    and "\<forall>c \<in> set cs. CHR ''.'' \<notin> set (dc_name c)"
    and "\<forall>t \<in> set tools. tool_wf clients t"
  shows "\<forall>t \<in> set tools'. tool_wf clients' t"
  using assms
proof (induction cs arbitrary: clients tools)
  case Nil
  then show ?case by simp
next
  case (Cons c cs)
  let ?clients = "bt_insert (dc_name c) c clients"
  from Cons.prems(1) obtain listed tools1 where t1: "list_tools (dc_name c) listed tools = Inr tools1"
    and rest: "connect_loop op cs ?clients tools1 = Inr (clients', tools')"
    by (auto split: sum.splits)
  from list_tools_Inr [OF t1] obtain new where new: "tools1 = tools @ new"
    "\<forall>t \<in> set new. ts_server t = dc_name c \<and> CHR ''.'' \<notin> set (ts_name t)" by blast
  have "\<forall>t \<in> set new. tool_wf ?clients t"
    using new(2) Cons.prems(2) by (simp add: tool_wf_def map_of_bt_insert)
  moreover have "\<forall>t \<in> set tools. tool_wf ?clients t"
    using Cons.prems(3) by (simp add: tool_wf_insert)
  ultimately have "\<forall>t \<in> set tools1. tool_wf ?clients t"
    unfolding new(1) set_append by blast
  with Cons.IH [OF rest] Cons.prems(2) show ?case by simp
qed

lemma downstreams_connect_wf:
  assumes "downstreams_connect serve env osenv configs = Inr ds"
    and "\<forall>c \<in> set configs. CHR ''.'' \<notin> set (dc_name c)"
  shows "downstreams_wf ds"
proof -
  from assms(1) obtain clients tools
    where loop: "connect_loop (open_client serve env osenv) configs [] [] = Inr (clients, tools)"
      and ds: "ds = \<lparr>ds_clients = clients, ds_tools = sort_key qualified_name tools\<rparr>"
    by (auto simp: downstreams_connect_def result_simps)
  from connect_loop_wf [OF loop assms(2)] show ?thesis
    by (simp add: ds downstreams_wf_def)
qed

lemma qualified_name_split:
  "CHR ''.'' \<notin> set (ts_server t) \<Longrightarrow>
     split_once_char (CHR ''.'') (qualified_name t) = Some (ts_server t, ts_name t)"
  by (simp add: qualified_name_def split_once_char_Some)

lemma qualified_name_eqD:
  assumes "downstreams_wf ds" "t \<in> set (ds_tools ds)" "u \<in> set (ds_tools ds)"
    and "qualified_name t = qualified_name u"
  shows "ts_server t = ts_server u \<and> ts_name t = ts_name u"
proof -
  have "split_once_char (CHR ''.'') (qualified_name x) = Some (ts_server x, ts_name x)"
    if "x \<in> set (ds_tools ds)" for x
    using assms(1) that by (intro qualified_name_split) (simp add: downstreams_wf_def tool_wf_def)
  with assms(2-4) show ?thesis by (metis option.inject prod.inject)
qed

text \<open>The world after a call: unchanged, or one request to the server and tool the name splits into,
  both known.\<close>

lemma downstream_call_world:
  assumes "downstream_call sd derr call_tool ds q args w = (w', r)"
  shows "w' = w \<or> (\<exists>server tool arguments res.
           split_once_char (CHR ''.'') q = Some (server, tool) \<and>
           map_of (ds_clients ds) server \<noteq> None \<and>
           (\<exists>t \<in> set (ds_tools ds). ts_server t = server \<and> ts_name t = tool) \<and>
           args = (case arguments of Some m \<Rightarrow> JObject m | None \<Rightarrow> JNull) \<and>
           call_tool w server tool arguments = (w', res))"
  using assms unfolding downstream_call_def Let_def
  by (auto simp: list_ex_iff split: option.splits prod.splits if_splits json.splits sum.splits)

text \<open>A child process gets \<open>PATH\<close>, \<open>HOME\<close> and the one credential variable, and nothing else.\<close>

lemma child_env_lookup:
  "map_of (child_env osenv cred) var =
     (case cred of
        Some (cv, v) \<Rightarrow> if var = cv then Some v
          else if var = ''PATH'' \<or> var = ''HOME'' then osenv var else None
      | None \<Rightarrow> if var = ''PATH'' \<or> var = ''HOME'' then osenv var else None)"
  by (auto simp: child_env_def map_of_bt_of_list split: option.splits)

lemma launch_for_spawn:
  assumes "launch_for env osenv c = Inr (Spawn program args e)"
  shows "map_of e var =
     (if \<exists>s. dc_credential c = Some s \<and> var = env_name s then env var
      else if var = ''PATH'' \<or> var = ''HOME'' then osenv var else None)"
  using assms
  by (auto simp: launch_for_def resolve_credential_def secret_resolve_def result_simps child_env_lookup
      split: option.splits transport.splits list.splits)

section \<open>Properties\<close>

text \<open>A configuration with one server, and the tools that server lists.\<close>

definition sample_config :: gateway_config where
  "sample_config =
     \<lparr>gc_server = \<lparr>listen = ''127.0.0.1:8080'', signing_key = Secret ''env:SIGNING_KEY''\<rparr>,
      gc_vm = \<lparr>gas_limit = 1000, memory_limit_bytes = 4096, max_call_depth = 8, max_tool_calls = 4,
               max_tool_bytes_in = 64, max_tool_bytes_out = 64, max_output_bytes = 64\<rparr>,
      gc_downstream = [\<lparr>dc_name = ''w'', dc_transport = Http ''http://localhost'', dc_credential = None\<rparr>],
      gc_policy = \<lparr>policy_file = [''policy.toml'']\<rparr>,
      gc_store = \<lparr>store_dir = [''data'']\<rparr>,
      gc_principals = [(''alice'', \<lparr>pc_token = Secret ''env:ALICE''\<rparr>)]\<rparr>"

definition sample_listing :: "mcp_tool list" where
  "sample_listing =
     [\<lparr>mt_name = ''transfer'', mt_description = None, mt_input_schema = [], mt_output_schema = None\<rparr>,
      \<lparr>mt_name = ''balance'', mt_description = Some ''Balance.'', mt_input_schema = [], mt_output_schema = None\<rparr>]"

text \<open>C27: which metadata is accepted, and as what: without a report the provenance is \<open>Unsigned\<close> with no
  attestation; a report is accepted exactly when it is the JSON form of a provenance, field for field and
  with no empty text, and then that provenance is recorded, with the text of the report as its
  attestation (none for \<open>Unsigned\<close>). Everything else is an error.\<close>

theorem provenance_report_exact:
  assumes "\<forall>v. Option.bind meta (\<lambda>m. map_of m PROVENANCE_META_KEY) = Some v \<longrightarrow> wf_json v"
  shows "read_provenance sd derr meta = Inr (p, a) \<longleftrightarrow>
     (case Option.bind meta (\<lambda>m. map_of m PROVENANCE_META_KEY) of
        None \<Rightarrow> p = Unsigned \<and> a = []
      | Some v \<Rightarrow> v = JObject (provenance_fields p) \<and> (\<forall>(k, s) \<in> set (provenance_fields p). s \<noteq> JString []) \<and>
          a = (if p = Unsigned then [] else json_text sd v))"
proof (cases "Option.bind meta (\<lambda>m. map_of m PROVENANCE_META_KEY)")
  case None
  with read_provenance_absent [OF None, of sd derr] show ?thesis by auto
next
  case (Some v)
  then obtain m where meta: "meta = Some m" and v: "map_of m PROVENANCE_META_KEY = Some v" by (cases meta) auto
  from assms Some have wf: "wf_json v" by blast
  show ?thesis
  proof
    assume "read_provenance sd derr meta = Inr (p, a)"
    with read_provenance_reported [OF _ v wf] meta Some
    show "case Option.bind meta (\<lambda>m. map_of m PROVENANCE_META_KEY) of
        None \<Rightarrow> p = Unsigned \<and> a = []
      | Some v \<Rightarrow> v = JObject (provenance_fields p) \<and> (\<forall>(k, s) \<in> set (provenance_fields p). s \<noteq> JString []) \<and>
          a = (if p = Unsigned then [] else json_text sd v)" by auto
  next
    assume "case Option.bind meta (\<lambda>m. map_of m PROVENANCE_META_KEY) of
        None \<Rightarrow> p = Unsigned \<and> a = []
      | Some v \<Rightarrow> v = JObject (provenance_fields p) \<and> (\<forall>(k, s) \<in> set (provenance_fields p). s \<noteq> JString []) \<and>
          a = (if p = Unsigned then [] else json_text sd v)"
    with Some have r: "v = JObject (provenance_fields p)" "\<forall>(k, s) \<in> set (provenance_fields p). s \<noteq> JString []"
      "a = (if p = Unsigned then [] else json_text sd v)" by simp_all
    from read_provenance_accepts [OF v [unfolded r(1)] r(2), of sd derr] r show "read_provenance sd derr meta = Inr (p, a)"
      by (simp add: meta)
  qed
qed

theorem provenance_report_exact_witness:
  "let sd = \<lparr>json_text = (\<lambda>_. ''text''), json_parse = (\<lambda>s. Inl s)\<rparr>;
       report = (\<lambda>x. JObject [(''by'', JString x), (''sig'', JString ''ab''), (''type'', JString ''signed'')])
   in read_provenance sd (\<lambda>_. []) (Some [(PROVENANCE_META_KEY, report ''k1'')]) = Inr (Signed ''k1'' ''ab'', ''text'') \<and>
      (\<forall>p a. read_provenance sd (\<lambda>_. []) (Some [(PROVENANCE_META_KEY, report [])]) \<noteq> Inr (p, a))"
proof -
  let ?sd = "\<lparr>json_text = (\<lambda>_. ''text''), json_parse = (\<lambda>s. Inl s)\<rparr>"
  let ?report = "\<lambda>x. JObject [(''by'', JString x), (''sig'', JString ''ab''), (''type'', JString ''signed'')]"
  have wf: "wf_json (?report x)" for x by (simp add: bt_wf_def less_char_def)
  have exact: "read_provenance ?sd (\<lambda>_. []) (Some [(PROVENANCE_META_KEY, ?report x)]) = Inr (p, a) \<longleftrightarrow>
      ?report x = JObject (provenance_fields p) \<and> (\<forall>(k, s) \<in> set (provenance_fields p). s \<noteq> JString []) \<and>
      a = (if p = Unsigned then [] else ''text'')" for x p a
    using provenance_report_exact [of "Some [(PROVENANCE_META_KEY, ?report x)]" ?sd "\<lambda>_. []" p a] wf by simp
  have signed: "provenance_fields (Signed ''k1'' ''ab'') = [(''by'', JString ''k1''), (''sig'', JString ''ab''), (''type'', JString ''signed'')]"
    by code_simp
  have "read_provenance ?sd (\<lambda>_. []) (Some [(PROVENANCE_META_KEY, ?report ''k1'')]) = Inr (Signed ''k1'' ''ab'', ''text'')"
    unfolding exact signed by simp
  moreover have "read_provenance ?sd (\<lambda>_. []) (Some [(PROVENANCE_META_KEY, ?report [])]) \<noteq> Inr (p, a)" for p a
  proof
    assume "read_provenance ?sd (\<lambda>_. []) (Some [(PROVENANCE_META_KEY, ?report [])]) = Inr (p, a)"
    then have eq: "provenance_fields p = [(''by'', JString []), (''sig'', JString ''ab''), (''type'', JString ''signed'')]"
      and full: "\<forall>(k, s) \<in> set (provenance_fields p). s \<noteq> JString []"
      unfolding exact by simp_all
    from full show False unfolding eq by simp
  qed
  ultimately show ?thesis by (simp only: Let_def) blast
qed



text \<open>C29: after the configuration is accepted and its servers are connected, the tools are listed in
  the order of their qualified names, and the qualified name of each splits back into the server that
  offers it, which is connected, and the tool's own name.\<close>

theorem connected_tools_addressable:
  assumes "config_parse toml text base = Inr c"
    and "downstreams_connect serve env osenv (gc_downstream c) = Inr ds"
  shows "sorted (map qualified_name (ds_tools ds)) \<and>
     (\<forall>t \<in> set (ds_tools ds). map_of (ds_clients ds) (ts_server t) \<noteq> None \<and>
        split_once_char (CHR ''.'') (qualified_name t) = Some (ts_server t, ts_name t))"
proof -
  have "\<forall>d \<in> set (gc_downstream c). CHR ''.'' \<notin> set (dc_name d)"
    using assms(1) by (auto simp: config_parse_def result_simps check_downstream_names_ok)
  with assms(2) have "downstreams_wf ds" by (rule downstreams_connect_wf)
  then show ?thesis by (simp add: downstreams_wf_def tool_wf_def qualified_name_split)
qed

theorem connected_tools_addressable_witness:
  "\<exists>c ds. config_parse (\<lambda>_. Inr sample_config) [] [''etc''] = Inr c \<and>
      downstreams_connect (\<lambda>_. Inr sample_listing) (\<lambda>_. None) (\<lambda>_. None) (gc_downstream c) = Inr ds \<and>
      map qualified_name (ds_tools ds) = [''w.balance'', ''w.transfer''] \<and>
      sorted (map qualified_name (ds_tools ds))"
proof -
  obtain c where c: "config_parse (\<lambda>_. Inr sample_config) [] [''etc''] = Inr c"
    and down: "gc_downstream c = gc_downstream sample_config"
    by (simp add: config_parse_def sample_config_def)
  obtain ds where ds: "downstreams_connect (\<lambda>_. Inr sample_listing) (\<lambda>_. None) (\<lambda>_. None) (gc_downstream c) = Inr ds"
    and names: "map qualified_name (ds_tools ds) = [''w.balance'', ''w.transfer'']"
  proof
    show "downstreams_connect (\<lambda>_. Inr sample_listing) (\<lambda>_. None) (\<lambda>_. None) (gc_downstream c) =
        Inr (case downstreams_connect (\<lambda>_. Inr sample_listing) (\<lambda>_. None) (\<lambda>_. None) (gc_downstream sample_config)
               of Inr ds \<Rightarrow> ds)"
      unfolding down by code_simp
    show "map qualified_name (ds_tools (case downstreams_connect (\<lambda>_. Inr sample_listing) (\<lambda>_. None) (\<lambda>_. None)
        (gc_downstream sample_config) of Inr ds \<Rightarrow> ds)) = [''w.balance'', ''w.transfer'']"
      by code_simp
  qed
  have "sorted (map qualified_name (ds_tools ds))"
    using connected_tools_addressable [OF c ds] by (rule conjunct1)
  with c ds names show ?thesis by (intro exI [of _ c] exI [of _ ds] conjI)
qed

end
