(* ===== verification/Lua_Values.thy ===== *)
theory Lua_Values
  imports Json_Value
begin

text \<open>
  \<open>src/values.rs\<close>: the mapping between JSON and the values of the Lua virtual machine.

  The machine is the crate \<open>proveno\<close> (proveno-core), which is not part of the repository. What the
  gateway calls of its value layer is the record \<open>lua_core\<close>: tables are an arbitrary type \<open>'t\<close> with
  \<open>LuaTable::new\<close>, \<open>rawset\<close> and \<open>get\<close>, and the canonical serialisers. The variants of its value and
  error types are those the sources match on; an error of the serialisers is represented by what the
  gateway observes of it, its \<open>Debug\<close> text and the \<open>VmError\<close> it converts to.
\<close>

section \<open>The interface of the virtual machine's values\<close>

datatype lua_key = KInteger i64 | KString string

datatype 't lua_value =
    LNil
  | LBoolean bool
  | LInteger i64
  | LString string
  | LTable 't
  | LOther string

datatype 't vm_error =
    WithLine u32 "'t vm_error"
  | GasExhausted
  | MemoryExhausted
  | CallDepthExceeded
  | TypeError string
  | RuntimeError "'t lua_value"
  | ToolError string
  | OutputExceeded

datatype 't canon_error = CanonError (canon_debug: string) (canon_vm_error: "'t vm_error")

record 't lua_core =
  table_new :: "'t"
  table_rawset :: "'t \<Rightarrow> lua_key \<Rightarrow> 't lua_value \<Rightarrow> string + 't"
  table_get :: "'t \<Rightarrow> lua_key \<Rightarrow> 't lua_value option"
  canonical_serialize :: "'t lua_value \<Rightarrow> 't canon_error + string"
  canonical_serialize_table :: "'t \<Rightarrow> 't canon_error + string"
  lua_debug :: "'t lua_value \<Rightarrow> string"

section \<open>The mapping\<close>

definition table_to_json ::
  "('t, 'z) lua_core_scheme \<Rightarrow> serde \<Rightarrow> 't \<Rightarrow> string + json" where
  "table_to_json co sd t =
     bind_r (map_err (\<lambda>e. ''cannot serialize arguments: '' @ canon_debug e)
               (canonical_serialize_table co t))
       (\<lambda>bytes. map_err (\<lambda>e. ''canonical arguments are not JSON: '' @ e) (json_parse sd bytes))"

text \<open>\<open>to_lua\<close>, the loops of \<open>object_to_table\<close> and \<open>array_to_table\<close>, and \<open>set\<close>; the loops take the
  table built so far, and the array loop the index of the next element.\<close>

function (sequential) to_lua ::
    "('t, 'z) lua_core_scheme \<Rightarrow> json \<Rightarrow> string + 't lua_value"
  and object_loop ::
    "('t, 'z) lua_core_scheme \<Rightarrow> 't \<Rightarrow> (string \<times> json) list \<Rightarrow> string + 't"
  and array_loop ::
    "('t, 'z) lua_core_scheme \<Rightarrow> 't \<Rightarrow> i64 \<Rightarrow> json list \<Rightarrow> string + 't"
  and set_value ::
    "('t, 'z) lua_core_scheme \<Rightarrow> 't \<Rightarrow> lua_key \<Rightarrow> json \<Rightarrow> string + 't"
where
  "to_lua co JNull = Inr LNil"
| "to_lua co (JBool b) = Inr (LBoolean b)"
| "to_lua co (JNumber n) =
     (case number_as_i64 n of
        Some i \<Rightarrow> Inr (LInteger i)
      | None \<Rightarrow> Inr (LString (number_text n)))"
| "to_lua co (JString s) = Inr (LString s)"
| "to_lua co (JArray items) =
     (case array_loop co (table_new co) 1 items of
        Inl e \<Rightarrow> Inl e
      | Inr t \<Rightarrow> Inr (LTable t))"
| "to_lua co (JObject m) =
     (case object_loop co (table_new co) m of
        Inl e \<Rightarrow> Inl e
      | Inr t \<Rightarrow> Inr (LTable t))"
| "object_loop co t [] = Inr t"
| "object_loop co t ((key, v) # m) =
     (if is_null v then object_loop co t m
      else (case set_value co t (KString key) v of
              Inl e \<Rightarrow> Inl e
            | Inr t' \<Rightarrow> object_loop co t' m))"
| "array_loop co t i [] = Inr t"
| "array_loop co t i (v # items) =
     (if is_null v
      then Inl (''null at array index '' @ show_int (sint i)
                @ '' cannot be represented in a table'')
      else (case set_value co t (KInteger i) v of
              Inl e \<Rightarrow> Inl e
            | Inr t' \<Rightarrow> array_loop co t' (i + 1) items))"
| "set_value co t key v =
     (case to_lua co v of
        Inl e \<Rightarrow> Inl e
      | Inr lv \<Rightarrow> map_err (\<lambda>e. ''cannot build response table: '' @ e) (table_rawset co t key lv))"
  by pat_completeness auto
termination
  by (relation "measure (\<lambda>x. case x of
        Inl (Inl (co, v)) \<Rightarrow> 2 * size v
      | Inl (Inr (co, t, m)) \<Rightarrow> 2 * size_list (size_prod (\<lambda>_. 0) size) m + 1
      | Inr (Inl (co, t, i, xs)) \<Rightarrow> 2 * size_list size xs + 1
      | Inr (Inr (co, t, k, v)) \<Rightarrow> 2 * size v + 1)") auto

definition object_to_table ::
  "('t, 'z) lua_core_scheme \<Rightarrow> (string \<times> json) list \<Rightarrow> string + 't" where
  "object_to_table co m = object_loop co (table_new co) m"

definition array_to_table ::
  "('t, 'z) lua_core_scheme \<Rightarrow> json list \<Rightarrow> string + 't" where
  "array_to_table co items = array_loop co (table_new co) 1 items"

definition json_to_table ::
  "('t, 'z) lua_core_scheme \<Rightarrow> serde \<Rightarrow> json \<Rightarrow> string + 't" where
  "json_to_table co sd v =
     (case v of
        JObject m \<Rightarrow> object_to_table co m
      | other \<Rightarrow> Inl (''response must be a JSON object, got '' @ json_text sd other))"


section \<open>What a table must promise\<close>

text \<open>The laws of \<open>LuaTable\<close> the mapping relies on: a new table is empty, a non-nil value that was
  set is found again and nothing else moves; and, for the totality results, that setting a non-nil
  value under a string or integer key is accepted.\<close>

definition table_laws :: "('t, 'z) lua_core_scheme \<Rightarrow> bool" where
  "table_laws co \<longleftrightarrow>
     (\<forall>k. table_get co (table_new co) k = None) \<and>
     (\<forall>t k v t'. table_rawset co t k v = Inr t' \<longrightarrow> v \<noteq> LNil \<longrightarrow>
        table_get co t' = (table_get co t)(k \<mapsto> v))"

definition rawset_accepts :: "('t, 'z) lua_core_scheme \<Rightarrow> bool" where
  "rawset_accepts co \<longleftrightarrow> (\<forall>t k v. v \<noteq> LNil \<longrightarrow> is_ok (table_rawset co t k v))"

text \<open>The relation the mapping is meant to establish. A number that is not an \<open>i64\<close> is its decimal
  text; an array is a table with the keys 1 to its length and no other; an object is a table with
  its non-null members and no other.\<close>

inductive represents :: "('t, 'z) lua_core_scheme \<Rightarrow> json \<Rightarrow> 't lua_value \<Rightarrow> bool"
  for co :: "('t, 'z) lua_core_scheme"
where
  null: "represents co JNull LNil"
| bool: "represents co (JBool b) (LBoolean b)"
| integer: "number_as_i64 n = Some i \<Longrightarrow> represents co (JNumber n) (LInteger i)"
| decimal: "number_as_i64 n = None \<Longrightarrow> represents co (JNumber n) (LString (number_text n))"
| string: "represents co (JString s) (LString s)"
| array:
    "(\<forall>i < length xs. \<exists>x. table_get co t (KInteger (word_of_nat (Suc i))) = Some x
        \<and> represents co (xs ! i) x) \<Longrightarrow>
     (\<forall>k. (\<forall>i < length xs. k \<noteq> KInteger (word_of_nat (Suc i))) \<longrightarrow> table_get co t k = None) \<Longrightarrow>
     represents co (JArray xs) (LTable t)"
| object:
    "(\<forall>(k, v) \<in> set m. v \<noteq> JNull \<longrightarrow>
        (\<exists>x. table_get co t (KString k) = Some x \<and> represents co v x)) \<Longrightarrow>
     (\<forall>k. (\<forall>(k', v) \<in> set m. v \<noteq> JNull \<longrightarrow> k \<noteq> KString k') \<longrightarrow> table_get co t k = None) \<Longrightarrow>
     represents co (JObject m) (LTable t)"

inductive_cases represents_arrayE: "represents co (JArray xs) v"
inductive_cases represents_objectE: "represents co (JObject m) v"
inductive_simps represents_scalar_simps [simp]:
  "represents co JNull v"
  "represents co (JBool b) v"
  "represents co (JNumber n) v"
  "represents co (JString s) v"

text \<open>The values no table can hold: somewhere an array has a null element.\<close>

fun null_in_array :: "json \<Rightarrow> bool" where
  "null_in_array (JArray xs) = list_ex (\<lambda>v. is_null v \<or> null_in_array v) xs"
| "null_in_array (JObject m) = list_ex (\<lambda>p. null_in_array (snd p)) m"
| "null_in_array _ = False"


section \<open>The mapping is faithful\<close>

lemma table_laws_set:
  "table_laws co \<Longrightarrow> table_rawset co t k v = Inr t' \<Longrightarrow> v \<noteq> LNil \<Longrightarrow>
     table_get co t' = (table_get co t)(k \<mapsto> v)"
  by (simp add: table_laws_def)

lemma to_lua_nil: "to_lua co v = Inr LNil \<Longrightarrow> v = JNull"
  by (cases v) (auto split: option.splits sum.splits)

lemma index_inj:
  "a < 2 ^ 63 \<Longrightarrow> b < 2 ^ 63 \<Longrightarrow>
     (word_of_nat (Suc a) :: i64) = word_of_nat (Suc b) \<longleftrightarrow> a = b"
  by (simp add: word_of_nat_eq_iff take_bit_nat_eq_self del: of_nat_Suc)

text \<open>What each loop establishes: the entries it visits, and no change anywhere else.\<close>

definition object_post ::
  "('t, 'z) lua_core_scheme \<Rightarrow> 't \<Rightarrow> (string \<times> json) list \<Rightarrow> 't \<Rightarrow> bool" where
  "object_post co t m t' \<longleftrightarrow>
     (\<forall>(k, v) \<in> set m. v \<noteq> JNull \<longrightarrow> (\<exists>x. table_get co t' (KString k) = Some x \<and> represents co v x)) \<and>
     (\<forall>k. (\<forall>(k', v) \<in> set m. v \<noteq> JNull \<longrightarrow> k \<noteq> KString k') \<longrightarrow> table_get co t' k = table_get co t k)"

definition array_post ::
  "('t, 'z) lua_core_scheme \<Rightarrow> 't \<Rightarrow> nat \<Rightarrow> json list \<Rightarrow> 't \<Rightarrow> bool" where
  "array_post co t n xs t' \<longleftrightarrow>
     (\<forall>i < length xs. \<exists>x. table_get co t' (KInteger (word_of_nat (Suc (n + i)))) = Some x
        \<and> represents co (xs ! i) x) \<and>
     (\<forall>k. (\<forall>i < length xs. k \<noteq> KInteger (word_of_nat (Suc (n + i)))) \<longrightarrow>
        table_get co t' k = table_get co t k)"

lemma object_post_Cons:
  assumes "distinct (map fst ((k, v) # m))" "v \<noteq> JNull" "represents co v x"
    and "table_get co t1 = (table_get co t)(KString k \<mapsto> x)" "object_post co t1 m t'"
  shows "object_post co t ((k, v) # m) t'"
proof -
  have fresh: "\<forall>(k', v) \<in> set m. v \<noteq> JNull \<longrightarrow> KString k \<noteq> KString k'"
    using assms(1) by force
  then have "table_get co t' (KString k) = table_get co t1 (KString k)"
    using assms(5) unfolding object_post_def by blast
  then have here: "table_get co t' (KString k) = Some x" by (simp add: assms(4))
  have rest: "table_get co t' k1 = table_get co t k1"
    if "\<forall>(k', v) \<in> set ((k, v) # m). v \<noteq> JNull \<longrightarrow> k1 \<noteq> KString k'" for k1
  proof -
    from that assms(2) have "k1 \<noteq> KString k" by simp
    moreover from that have "table_get co t' k1 = table_get co t1 k1"
      using assms(5) unfolding object_post_def by simp
    ultimately show ?thesis by (simp add: assms(4))
  qed
  from here rest assms(3,5) show ?thesis
    unfolding object_post_def by simp
qed

lemma array_post_Cons:
  assumes "n + length (v # xs) < 2 ^ 63" "represents co v x"
    and "table_get co t1 = (table_get co t)(KInteger (word_of_nat (Suc n)) \<mapsto> x)"
    and "array_post co t1 (Suc n) xs t'"
  shows "array_post co t n (v # xs) t'"
proof -
  have other: "KInteger (word_of_nat (Suc n)) \<noteq> KInteger (word_of_nat (Suc (Suc n + i)))"
    if "i < length xs" for i
  proof -
    have "n < 2 ^ 63" "Suc n + i < 2 ^ 63" using assms(1) that by simp_all
    then show ?thesis using index_inj [of n "Suc n + i"] by (simp only: lua_key.inject)
  qed
  with assms(4) have "table_get co t' (KInteger (word_of_nat (Suc n))) = Some x"
    unfolding array_post_def by (metis assms(3) fun_upd_same)
  moreover have "\<exists>y. table_get co t' (KInteger (word_of_nat (Suc (n + Suc i)))) = Some y
      \<and> represents co (xs ! i) y" if "i < length xs" for i
    using assms(4) that unfolding array_post_def by (metis add_Suc_right add_Suc)
  moreover have "table_get co t' k = table_get co t k"
    if "\<forall>i < Suc (length xs). k \<noteq> KInteger (word_of_nat (Suc (n + i)))" for k
  proof -
    have "k \<noteq> KInteger (word_of_nat (Suc n))" using that by (metis add_0_right zero_less_Suc)
    moreover have "\<forall>i < length xs. k \<noteq> KInteger (word_of_nat (Suc (Suc n + i)))"
      using that by (metis Suc_less_eq add_Suc add_Suc_right)
    ultimately show ?thesis using assms(3,4) unfolding array_post_def by (metis fun_upd_other)
  qed
  ultimately show ?thesis
    unfolding array_post_def using assms(2) by (auto simp: less_Suc_eq_0_disj simp del: of_nat_Suc)
qed


lemma object_post_table: "table_laws co \<Longrightarrow> object_post co (table_new co) m t \<Longrightarrow> represents co (JObject m) (LTable t)"
  by (rule represents.object) (auto simp: object_post_def table_laws_def)

lemma array_post_table: "table_laws co \<Longrightarrow> array_post co (table_new co) 0 xs t \<Longrightarrow> represents co (JArray xs) (LTable t)"
  by (rule represents.array) (auto simp: array_post_def table_laws_def)

lemma set_value_Inr:
  "set_value co t k v = Inr t' \<longleftrightarrow> (\<exists>x. to_lua co v = Inr x \<and> table_rawset co t k x = Inr t')"
  by (auto simp: result_simps split: sum.splits)

lemma object_loop_post:
  assumes laws: "table_laws co"
    and IH: "\<And>w y. w \<in> snd ` set m \<Longrightarrow> to_lua co w = Inr y \<Longrightarrow> wf_json w \<Longrightarrow> represents co w y"
    and "bt_wf m" "list_all (\<lambda>p. wf_json (snd p)) m" "object_loop co t m = Inr t'"
  shows "object_post co t m t'"
  using assms(2-)
proof (induction m arbitrary: t)
  case Nil
  then show ?case by (simp add: object_post_def)
next
  case (Cons p m)
  obtain k w where p: "p = (k, w)" by fastforce
  from Cons.prems(2) have wf: "bt_wf m" and dist: "distinct (map fst (p # m))"
    by (auto simp: bt_wf_def strict_sorted_iff)
  show ?case
  proof (cases "w = JNull")
    case True
    with Cons p wf show ?thesis by (auto simp: object_post_def)
  next
    case False
    with Cons.prems(4) p obtain t1 where t1: "set_value co t (KString k) w = Inr t1"
      and rest: "object_loop co t1 m = Inr t'"
      by (auto simp: is_null_iff simp del: set_value.simps split: sum.splits)
    then obtain y where y: "to_lua co w = Inr y" "table_rawset co t (KString k) y = Inr t1"
      by (auto simp: set_value_Inr simp del: set_value.simps)
    have "represents co w y" using Cons.prems(1) [of w y] Cons.prems(3) y p by simp
    moreover have "table_get co t1 = (table_get co t)(KString k \<mapsto> y)"
      using table_laws_set [OF laws y(2)] to_lua_nil y(1) False by blast
    moreover have "object_post co t1 m t'"
      using Cons.IH [OF _ wf _ rest] Cons.prems by simp
    ultimately show ?thesis unfolding p using False dist p by (intro object_post_Cons) auto
  qed
qed

lemma array_loop_post:
  assumes laws: "table_laws co"
    and IH: "\<And>w y. w \<in> set xs \<Longrightarrow> to_lua co w = Inr y \<Longrightarrow> wf_json w \<Longrightarrow> represents co w y"
    and "list_all wf_json xs" "n + length xs < 2 ^ 63"
      "array_loop co t (word_of_nat (Suc n)) xs = Inr t'"
  shows "array_post co t n xs t'"
  using assms(2-)
proof (induction xs arbitrary: t n)
  case Nil
  then show ?case by (simp add: array_post_def)
next
  case (Cons w xs)
  let ?k = "KInteger (word_of_nat (Suc n))"
  from Cons.prems(4) have nn: "w \<noteq> JNull" by (auto simp: is_null_iff)
  with Cons.prems(4) obtain t1 where t1: "set_value co t ?k w = Inr t1"
    and rest: "array_loop co t1 (word_of_nat (Suc n) + 1) xs = Inr t'"
    by (auto simp: is_null_iff simp del: set_value.simps of_nat_Suc split: sum.splits)
  then obtain y where y: "to_lua co w = Inr y" "table_rawset co t ?k y = Inr t1"
    by (auto simp: set_value_Inr simp del: set_value.simps of_nat_Suc)
  have "represents co w y" using Cons.prems(1) [of w y] Cons.prems(2) y by simp
  moreover have "table_get co t1 = (table_get co t)(?k \<mapsto> y)"
    using table_laws_set [OF laws y(2)] to_lua_nil y(1) nn by blast
  moreover have "array_loop co t1 (word_of_nat (Suc (Suc n))) xs = Inr t'"
    using rest by (simp add: algebra_simps)
  then have "array_post co t1 (Suc n) xs t'"
    using Cons.IH [of "Suc n" t1] Cons.prems by simp
  ultimately show ?case using Cons.prems(3) by (intro array_post_Cons)
qed

lemma to_lua_represents:
  assumes laws: "table_laws co"
  shows "to_lua co v = Inr x \<Longrightarrow> wf_json v \<Longrightarrow> represents co v x"
proof (induction v arbitrary: x)
  case (JArray xs)
  then obtain t where t: "array_loop co (table_new co) (word_of_nat (Suc 0)) xs = Inr t" "x = LTable t"
    by (auto split: sum.splits)
  have "array_post co (table_new co) 0 xs t"
    by (rule array_loop_post [OF laws]) (use JArray t in auto)
  with t show ?case by (auto intro: array_post_table laws)
next
  case (JObject m)
  then obtain t where t: "object_loop co (table_new co) m = Inr t" "x = LTable t"
    by (auto split: sum.splits)
  have "object_post co (table_new co) m t"
    by (rule object_loop_post [OF laws]) (use JObject t in \<open>auto simp: snds.simps\<close>)
  with t show ?case by (auto intro: object_post_table laws)
qed (auto split: option.splits)

text \<open>For a whole response: the table a program sees represents the JSON object.\<close>

lemma json_to_table_represents:
  "table_laws co \<Longrightarrow> wf_json v \<Longrightarrow> json_to_table co sd v = Inr t \<Longrightarrow>
     is_object v \<and> represents co v (LTable t)"
  by (cases v)
    (auto simp: json_to_table_def object_to_table_def intro: to_lua_represents)

text \<open>The mapping fails exactly on a null array element, when tables accept what is set.\<close>

lemma is_ok_map_err [simp]: "is_ok (map_err g r) = is_ok r"
  by (cases r) auto

lemma is_ok_set_value:
  assumes "rawset_accepts co" "v \<noteq> JNull"
  shows "is_ok (set_value co t k v) \<longleftrightarrow> is_ok (to_lua co v)"
proof (cases "to_lua co v")
  case (Inr x)
  with assms have "x \<noteq> LNil" by (auto dest: to_lua_nil)
  with Inr assms(1) show ?thesis by (simp add: rawset_accepts_def)
qed simp

lemma is_ok_object_loop:
  assumes "rawset_accepts co"
    and "\<And>w. w \<in> snd ` set m \<Longrightarrow> is_ok (to_lua co w) \<longleftrightarrow> \<not> null_in_array w"
  shows "is_ok (object_loop co t m) \<longleftrightarrow> \<not> list_ex (\<lambda>p. null_in_array (snd p)) m"
  using assms(2)
proof (induction m arbitrary: t)
  case Nil
  then show ?case by simp
next
  case (Cons p m)
  obtain k w where p: "p = (k, w)" by fastforce
  show ?case
  proof (cases "w = JNull")
    case True
    with Cons p show ?thesis by simp
  next
    case False
    with Cons p is_ok_set_value [OF assms(1) False, of t "KString k"] show ?thesis
      by (cases "set_value co t (KString k) w") (auto simp: is_null_iff simp del: set_value.simps)
  qed
qed

lemma is_ok_array_loop:
  assumes "rawset_accepts co"
    and "\<And>w. w \<in> set xs \<Longrightarrow> is_ok (to_lua co w) \<longleftrightarrow> \<not> null_in_array w"
  shows "is_ok (array_loop co t i xs) \<longleftrightarrow> \<not> list_ex (\<lambda>v. is_null v \<or> null_in_array v) xs"
  using assms(2)
proof (induction xs arbitrary: t i)
  case Nil
  then show ?case by simp
next
  case (Cons w xs)
  show ?case
  proof (cases "w = JNull")
    case True
    then show ?thesis by simp
  next
    case False
    with Cons is_ok_set_value [OF assms(1) False, of t "KInteger i"] show ?thesis
      by (cases "set_value co t (KInteger i) w") (auto simp: is_null_iff simp del: set_value.simps)
  qed
qed

lemma is_ok_to_lua:
  assumes "rawset_accepts co"
  shows "is_ok (to_lua co v) \<longleftrightarrow> \<not> null_in_array v"
proof (induction v)
  case (JArray xs)
  then show ?case
    using is_ok_array_loop [OF assms, of xs "table_new co" 1] by (auto split: sum.splits)
next
  case (JObject m)
  have "is_ok (object_loop co (table_new co) m) \<longleftrightarrow> \<not> list_ex (\<lambda>p. null_in_array (snd p)) m"
    by (rule is_ok_object_loop [OF assms]) (use JObject in \<open>auto simp: snds.simps\<close>)
  then show ?case by (auto split: sum.splits)
qed (auto split: option.splits)

lemma json_to_table_total:
  "rawset_accepts co \<Longrightarrow> is_ok (json_to_table co sd v) \<longleftrightarrow> is_object v \<and> \<not> null_in_array v"
  using is_ok_to_lua [of co v]
  by (cases v) (auto simp: json_to_table_def object_to_table_def split: sum.splits)

end
