(* ===== verification/Vm_Interface.thy ===== *)
theory Vm_Interface
  imports Lua_Values Trace_Format
begin

text \<open>
  What the gateway uses of proveno-core beyond its values: the compiler's stages, a run of the virtual
  machine over a host, and the tape host of a replay. The crate is not part of the repository, so all
  of it is the record \<open>core\<close>, an argument of the definitions that use it.

  A run is the tree of its tool calls. The machine is deterministic and sees a host only through the
  results of the calls it makes, so a run either finishes, with its result and meters, or calls a tool
  and goes on with a run that depends on the result. Gas and \<open>max_tool_calls\<close> make every run finite,
  so the tree is an inductive datatype. At a call the node also says which record core appends to its
  transcript for a result and an attestation, if any.
\<close>

section \<open>Runs\<close>

datatype 't vm_run =
    Finish "'t vm_error + 't lua_value" u64 u64
  | CallTool string 't
      "string + 't \<Rightarrow> string option \<Rightarrow> tool_call_record option"
      "string + 't \<Rightarrow> 't vm_run"

text \<open>Running the tree over a host: \<open>HostInterface::call_tool\<close>, then, after a call that returned
  \<open>Ok\<close>, \<open>take_attestation\<close>. The transcript is accumulated in call order.\<close>

primrec run_vm ::
  "('h \<Rightarrow> string \<Rightarrow> 't \<Rightarrow> 'h \<times> (string + 't)) \<Rightarrow> ('h \<Rightarrow> 'h \<times> string option) \<Rightarrow> 't vm_run
     \<Rightarrow> 'h \<Rightarrow> tool_call_record list
     \<Rightarrow> 'h \<times> tool_call_record list \<times> ('t vm_error + 't lua_value) \<times> u64 \<times> u64" where
  "run_vm call tk (Finish r g m) = (\<lambda>h tr. (h, tr, r, g, m))"
| "run_vm call tk (CallTool name args recf k) = (\<lambda>h tr.
     let (h1, res) = call h name args;
         (h2, att) = (case res of Inl _ \<Rightarrow> (h1, None) | Inr _ \<Rightarrow> tk h1)
     in run_vm call tk (k res) h2 (tr @ (case recf res att of None \<Rightarrow> [] | Some r \<Rightarrow> [r])))"

section \<open>The compiler\<close>

text \<open>Errors as the gateway observes them: the variants it matches, the line and \<open>message()\<close>.\<close>

datatype parse_error =
    DisallowedIdent (pe_name: string) (pe_line: u32) (pe_message: string)
  | FloatLiteral (pe_line: u32) (pe_message: string)
  | OtherParseError (pe_line: u32) (pe_message: string)

datatype compile_error =
    UnknownGlobal (ce_name: string) (ce_line: u32) (ce_message: string)
  | ToolAsValue (ce_line: u32) (ce_message: string)
  | IndirectToolCall (ce_line: u32) (ce_message: string)
  | OtherCompileError (ce_line: u32) (ce_message: string)

section \<open>The tape\<close>

record tape_call_desc =
  tc_tool_name :: string
  tc_args_canonical :: string

record tape_divergence =
  td_seq :: u64
  td_expected :: "tape_call_desc option"
  td_actual :: tape_call_desc

record ('t, 'b, 'p, 'k) core = "'t lua_core" +
  core_parse :: "string \<Rightarrow> parse_error + 'b"
  core_compile :: "'b \<Rightarrow> compile_error + 'p"
  core_verify :: "'p \<Rightarrow> string + unit"
  core_program_hash :: "'p \<Rightarrow> digest"
  core_execute :: "vm_config \<Rightarrow> 'p \<Rightarrow> 't vm_run"
  tape_strict :: "tool_call_record list \<Rightarrow> 'k"
  tape_call :: "'k \<Rightarrow> string \<Rightarrow> 't \<Rightarrow> 'k \<times> (string + 't)"
  tape_take :: "'k \<Rightarrow> 'k \<times> string option"
  tape_diverged :: "'k \<Rightarrow> tape_divergence option"
  tape_remaining :: "'k \<Rightarrow> nat"

section \<open>Documented behaviour of a run\<close>

text \<open>Core records every call the host failed, and every call whose response it can canonicalise.\<close>

primrec records_calls :: "('t, 'z) lua_core_scheme \<Rightarrow> 't vm_run \<Rightarrow> bool" where
  "records_calls co (Finish r g m) = True"
| "records_calls co (CallTool name args recf k) =
     ((\<forall>res att. (case res of Inl _ \<Rightarrow> True | Inr t \<Rightarrow> is_ok (canonical_serialize_table co t)) \<longrightarrow>
         recf res att \<noteq> None) \<and>
      (\<forall>res. records_calls co (k res)))"

section \<open>The contract of a host\<close>

text \<open>What the engine relies on: a call appends exactly one entry to the host's log, a response is
  handed over only when it can be recorded, and taking the attestation leaves the log alone.\<close>

locale logging_host =
  fixes co :: "('t, 'z) lua_core_scheme"
    and call :: "'h \<Rightarrow> string \<Rightarrow> 't \<Rightarrow> 'h \<times> (string + 't)"
    and tk :: "'h \<Rightarrow> 'h \<times> string option"
    and log :: "'h \<Rightarrow> 'l list"
  assumes call_logs: "call h name args = (h', res) \<Longrightarrow> \<exists>x. log h' = log h @ [x]"
    and call_recordable: "call h name args = (h', Inr t) \<Longrightarrow> is_ok (canonical_serialize_table co t)"
    and take_log: "tk h = (h', att) \<Longrightarrow> log h' = log h"
begin

lemma step_log:
  assumes "call h name args = (h1, res)"
    and "(case res of Inl _ \<Rightarrow> (h1, None) | Inr _ \<Rightarrow> tk h1) = (h2, att)"
  shows "length (log h2) = Suc (length (log h))"
proof -
  from call_logs [OF assms(1)] have "length (log h1) = Suc (length (log h))" by auto
  moreover from assms(2) have "log h2 = log h1" by (auto dest: take_log split: sum.splits)
  ultimately show ?thesis by simp
qed

theorem transcript_matches_log:
  "records_calls co run \<Longrightarrow> run_vm call tk run h tr = (h', tr', out) \<Longrightarrow>
     length tr' - length tr = length (log h') - length (log h)
     \<and> length tr \<le> length tr' \<and> length (log h) \<le> length (log h')"
proof (induction run arbitrary: h tr)
  case (Finish r g m)
  then show ?case by simp
next
  case (CallTool name args recf k)
  obtain h1 res where c: "call h name args = (h1, res)" by fastforce
  obtain h2 att where t: "(case res of Inl _ \<Rightarrow> (h1, None) | Inr _ \<Rightarrow> tk h1) = (h2, att)" by fastforce
  have "case res of Inl _ \<Rightarrow> True | Inr t \<Rightarrow> is_ok (canonical_serialize_table co t)"
    using c by (auto dest: call_recordable split: sum.split)
  with CallTool.prems(1) obtain r where r: "recf res att = Some r" by fastforce
  with CallTool.prems(2) c t have rest: "run_vm call tk (k res) h2 (tr @ [r]) = (h', tr', out)"
    by (simp add: Let_def)
  have "records_calls co (k res)" using CallTool.prems(1) by simp
  from CallTool.IH [OF rangeI this rest] step_log [OF c t] show ?case by auto
qed

end

text \<open>A host that only moves by the steps of a relation: then a run, whatever the program, moves it by
  a sequence of them.\<close>

locale stepping_host =
  fixes call :: "'h \<Rightarrow> string \<Rightarrow> 't \<Rightarrow> 'h \<times> (string + 't)"
    and tk :: "'h \<Rightarrow> 'h \<times> string option"
    and step :: "'h \<Rightarrow> 'h \<Rightarrow> bool"
  assumes call_steps: "call h name args = (h', res) \<Longrightarrow> step h h'"
    and take_steps: "tk h = (h', att) \<Longrightarrow> step h h'"
begin

theorem run_steps: "run_vm call tk run h tr = (h', tr', out) \<Longrightarrow> step\<^sup>*\<^sup>* h h'"
proof (induction run arbitrary: h tr)
  case (Finish r g m)
  then show ?case by simp
next
  case (CallTool name args recf k)
  obtain h1 res where c: "call h name args = (h1, res)" by fastforce
  obtain h2 att where t: "(case res of Inl _ \<Rightarrow> (h1, None) | Inr _ \<Rightarrow> tk h1) = (h2, att)" by fastforce
  have "step h h1" by (rule call_steps [OF c])
  moreover have "h2 = h1 \<or> step h1 h2" using t take_steps by (auto split: sum.splits)
  moreover from CallTool.prems c t
  have "run_vm call tk (k res) h2 (tr @ (case recf res att of None \<Rightarrow> [] | Some r \<Rightarrow> [r])) = (h', tr', out)"
    by (simp add: Let_def)
  then have "step\<^sup>*\<^sup>* h2 h'" by (rule CallTool.IH [OF rangeI])
  ultimately show ?case by (auto intro: converse_rtranclp_into_rtranclp)
qed

end

end
