(* ===== verification/Tool_Host.thy ===== *)
theory Tool_Host
  imports Policy_Rules Downstream_Client Vm_Interface
begin

text \<open>
  \<open>src/schema.rs\<close> and \<open>src/host.rs\<close>: the pipeline every tool call of a program goes through. The
  arguments become JSON, the tool must be one the principal was offered, the arguments must fit its
  schema, the policy must allow them, and only then is the call dispatched; each call leaves one entry
  in the host's log, whatever happens to it.

  The JSON schema validator is the crate \<open>jsonschema\<close>: \<open>validate\<close> builds a validator, which returns
  the first error of an instance as its path and text.
\<close>

section \<open>Schema check\<close>

type_synonym validator = "json \<Rightarrow> string + (json \<Rightarrow> (string \<times> string) option)"

definition check_args :: "validator \<Rightarrow> tool_schema \<Rightarrow> json \<Rightarrow> string + unit" where
  "check_args validate tool args =
     (case validate (ts_input_schema tool) of
        Inl e \<Rightarrow> Inl (qualified_name tool @ '': invalid input schema: '' @ e)
      | Inr first_error \<Rightarrow>
          (case first_error args of
             None \<Rightarrow> Inr ()
           | Some (p, e) \<Rightarrow>
               Inl (qualified_name tool @ '': invalid arguments at ''
                    @ (if p = [] then ''/'' else p) @ '': '' @ e)))"

section \<open>The host\<close>

record gateway_host =
  gh_principal :: string
  gh_downstreams :: downstreams
  gh_allowed :: "tool_schema list"
  gh_policy :: policy
  gh_log :: "(call_decision \<times> provenance) list"
  gh_attestation :: "string option"

text \<open>The libraries and the network a host works with.\<close>

record 'w host_env =
  he_serde :: serde
  he_serde_error :: "json \<Rightarrow> string"
  he_validate :: validator
  he_call_tool :: "'w caller"

definition host_new :: "string \<Rightarrow> downstreams \<Rightarrow> tool_schema list \<Rightarrow> policy \<Rightarrow> gateway_host" where
  "host_new who ds allowed pol =
     \<lparr>gh_principal = who, gh_downstreams = ds, gh_allowed = allowed, gh_policy = pol,
      gh_log = [], gh_attestation = None\<rparr>"

definition host_refuse ::
  "gateway_host \<Rightarrow> call_decision \<Rightarrow> string \<Rightarrow> gateway_host \<times> (string + 't)" where
  "host_refuse h d message = (h\<lparr>gh_log := gh_log h @ [(d, Unsigned)]\<rparr>, Inl message)"

text \<open>\<open>accept\<close>: from a dispatched call to the table the program sees, and what only the trace sees.\<close>

definition accept ::
  "('t, 'z) lua_core_scheme \<Rightarrow> serde \<Rightarrow> string \<Rightarrow> string + tool_response
     \<Rightarrow> string + 't \<times> provenance \<times> string" where
  "accept co sd name response =
     bind_r (map_err (\<lambda>e. ''downstream: '' @ e) response) (\<lambda>r.
     bind_r (map_err (\<lambda>e. ''downstream: '' @ name @ '': '' @ e) (json_to_table co sd (tp_value r))) (\<lambda>t.
     bind_r (map_err (\<lambda>e. ''downstream: '' @ name @ '': response cannot be recorded: '' @ canon_debug e)
               (canonical_serialize_table co t)) (\<lambda>_.
       Inr (t, tp_provenance r, tp_attestation r))))"

definition host_dispatch ::
  "('t, 'z) lua_core_scheme \<Rightarrow> 'w host_env \<Rightarrow> string \<Rightarrow> json \<Rightarrow> gateway_host \<times> 'w
     \<Rightarrow> (gateway_host \<times> 'w) \<times> (string + 't)" where
  "host_dispatch co env name args hw =
     (case hw of (h, w) \<Rightarrow>
        (case downstream_call (he_serde env) (he_serde_error env) (he_call_tool env)
                (gh_downstreams h) name args w of
           (w', response) \<Rightarrow>
             (case accept co (he_serde env) name response of
                Inr (t, p, a) \<Rightarrow>
                  ((h\<lparr>gh_log := gh_log h @ [(Allowed, p)],
                      gh_attestation := (if a = [] then None else Some a)\<rparr>, w'), Inr t)
              | Inl e \<Rightarrow> ((h\<lparr>gh_log := gh_log h @ [(Allowed, Unsigned)]\<rparr>, w'), Inl e))))"

definition host_call_tool ::
  "('t, 'z) lua_core_scheme \<Rightarrow> 'w host_env \<Rightarrow> gateway_host \<times> 'w \<Rightarrow> string \<Rightarrow> 't
     \<Rightarrow> (gateway_host \<times> 'w) \<times> (string + 't)" where
  "host_call_tool co env hw name args =
     (case hw of (h0, w) \<Rightarrow>
       (let h = h0\<lparr>gh_attestation := None\<rparr>;
            refused = (\<lambda>d message. (case host_refuse h d message of (h', r) \<Rightarrow> ((h', w), r)))
        in case table_to_json co (he_serde env) args of
             Inl e \<Rightarrow>
               (let reason = name @ '': '' @ e
                in refused (RejectedBySchema reason) (''schema: '' @ reason))
           | Inr a \<Rightarrow>
               (case List.find (\<lambda>t. qualified_name t = name) (gh_allowed h) of
                  None \<Rightarrow>
                    (let reason = ''tool '' @ name @ '' is not allowed for '' @ gh_principal h
                     in refused (DeniedByPolicy reason) (''policy: '' @ reason))
                | Some tool \<Rightarrow>
                    (case check_args (he_validate env) tool a of
                       Inl reason \<Rightarrow> refused (RejectedBySchema reason) (''schema: '' @ reason)
                     | Inr _ \<Rightarrow>
                         (case policy_check (he_serde env) (gh_policy h) (gh_principal h) name a of
                            Deny reason \<Rightarrow> refused (DeniedByPolicy reason) (''policy: '' @ reason)
                          | Allow \<Rightarrow> host_dispatch co env name a (h, w))))))"

definition host_take_attestation :: "gateway_host \<times> 'w \<Rightarrow> (gateway_host \<times> 'w) \<times> string option" where
  "host_take_attestation hw =
     (case hw of (h, w) \<Rightarrow> ((h\<lparr>gh_attestation := None\<rparr>, w), gh_attestation h))"

section \<open>The stages as a specification\<close>

text \<open>Which stage decides a call, from the arguments as JSON: the abstract pipeline the host
  implements. \<open>Dispatched\<close> carries the JSON arguments sent on.\<close>

datatype stage =
    ArgsNotJson string
  | NotOffered
  | SchemaRejected string
  | PolicyDenied string
  | Dispatched json

definition host_stage ::
  "('t, 'z) lua_core_scheme \<Rightarrow> 'w host_env \<Rightarrow> gateway_host \<Rightarrow> string \<Rightarrow> 't \<Rightarrow> stage" where
  "host_stage co env h name args =
     (case table_to_json co (he_serde env) args of
        Inl e \<Rightarrow> ArgsNotJson e
      | Inr a \<Rightarrow>
          (case List.find (\<lambda>t. qualified_name t = name) (gh_allowed h) of
             None \<Rightarrow> NotOffered
           | Some tool \<Rightarrow>
               (case check_args (he_validate env) tool a of
                  Inl r \<Rightarrow> SchemaRejected r
                | Inr _ \<Rightarrow>
                    (case policy_check (he_serde env) (gh_policy h) (gh_principal h) name a of
                       Deny r \<Rightarrow> PolicyDenied r
                     | Allow \<Rightarrow> Dispatched a))))"

fun stage_refusal :: "string \<Rightarrow> string \<Rightarrow> stage \<Rightarrow> (call_decision \<times> string) option" where
  "stage_refusal name who (ArgsNotJson e) =
     Some (RejectedBySchema (name @ '': '' @ e), ''schema: '' @ name @ '': '' @ e)"
| "stage_refusal name who NotOffered =
     Some (DeniedByPolicy (''tool '' @ name @ '' is not allowed for '' @ who),
           ''policy: tool '' @ name @ '' is not allowed for '' @ who)"
| "stage_refusal name who (SchemaRejected r) = Some (RejectedBySchema r, ''schema: '' @ r)"
| "stage_refusal name who (PolicyDenied r) = Some (DeniedByPolicy r, ''policy: '' @ r)"
| "stage_refusal name who (Dispatched a) = None"

section \<open>Facts\<close>

lemma host_call_refused:
  assumes "stage_refusal name (gh_principal h) (host_stage co env h name args) = Some (d, message)"
  shows "host_call_tool co env (h, w) name args =
     ((h\<lparr>gh_attestation := None, gh_log := gh_log h @ [(d, Unsigned)]\<rparr>, w), Inl message)"
  using assms unfolding host_call_tool_def host_stage_def Let_def host_refuse_def
  by (auto split: sum.splits option.splits decision.splits)

lemma host_call_dispatched:
  assumes "host_stage co env h name args = Dispatched a"
  shows "host_call_tool co env (h, w) name args =
     host_dispatch co env name a (h\<lparr>gh_attestation := None\<rparr>, w)"
  using assms unfolding host_call_tool_def host_stage_def Let_def
  by (auto split: sum.splits option.splits decision.splits)

lemma host_stage_cases:
  obtains (refused) d message
      where "stage_refusal name (gh_principal h) (host_stage co env h name args) = Some (d, message)"
  | (dispatched) a where "host_stage co env h name args = Dispatched a"
  by (cases "host_stage co env h name args") auto

lemma host_stage_dispatched:
  "host_stage co env h name args = Dispatched a \<longleftrightarrow>
     table_to_json co (he_serde env) args = Inr a \<and>
     (\<exists>tool. List.find (\<lambda>t. qualified_name t = name) (gh_allowed h) = Some tool \<and>
        check_args (he_validate env) tool a = Inr ()) \<and>
     permits (gh_policy h) (gh_principal h) name a"
  unfolding policy_check_Allow [symmetric, of _ _ _ _ "he_serde env"]
  by (auto simp: host_stage_def split: sum.splits option.splits decision.splits)

lemma accept_Inr:
  "accept co sd name response = Inr (t, p, a) \<longleftrightarrow>
     (\<exists>r. response = Inr r \<and> json_to_table co sd (tp_value r) = Inr t \<and>
        is_ok (canonical_serialize_table co t) \<and> p = tp_provenance r \<and> a = tp_attestation r)"
  by (auto simp: accept_def result_simps is_ok_def split: sum.splits)

lemma host_dispatch_Inr:
  assumes "host_dispatch co env name a (h, w) = ((h', w'), Inr t)"
  shows "\<exists>r. downstream_call (he_serde env) (he_serde_error env) (he_call_tool env)
               (gh_downstreams h) name a w = (w', Inr r) \<and>
             json_to_table co (he_serde env) (tp_value r) = Inr t \<and>
             is_ok (canonical_serialize_table co t) \<and>
             h' = h\<lparr>gh_log := gh_log h @ [(Allowed, tp_provenance r)],
                    gh_attestation := (if tp_attestation r = [] then None else Some (tp_attestation r))\<rparr>"
  using assms by (auto simp: host_dispatch_def accept_Inr split: prod.splits sum.splits)

lemma host_dispatch_Inl:
  assumes "host_dispatch co env name a (h, w) = ((h', w'), Inl e)"
  shows "h' = h\<lparr>gh_log := gh_log h @ [(Allowed, Unsigned)]\<rparr>"
  using assms by (auto simp: host_dispatch_def split: prod.splits sum.splits)

text \<open>Every call logs once and changes nothing else the host decides with.\<close>

lemma host_call_log:
  assumes "host_call_tool co env (h, w) name args = ((h', w'), res)"
  shows "\<exists>x. gh_log h' = gh_log h @ [x]"
proof (rule host_stage_cases [of name h co env args])
  fix d message
  assume refused: "stage_refusal name (gh_principal h) (host_stage co env h name args) = Some (d, message)"
  then show ?thesis using assms by (auto simp: host_call_refused)
next
  fix a
  assume dispatched: "host_stage co env h name args = Dispatched a"
  then show ?thesis using assms
    by (cases res) (auto simp: host_call_dispatched dest: host_dispatch_Inl host_dispatch_Inr)
qed

lemma host_call_frame:
  assumes "host_call_tool co env (h, w) name args = ((h', w'), res)"
  shows "gh_principal h' = gh_principal h \<and> gh_downstreams h' = gh_downstreams h \<and>
         gh_allowed h' = gh_allowed h \<and> gh_policy h' = gh_policy h"
proof (rule host_stage_cases [of name h co env args])
  fix d message
  assume refused: "stage_refusal name (gh_principal h) (host_stage co env h name args) = Some (d, message)"
  then show ?thesis using assms by (auto simp: host_call_refused)
next
  fix a
  assume dispatched: "host_stage co env h name args = Dispatched a"
  then show ?thesis using assms
    by (cases res) (auto simp: host_call_dispatched dest!: host_dispatch_Inl host_dispatch_Inr)
qed

lemma host_call_Inr:
  assumes "host_call_tool co env (h, w) name args = ((h', w'), Inr t)"
  obtains a where "host_stage co env h name args = Dispatched a"
    and "host_dispatch co env name a (h\<lparr>gh_attestation := None\<rparr>, w) = ((h', w'), Inr t)"
proof (rule host_stage_cases [of name h co env args])
  fix d message
  assume refused: "stage_refusal name (gh_principal h) (host_stage co env h name args) = Some (d, message)"
  then show ?thesis using assms by (auto simp: host_call_refused)
next
  fix a
  assume dispatched: "host_stage co env h name args = Dispatched a"
  then show ?thesis using assms that by (auto simp: host_call_dispatched)
qed

lemma host_call_recordable:
  assumes "host_call_tool co env (h, w) name args = ((h', w'), Inr t)"
  shows "is_ok (canonical_serialize_table co t)"
  using assms by (elim host_call_Inr) (auto dest: host_dispatch_Inr)

text \<open>The host fulfils the contract the engine relies on.\<close>

interpretation gateway_host: logging_host co "host_call_tool co env" host_take_attestation "gh_log \<circ> fst"
  for co :: "('t, 'z) lua_core_scheme" and env :: "'w host_env"
proof unfold_locales
  show "\<exists>x. (gh_log \<circ> fst) h' = (gh_log \<circ> fst) h @ [x]"
    if "host_call_tool co env h name args = (h', res)"
    for h h' :: "gateway_host \<times> 'w" and name args and res :: "string + 't"
    using that by (cases h; cases h') (auto dest: host_call_log)
  show "is_ok (canonical_serialize_table co t)"
    if "host_call_tool co env h name args = (h', Inr t)"
    for h h' :: "gateway_host \<times> 'w" and name args t
    using that by (cases h; cases h') (auto intro: host_call_recordable)
  show "(gh_log \<circ> fst) h' = (gh_log \<circ> fst) h" if "host_take_attestation h = (h', att)"
    for h h' :: "gateway_host \<times> 'w" and att
    using that by (cases h) (auto simp: host_take_attestation_def)
qed

section \<open>What a run can do to the world\<close>

text \<open>One permitted request: an offered tool, arguments that fit its schema and the policy, sent to the
  server and tool the qualified name stands for.\<close>

definition permitted_request :: "'w host_env \<Rightarrow> gateway_host \<Rightarrow> 'w \<Rightarrow> 'w \<Rightarrow> bool" where
  "permitted_request env h w w' \<longleftrightarrow>
     (\<exists>tool args server name arguments res.
        tool \<in> set (gh_allowed h) \<and>
        check_args (he_validate env) tool args = Inr () \<and>
        permits (gh_policy h) (gh_principal h) (qualified_name tool) args \<and>
        split_once_char (CHR ''.'') (qualified_name tool) = Some (server, name) \<and>
        args = (case arguments of Some m \<Rightarrow> JObject m | None \<Rightarrow> JNull) \<and>
        he_call_tool env w server name arguments = (w', res))"

text \<open>What a host may do in one step: keep what it decides with, and the world or one permitted
  request.\<close>

definition same_rules :: "gateway_host \<Rightarrow> gateway_host \<Rightarrow> bool" where
  "same_rules h h' \<longleftrightarrow>
     gh_principal h' = gh_principal h \<and> gh_downstreams h' = gh_downstreams h \<and>
     gh_allowed h' = gh_allowed h \<and> gh_policy h' = gh_policy h"

definition host_step :: "'w host_env \<Rightarrow> gateway_host \<times> 'w \<Rightarrow> gateway_host \<times> 'w \<Rightarrow> bool" where
  "host_step env a b \<longleftrightarrow>
     same_rules (fst a) (fst b) \<and> (snd b = snd a \<or> permitted_request env (fst a) (snd a) (snd b))"

lemma host_dispatch_world:
  assumes "host_dispatch co env name a (h, w) = ((h', w'), res)"
  shows "\<exists>r. downstream_call (he_serde env) (he_serde_error env) (he_call_tool env)
               (gh_downstreams h) name a w = (w', r)"
  using assms by (auto simp: host_dispatch_def split: prod.splits sum.splits)

lemma host_call_world:
  assumes "host_call_tool co env (h, w) name args = ((h', w'), res)"
  shows "w' = w \<or> permitted_request env h w w'"
proof (rule host_stage_cases [of name h co env args])
  fix d message
  assume "stage_refusal name (gh_principal h) (host_stage co env h name args) = Some (d, message)"
  then show ?thesis using assms by (auto simp: host_call_refused)
next
  fix a
  assume stage: "host_stage co env h name args = Dispatched a"
  then obtain tool where tool: "List.find (\<lambda>t. qualified_name t = name) (gh_allowed h) = Some tool"
      "check_args (he_validate env) tool a = Inr ()" and perm: "permits (gh_policy h) (gh_principal h) name a"
    by (auto simp: host_stage_dispatched)
  have name: "tool \<in> set (gh_allowed h)" "qualified_name tool = name"
    using tool(1) by (auto simp: find_Some_iff)
  obtain r where "downstream_call (he_serde env) (he_serde_error env) (he_call_tool env)
      (gh_downstreams h) name a w = (w', r)"
    using assms stage by (auto simp: host_call_dispatched dest!: host_dispatch_world)
  from downstream_call_world [OF this] show ?thesis
  proof
    assume "\<exists>server tn arguments res. split_once_char (CHR ''.'') name = Some (server, tn) \<and>
        map_of (ds_clients (gh_downstreams h)) server \<noteq> None \<and>
        (\<exists>t \<in> set (ds_tools (gh_downstreams h)). ts_server t = server \<and> ts_name t = tn) \<and>
        a = (case arguments of Some m \<Rightarrow> JObject m | None \<Rightarrow> JNull) \<and>
        he_call_tool env w server tn arguments = (w', res)"
    then show ?thesis using name tool(2) perm unfolding permitted_request_def by metis
  qed simp
qed

lemma same_rules_call:
  "host_call_tool co env (h, w) name args = ((h', w'), res) \<Longrightarrow> same_rules h h'"
  unfolding same_rules_def by (rule host_call_frame)

interpretation confined_host: stepping_host "host_call_tool co env" host_take_attestation "host_step env"
  for co :: "('t, 'z) lua_core_scheme" and env :: "'w host_env"
proof unfold_locales
  show "host_step env h h'" if "host_call_tool co env h name args = (h', res)"
    for h h' :: "gateway_host \<times> 'w" and name args and res :: "string + 't"
    using that by (cases h; cases h') (auto simp: host_step_def dest: same_rules_call host_call_world)
  show "host_step env h h'" if "host_take_attestation h = (h', att)"
    for h h' :: "gateway_host \<times> 'w" and att
    using that by (cases h) (auto simp: host_step_def same_rules_def host_take_attestation_def)
qed

lemma permitted_request_cong:
  "same_rules h h' \<Longrightarrow> permitted_request env h' = permitted_request env h"
  by (simp add: same_rules_def permitted_request_def fun_eq_iff)

lemma host_steps_world:
  assumes "(host_step env)\<^sup>*\<^sup>* (h, w) (h', w')"
  shows "same_rules h h' \<and> (permitted_request env h)\<^sup>*\<^sup>* w w'"
  using assms
proof (induction "(h', w')" arbitrary: h' w')
  case base
  then show ?case by (simp add: same_rules_def)
next
  case (step b)
  obtain h1 w1 where b: "b = (h1, w1)" by fastforce
  from step.hyps(3) [OF b] have IH: "same_rules h h1" "(permitted_request env h)\<^sup>*\<^sup>* w w1" by auto
  from step.hyps(2) b have last: "same_rules h1 h'" "w' = w1 \<or> permitted_request env h1 w1 w'"
    by (auto simp: host_step_def)
  have "same_rules h h'" using IH(1) last(1) by (simp add: same_rules_def)
  moreover have "(permitted_request env h)\<^sup>*\<^sup>* w w'"
    using IH(2) last(2) unfolding permitted_request_cong [OF IH(1)]
    by (auto intro: rtranclp.rtrancl_into_rtrancl)
  ultimately show ?case ..
qed

end
