(* ===== verification/Sample_Instances.thy ===== *)
theory Sample_Instances
  imports Tool_Host
begin

text \<open>
  Concrete stand-ins for the libraries the sources call, one for each parameter of the model, with
  proofs that they meet the documented behaviour the theorems assume: a prefix-free text of JSON, the
  hex codec, a signature scheme and association-list tables. They are not the libraries; they show
  that the hypotheses of the development can hold together and give its examples something to run on.
\<close>

section \<open>A text of JSON that determines the value\<close>

definition enc_str :: "string \<Rightarrow> string" where
  "enc_str s = concat (map (\<lambda>c. [CHR ''1'', c]) s) @ ''0''"

fun enc_number :: "json_number \<Rightarrow> string" where
  "enc_number (PosInt n) = ''p'' @ enc_str (show_nat (unat n))"
| "enc_number (NegInt i) = ''m'' @ enc_str (show_int (sint i))"
| "enc_number (Float t) = ''d'' @ enc_str t"

fun enc_json :: "json \<Rightarrow> string" where
  "enc_json JNull = ''n''"
| "enc_json (JBool b) = (if b then ''t'' else ''f'')"
| "enc_json (JNumber n) = ''#'' @ enc_number n"
| "enc_json (JString s) = ''s'' @ enc_str s"
| "enc_json (JArray xs) = ''a'' @ concat (map (\<lambda>x. ''1'' @ enc_json x) xs) @ ''0''"
| "enc_json (JObject m) = ''o'' @ concat (map (\<lambda>p. ''1'' @ enc_str (fst p) @ enc_json (snd p)) m) @ ''0''"

lemma list_prefix:
  assumes "\<And>v u x y. v \<in> set xs \<Longrightarrow> e v @ x = e u @ y \<Longrightarrow> v = u \<and> x = y"
    and "concat (map (\<lambda>v. CHR ''1'' # e v) xs) @ CHR ''0'' # x = concat (map (\<lambda>v. CHR ''1'' # e v) ys) @ CHR ''0'' # y"
  shows "xs = ys \<and> x = y"
  using assms
proof (induction xs arbitrary: ys)
  case Nil
  then show ?case by (cases ys) auto
next
  case (Cons v xs)
  let ?enc = "\<lambda>xs. concat (map (\<lambda>v. CHR ''1'' # e v) xs)"
  from Cons.prems(2) obtain u us where ys: "ys = u # us" by (cases ys) auto
  with Cons.prems(2) have "e v @ (?enc xs @ CHR ''0'' # x) = e u @ (?enc us @ CHR ''0'' # y)" by simp
  with Cons.prems(1) have "v = u" and rest: "?enc xs @ CHR ''0'' # x = ?enc us @ CHR ''0'' # y"
    by (metis list.set_intros(1))+
  moreover have "xs = us \<and> x = y"
    by (rule Cons.IH [OF _ rest]) (rule Cons.prems(1), simp)
  ultimately show ?case by (simp add: ys)
qed

lemma enc_str_prefix: "enc_str s @ x = enc_str t @ y \<Longrightarrow> s = t \<and> x = y"
  by (rule list_prefix [of s "\<lambda>c. [c]"]) (simp_all add: enc_str_def)

lemma sint_inj: "sint (a :: i64) = sint b \<Longrightarrow> a = b"
  by (metis scast_id of_int_sint)

lemma enc_number_prefix: "enc_number m @ x = enc_number n @ y \<Longrightarrow> m = n \<and> x = y"
  by (cases m; cases n)
    (auto dest!: enc_str_prefix simp: show_nat_inj show_int_inj unsigned_word_eqI intro: sint_inj)

lemma enc_json_prefix: "enc_json a @ x = enc_json b @ y \<Longrightarrow> a = b \<and> x = y"
proof (induction a arbitrary: b x y)
  case JNull
  then show ?case by (cases b) (auto split: if_splits)
next
  case (JBool c)
  then show ?case by (cases b) (auto split: if_splits)
next
  case (JNumber n)
  then show ?case by (cases b) (auto split: if_splits dest: enc_number_prefix)
next
  case (JString s)
  then show ?case by (cases b) (auto split: if_splits dest: enc_str_prefix)
next
  case (JArray xs)
  from JArray.prems obtain ys where b: "b = JArray ys" by (cases b) (auto split: if_splits)
  with JArray.prems have "concat (map (\<lambda>v. CHR ''1'' # enc_json v) xs) @ CHR ''0'' # x
      = concat (map (\<lambda>v. CHR ''1'' # enc_json v) ys) @ CHR ''0'' # y" by simp
  from list_prefix [OF JArray.IH this] b show ?case by blast
next
  case (JObject m)
  let ?e = "\<lambda>p. enc_str (fst p) @ enc_json (snd p)"
  from JObject.prems obtain m' where b: "b = JObject m'" by (cases b) (auto split: if_splits)
  have "v = u \<and> x = y" if "v \<in> set m" "?e v @ x = ?e u @ y" for v u x y
  proof -
    from that(2) have "fst v = fst u" "enc_json (snd v) @ x = enc_json (snd u) @ y"
      by (auto dest: enc_str_prefix)
    with JObject.IH [of v "snd v" x "snd u" y] that(1) show ?thesis
      by (simp add: snds.simps prod_eq_iff)
  qed
  note step = this
  from JObject.prems b have "concat (map (\<lambda>v. CHR ''1'' # ?e v) m) @ CHR ''0'' # x
      = concat (map (\<lambda>v. CHR ''1'' # ?e v) m') @ CHR ''0'' # y" by simp
  from list_prefix [OF step this] b show ?case by blast
qed

lemma inj_enc_json: "inj enc_json"
  using enc_json_prefix [of _ "[]" _ "[]"] by (auto simp: inj_def)

lemma text_faithful_enc: "text_faithful enc_json"
  unfolding text_faithful_def using inj_enc_json by (rule inj_on_subset) simp

section \<open>The hex codec\<close>

definition hex_digit :: "nat \<Rightarrow> char" where
  "hex_digit n = char_of (if n < 10 then 48 + n else 87 + n :: nat)"

definition hex_value :: "char \<Rightarrow> nat option" where
  "hex_value c = (if is_lower_hex c
     then Some (if is_ascii_digit c then of_char c - 48 else of_char c - 87) else None)"

definition hex_enc :: "u8 list \<Rightarrow> string" where
  "hex_enc bs = concat (map (\<lambda>b. [hex_digit (unat b div 16), hex_digit (unat b mod 16)]) bs)"

fun hex_dec :: "string \<Rightarrow> u8 list option" where
  "hex_dec [] = Some []"
| "hex_dec [c] = None"
| "hex_dec (c # d # s) =
     (case (hex_value c, hex_value d, hex_dec s) of
        (Some h, Some l, Some bs) \<Rightarrow> Some (word_of_nat (16 * h + l) # bs)
      | _ \<Rightarrow> None)"

definition hex_dec_slice :: "nat \<Rightarrow> string \<Rightarrow> u8 list option" where
  "hex_dec_slice n s =
     (case hex_dec s of Some bs \<Rightarrow> if length bs = n then Some bs else None | None \<Rightarrow> None)"

lemma hex_digit_lower: "n < 16 \<Longrightarrow> is_lower_hex (hex_digit n)"
  by (simp add: is_lower_hex_def is_ascii_digit_def hex_digit_def less_eq_char_def of_char_of)

lemma hex_value_digit: "n < 16 \<Longrightarrow> hex_value (hex_digit n) = Some n"
  using hex_digit_lower [of n]
  by (simp add: hex_value_def is_ascii_digit_def hex_digit_def less_eq_char_def of_char_of)

lemma hex_nibbles: "unat (b :: u8) div 16 < 16" "unat b mod 16 < 16"
proof -
  have "unat b < 256" using unsigned_less [of b, where 'a = nat] by simp
  then show "unat b div 16 < 16" "unat b mod 16 < 16" by simp_all
qed

lemma hex_dec_enc: "hex_dec (hex_enc bs) = Some bs"
  by (induction bs) (simp_all add: hex_enc_def hex_value_digit hex_nibbles)

lemma hex_enc_text: "length (hex_enc bs) = 2 * length bs \<and> list_all is_lower_hex (hex_enc bs)"
  by (induction bs) (simp_all add: hex_enc_def hex_digit_lower hex_nibbles)

section \<open>A signature scheme\<close>

definition pad_to :: "nat \<Rightarrow> u8 list \<Rightarrow> u8 list" where
  "pad_to n bs = take n (bs @ replicate n 0)"

definition sample_sign :: "u8 list \<Rightarrow> digest \<Rightarrow> u8 list" where
  "sample_sign k m = pad_to 64 (pad_to 32 k @ m)"

definition sample_crypto :: crypto where
  "sample_crypto =
     \<lparr>sha256 = (\<lambda>s. pad_to 32 (map (\<lambda>c. word_of_nat (of_char c)) s)),
      ed_sign = sample_sign,
      ed_verifying_key = (\<lambda>k. k),
      ed_verify_strict = (\<lambda>k m sig. sig = sample_sign k m),
      hex_encode = hex_enc,
      hex_decode_to_slice = hex_dec_slice\<rparr>"

lemma length_pad_to [simp]: "length (pad_to n bs) = n"
  by (simp add: pad_to_def)

lemma crypto_laws_sample: "crypto_laws sample_crypto"
  by (auto simp: crypto_laws_def sample_crypto_def sample_sign_def hex_dec_slice_def hex_dec_enc
      hex_enc_text split: option.splits if_splits)

section \<open>A trace writer\<close>

definition sample_record_json :: "tool_call_record \<Rightarrow> json" where
  "sample_record_json r =
     JArray [u64_json (seq r), JString (tool_name r), JString (args_canonical r), u64_json (args_bytes r),
             JString (response_hash r), u64_json (response_bytes r), JString (response_canonical r),
             JString (error_message r), JString (rec_attestation r), u64_json (gas_charged r),
             JBool (rec_status r = CallOk)]"

definition sample_writer :: trace_writer where
  "sample_writer = \<lparr>tw_record_json = sample_record_json, tw_text = enc_json\<rparr>"

lemma call_status_eq: "(a = CallOk) = (b = CallOk) \<longleftrightarrow> a = b"
  by (cases a; cases b) simp_all

lemma sample_record_json_inj: "inj sample_record_json"
  by (rule injI, rule tool_call_record.equality)
    (simp_all add: sample_record_json_def call_status_eq)

lemma writer_faithful_sample: "writer_faithful sample_writer"
  by (simp add: writer_faithful_def sample_writer_def sample_record_json_inj text_faithful_enc)
    (simp add: sample_record_json_def)

section \<open>Tables\<close>

datatype sample_table = STable (table_entries: "(lua_key \<times> sample_table lua_value) list")

fun scalar_text :: "sample_table lua_value \<Rightarrow> string" where
  "scalar_text LNil = ''nil''"
| "scalar_text (LBoolean b) = (if b then ''true'' else ''false'')"
| "scalar_text (LInteger i) = show_int (sint i)"
| "scalar_text (LString s) = s"
| "scalar_text (LTable t) = ''table''"
| "scalar_text (LOther s) = s"

definition sample_core :: "sample_table lua_core" where
  "sample_core =
     \<lparr>table_new = STable [],
      table_rawset = (\<lambda>t k v. Inr (STable ((k, v) # table_entries t))),
      table_get = (\<lambda>t k. map_of (table_entries t) k),
      canonical_serialize = (\<lambda>v. Inr (scalar_text v)),
      canonical_serialize_table = (\<lambda>t. Inr (concat (map (scalar_text \<circ> snd) (table_entries t)))),
      lua_debug = scalar_text\<rparr>"

lemma table_laws_sample: "table_laws sample_core"
  by (auto simp: table_laws_def sample_core_def)

lemma rawset_accepts_sample: "rawset_accepts sample_core"
  by (simp add: rawset_accepts_def sample_core_def)

definition sample_serde :: serde where
  "sample_serde = \<lparr>json_text = enc_json, json_parse = (\<lambda>s. Inr (JObject [(''amount'', JNumber (PosInt 7))]))\<rparr>"

definition sample_response :: json where
  "sample_response =
     JObject [(''balance'', JNumber (PosInt 7)), (''big'', JNumber (PosInt 18446744073709551615)),
              (''history'', JArray [JString ''a'', JBool False]), (''note'', JNull)]"

section \<open>A trace\<close>

definition sample_settings :: vm_settings where
  "sample_settings =
     \<lparr>gas_limit = 1000, memory_limit_bytes = 4096, max_call_depth = 8, max_tool_calls = 4,
      max_tool_bytes_in = 64, max_tool_bytes_out = 64, max_output_bytes = 64\<rparr>"

definition sample_trace :: trace where
  "sample_trace =
     \<lparr>tr_header = \<lparr>trace_id = ''0a-1'', th_session = None, th_principal = ''alice'',
        program_hash = ''00'', gateway_policy_hash = ''01'', description_hash = ''02'',
        vm_version = ''v'', th_vm_config = sample_settings, th_request = Some ''pay''\<rparr>,
      tr_entries = [],
      tr_footer = \<lparr>tf_output = None, tf_status = RunOk, tf_gas_used = 3, tf_memory_used = 5,
        tf_signature = []\<rparr>\<rparr>"

section \<open>A host\<close>

text \<open>One server \<open>w\<close> with one tool that answers every request; the world counts the requests.\<close>

definition sample_tool :: tool_schema where
  "sample_tool = \<lparr>ts_server = ''w'', ts_name = ''transfer'', ts_description = [],
     ts_input_schema = JObject [], ts_output_schema = None\<rparr>"

definition sample_downstreams :: downstreams where
  "sample_downstreams =
     \<lparr>ds_clients = [(''w'', \<lparr>dc_name = ''w'', dc_transport = Http ''u'', dc_credential = None\<rparr>)],
      ds_tools = [sample_tool]\<rparr>"

definition sample_env :: "nat host_env" where
  "sample_env =
     \<lparr>he_serde = sample_serde, he_serde_error = (\<lambda>_. ''error''), he_validate = (\<lambda>_. Inr (\<lambda>_. None)),
      he_call_tool = (\<lambda>w server tool args.
        (Suc w, Inr \<lparr>cr_content = [TextBlock ''paid''], cr_is_error = None, cr_structured = None, cr_meta = None\<rparr>))\<rparr>"

definition sample_host :: gateway_host where
  "sample_host = host_new ''alice'' sample_downstreams [sample_tool] sample_policy"

definition sample_record :: "string + sample_table \<Rightarrow> string option \<Rightarrow> tool_call_record option" where
  "sample_record res att =
     Some \<lparr>seq = 0, tool_name = ''w.transfer'', args_canonical = [], args_bytes = 0, response_hash = [],
           response_bytes = 0, response_canonical = [], error_message = (case res of Inl e \<Rightarrow> e | Inr _ \<Rightarrow> []),
           rec_attestation = (case att of Some a \<Rightarrow> a | None \<Rightarrow> []), gas_charged = 0,
           rec_status = (if is_ok res then CallOk else CallError)\<rparr>"

text \<open>A run of two calls, the first permitted and the second to a tool that is not offered.\<close>

definition sample_run :: "sample_table vm_run" where
  "sample_run =
     CallTool ''w.transfer'' (STable []) sample_record (\<lambda>_.
       CallTool ''w.drain'' (STable []) sample_record (\<lambda>_. Finish (Inr LNil) 3 5))"

lemma records_calls_sample: "records_calls sample_core sample_run"
  by (simp add: sample_run_def sample_record_def)

end
