(* ===== verification/Lua_Dialect.thy ===== *)
theory Lua_Dialect
  imports Vm_Interface
begin

text \<open>
  \<open>src/dialect.rs\<close>: the text of the dialect rules, and compiling a program behind its prelude with
  errors reported at the program's own lines. Parser, compiler and bytecode verifier are proveno-core's,
  the fields \<open>core_parse\<close>, \<open>core_compile\<close> and \<open>core_verify\<close> of the record \<open>core\<close>. Line numbers are
  \<open>u32\<close>.

  The panic of the sources (an error inside the generated prelude) is the second alternative of
  \<open>lint_failure\<close>.
\<close>

section \<open>The rules\<close>

definition DIALECT_VERSION :: string where
  "DIALECT_VERSION = ''5''"

definition DIALECT_LINES :: "string list" where
  \<open>DIALECT_LINES =
     [''# Lua dialect (version 5)'',
      [],
      ''Programs are a restricted, deterministic Lua. The rules below are enforced'',
      ''before the program runs; a violation is returned as a line-numbered error.'',
      [],
      ''- Not available (rejected at parse time): debug, io, os, package, require,'',
      ''  load, dofile, loadfile, loadstring, collectgarbage, setmetatable,'',
      ''  getmetatable, rawget, rawset, setfenv, getfenv, coroutine.'',
      ''- Integers only. There are no floats and no float literals. Use `//` for'',
      ''  division; `/` is not supported.'',
      ''- Non-integer numbers returned by tools arrive as decimal strings, such as'',
      ''  "2500.75". `decimal.parse(text, scale)` turns one into an integer counting'',
      ''  units of 10^-scale: `decimal.parse("2500.75", 2)` is 250075. Compare and add'',
      ''  integers of the same scale, and turn one back into text with'',
      ''  `decimal.format(value, scale)`. Fewer fractional digits than `scale` are'',
      ''  padded, so `decimal.parse("2500.0", 2)` is 250000. More is an error even'',
      ''  when the extra digits are zeros: `decimal.parse("2550.750", 2)` fails. Parse'',
      ''  at a scale at least as large as the digits the tool returns, and narrow with'',
      ''  `decimal.rescale(value, from, to)`, which fails rather than drop a non-zero'',
      ''  digit. `decimal` functions never divide or round; `math.scale_div` divides'',
      ''  and truncates. **Its third argument is a multiplier, not a number of digits**,'',
      ''  unlike `scale` in the `decimal` functions: a percentage move in basis points is'',
      ''  `math.scale_div(now - past, past, 10000)`, and passing `4` there multiplies by'',
      ''  4, which truncates a 2% move to 0. Scales run from 0 to 18, and exponents'',
      ''  such as "1e3" are refused; a very large or very small number from a tool can arrive in that'',
      ''  form, such as "1e-7". A field the Tool API types'',
      ''  `integer|string(decimal)` can arrive as either, and `decimal.parse` takes'',
      ''  only a string, so write `decimal.parse(tostring(v), 2)`. `tonumber` parses whole numbers only: it'',
      ''  returns nil for "2500.75".'',
      ''- No user-defined globals. Declare every variable and function `local`; the'',
      ''  only globals are the library names listed below.'',
      ''- Iterate tables with `pairs_sorted(t)`; `pairs` is also sorted, and `ipairs`'',
      ''  walks arrays.'',
      ''- Every call returns exactly one value, and a function returns one value:'',
      ''  `return a, b` does not compile. The one two-value form in the language is'',
      ''  `local ok, err = pcall(function() ... end)`; a third name there gets nil.'',
      ''  Anywhere else, as in `local ok = pcall(f)`, `return pcall(f)` or'',
      ''  `if pcall(f) then`, `pcall` gives `ok` alone. There is no multiple'',
      ''  assignment: `ok, err = pcall(f)` does not compile, so declare the pair with'',
      ''  `local`.'',
      ''- Functions take a fixed parameter list; `...` is rejected.'',
      ''- Strings have methods: `s:sub(1, 4)` is `string.sub(s, 1, 4)`, for every'',
      ''  `string` function listed below.'',
      ''- Two shapes fail before the run with `bytecode verification failed:'',
      ''  RetStackMismatch` at line 0. This is a known core bug, not a mistake in the'',
      ''  program, but it must be avoided:'',
      ''  - `return` in the body of a `for ... in ipairs(...)`, `pairs(...)` or'',
      ''    `pairs_sorted(...)` loop, even inside an `if` or an inner loop, and'',
      ''    whether or not the loop is in a function. Set a local and `break`, then'',
      ''    return after the loop, or loop with `for i = 1, #t do`, where `return`'',
      ''    works. A `function() ... end` written in the loop body may `return`, so'',
      ''    `pcall(function() return ... end)` inside the loop is fine.'',
      ''  - A `function t.name(a)` or `function t:name(a)` statement. Write'',
      ''    `t.name = function(self, a) ... end` instead; `t:name(a)` then works.'',
      ''- The standard library is this list and nothing else. Any other name under'',
      ''  `string`, `math`, `table`, `json` or `decimal` is nil, and calling it fails.'',
      ''  - string: `len`, `sub`, `find`, `find_literal`, `upper`, `lower`, `rep`,'',
      ''    `byte`, `char`, `format`.'',
      ''  - math: `abs`, `min`, `max`, `scale_div(a, b, multiplier)`'',
      ''    (`a * multiplier` divided by `b`, truncated towards zero, where `//`'',
      ''    floors: a -2.0004% move is -200 basis points, not -201; `multiplier` is a'',
      ''    plain factor such as 100 or 10000, not a digit count), `maxinteger`,'',
      ''    `mininteger`.'',
      ''  - table: `insert`, `remove`, `concat`, `sort`, `move`.'',
      ''  - json: `encode`, `decode`, `decode_strings`. `decode` rejects a number with'',
      ''    a fractional part or an exponent; `decode_strings` returns every number as'',
      ''    its source text.'',
      ''  - decimal: `parse(text, scale)`, `format(value, scale)`,'',
      ''    `rescale(value, from, to)`.'',
      ''  - Globals: `pcall`, `error`, `type`, `tostring`, `tonumber`, `select`,'',
      ''    `unpack`, `pairs_sorted`, `pairs`, `ipairs`, `log`, `print`. `type`'',
      ''    answers "integer" for a number, never "number".'',
      ''- There are no string patterns. `string.match`, `string.gmatch` and'',
      ''  `string.gsub` exist but every call fails at run time.'',
      ''  `string.find(s, needle [, init [, plain]])` fails if `needle` holds any of'',
      ''  `^ $ ( ) % . [ ] * + - ?`, unless `plain` is `true`: then it searches for'',
      ''  the literal, as `string.find_literal(s, needle [, init])` always does. Both'',
      ''  return the 1-based start index only, or nil.'',
      ''- `string.format` takes `%d`, `%x`, `%s` and `%%`. `%d`, `%x` and `%s` accept'',
      ''  the flags `-` (left-align) and `0` (zero-pad, not on `%s`), and a width and a'',
      ''  precision of at most two digits each: `string.format("%05d", 42)` is'',
      ''  "00042". `%f`, `%e` and `%g` are refused, because there are no floats: use'',
      ''  `decimal.format`.'',
      ''- Time and randomness exist only as tool calls, so they are recorded.'',
      ''- A tool is called by the exact name given in the Tool API below, as'',
      ''  `<downstream>.<tool>{ arg = value }`. Those two names are placeholders for'',
      ''  the ones listed there: if the API lists `market.get_price`, write'',
      ''  `market.get_price{ pair = "ETH/USD" }`, not `server.market.get_price{...}`'',
      ''  and not `tool.call(...)`. A failed or denied call raises an error; catch it'',
      ''  with `local ok, res = pcall(function() return market.get_price{ ... } end)`.'',
      ''  `pcall(tool.call, ...)` is not supported.'',
      ''- A run that fails, such as on an uncaught denial, comes back as an error result'',
      ''  whose text starts with the status kind, as in `ToolError: ...`, and any tool'',
      ''  calls it made have already happened. To report a partial outcome as a'',
      ''  success, catch the denial with `pcall` and return what happened.'',
      ''- Join strings with `..`, as in `"tx " .. hash`. `string.format` is available'',
      ''  for widths and padding.'',
      ''- The value of the final `return` is the result.'']\<close>

definition DIALECT_RULES :: string where
  "DIALECT_RULES = concat (map (\<lambda>l. l @ [NL]) DIALECT_LINES)"

definition dialect_rules :: string where
  "dialect_rules = DIALECT_RULES"

section \<open>Errors\<close>

record lint_error =
  le_line :: u32
  le_message :: string

datatype lint_failure = Lint lint_error | LintPanic string

definition lint_text :: "lint_error \<Rightarrow> string" where
  "lint_text e = ''line '' @ show_nat (unat (le_line e)) @ '': '' @ le_message e"

text \<open>Whether a line contains \<open>pcall(tool.call\<close> with any spacing.\<close>

definition is_pcall_tool_call :: "string \<Rightarrow> bool" where
  "is_pcall_tool_call line =
     (let compact = drop_whitespace line
      in contains_str compact ''pcall(tool.call,'' \<or> contains_str compact ''pcall(tool.call)'')"

definition program_line :: "string \<Rightarrow> u32 \<Rightarrow> string" where
  "program_line program line =
     (if line = 0 then []
      else if unat line - 1 < length (lines_of program) then lines_of program ! (unat line - 1)
      else [])"

fun parse_message :: "parse_error \<Rightarrow> string" where
  "parse_message (DisallowedIdent name line m) =
     (if name \<in> {''os'', ''io'', ''require'', ''load''}
      then ''`'' @ name @ ''` is not available; time and randomness are tool calls''
      else m)"
| "parse_message (FloatLiteral line m) = ''floats are not supported; use integers or decimal strings''"
| "parse_message (OtherParseError line m) = m"

definition strip_line_prefix :: "string \<Rightarrow> string" where
  "strip_line_prefix message =
     (case split_once_str '': '' message of
        Some (pre, rest) \<Rightarrow> if starts_with pre ''line '' then rest else message
      | None \<Rightarrow> message)"

definition pcall_advice :: string where
  "pcall_advice =
     ''`pcall(tool.call, ...)` is not supported; use `pcall(function() return tool.call(name, args) end)`''"

fun compile_message :: "compile_error \<Rightarrow> string \<Rightarrow> string" where
  "compile_message (UnknownGlobal name line m) source_line =
     ''`'' @ name @ ''` is not defined; declare it `local`, or check the tool API''"
| "compile_message (ToolAsValue line m) source_line =
     (if is_pcall_tool_call source_line then pcall_advice else strip_line_prefix m)"
| "compile_message (IndirectToolCall line m) source_line =
     (if is_pcall_tool_call source_line then pcall_advice else strip_line_prefix m)"
| "compile_message (OtherCompileError line m) source_line = strip_line_prefix m"

section \<open>Compiling\<close>

definition prelude_part :: "string \<Rightarrow> string" where
  "prelude_part prelude =
     (if prelude \<noteq> [] \<and> \<not> ends_with_char prelude NL then prelude @ [NL] else prelude)"

definition compile_offset :: "string \<Rightarrow> u32" where
  "compile_offset part = word_of_nat (count_char NL part)"

definition located :: "string \<Rightarrow> u32 \<Rightarrow> u32 \<Rightarrow> string \<Rightarrow> lint_failure" where
  "located prelude offset line message =
     (if line \<le> offset
      then LintPanic (''generated prelude failed to compile at line '' @ show_nat (unat line) @ '': ''
             @ message @ [NL] @ ''--- prelude ---'' @ [NL] @ prelude)
      else Lint \<lparr>le_line = line - offset, le_message = message\<rparr>)"

definition saturating_sub :: "u32 \<Rightarrow> u32 \<Rightarrow> u32" where
  "saturating_sub a b = (if b \<le> a then a - b else 0)"

definition compile_program ::
  "('t, 'b, 'p, 'k, 'z) core_scheme \<Rightarrow> string \<Rightarrow> string \<Rightarrow> lint_failure + 'p" where
  "compile_program co prelude program =
     (let part = prelude_part prelude;
          offset = compile_offset part;
          source = part @ program
      in bind_r (map_err (\<lambda>e. located prelude offset (pe_line e) (parse_message e)) (core_parse co source)) (\<lambda>block.
         bind_r (map_err (\<lambda>e. located prelude offset (ce_line e)
                     (compile_message e (program_line program (saturating_sub (ce_line e) offset))))
                   (core_compile co block)) (\<lambda>compiled.
         bind_r (map_err (\<lambda>e. Lint \<lparr>le_line = 0, le_message = ''bytecode verification failed: '' @ e\<rparr>)
                   (core_verify co compiled)) (\<lambda>_.
           Inr compiled))))"

section \<open>Facts\<close>

lemma prelude_part_id: "prelude = [] \<or> ends_with_char prelude NL \<Longrightarrow> prelude_part prelude = prelude"
  by (auto simp: prelude_part_def)

lemma prelude_part_ends: "prelude_part prelude = [] \<or> ends_with_char (prelude_part prelude) NL"
  by (auto simp: prelude_part_def ends_with_char_def)

text \<open>A program is accepted exactly when every stage accepts the prelude followed by the program.\<close>

lemma compile_program_Inr:
  "compile_program co prelude program = Inr p \<longleftrightarrow>
     (\<exists>block. core_parse co (prelude_part prelude @ program) = Inr block \<and>
        core_compile co block = Inr p \<and> core_verify co p = Inr ())"
  by (auto simp: compile_program_def Let_def result_simps)

text \<open>Where the first failing stage puts its error, in lines of the whole source.\<close>

definition stage_error :: "('t, 'b, 'p, 'k, 'z) core_scheme \<Rightarrow> string \<Rightarrow> u32 \<Rightarrow> bool" where
  "stage_error co source l \<longleftrightarrow>
     (\<exists>e. core_parse co source = Inl e \<and> pe_line e = l) \<or>
     (\<exists>block e. core_parse co source = Inr block \<and> core_compile co block = Inl e \<and> ce_line e = l)"

lemma located_Lint:
  "located prelude offset l m = Lint e \<longleftrightarrow> offset < l \<and> e = \<lparr>le_line = l - offset, le_message = m\<rparr>"
  by (auto simp: located_def)

lemma located_LintPanic: "(\<exists>m'. located prelude offset l m = LintPanic m') \<longleftrightarrow> l \<le> offset"
  by (auto simp: located_def)

lemmas located_LintPanicD = located_LintPanic [THEN iffD1, OF exI]

lemma compile_program_Lint:
  assumes "compile_program co prelude program = Inl (Lint e)" "0 < le_line e"
  shows "\<exists>l. stage_error co (prelude_part prelude @ program) l \<and> compile_offset (prelude_part prelude) < l \<and>
             le_line e = l - compile_offset (prelude_part prelude)"
  using assms
  by (auto simp: compile_program_def Let_def result_simps stage_error_def eq_commute [of "Lint e"] located_Lint)

lemma unat_compile_offset:
  "count_char NL part < 2 ^ 32 \<Longrightarrow> unat (compile_offset part) = count_char NL part"
  by (simp add: compile_offset_def unat_of_nat take_bit_nat_eq_self)

lemma unat_minus_less: "(a :: u32) < b \<Longrightarrow> unat b = unat a + unat (b - a)"
  using unat_sub [of a b] by (simp add: word_less_nat_alt word_le_nat_alt)

lemma compile_program_panic:
  "(\<exists>m. compile_program co prelude program = Inl (LintPanic m)) \<longleftrightarrow>
     (\<exists>l. stage_error co (prelude_part prelude @ program) l \<and> l \<le> compile_offset (prelude_part prelude))"
  by (auto simp: compile_program_def Let_def result_simps stage_error_def eq_commute [of "LintPanic _"]
      located_LintPanic dest: located_LintPanicD)

end
