(* ===== verification/Trace_Store.thy ===== *)
theory Trace_Store
  imports Trace_Format
begin

text \<open>
  \<open>src/store.rs\<close>: the append-only store of traces, programs and tool descriptions.

  The file system is explicit: the files, the directories and the process's counter for temporary
  names. Which operations the operating system fails is the record \<open>io_env\<close>: each call of the
  sources may fail with an error of its own, a write also after some bytes; only a missing file is
  reported as not found. \<open>write_atomic\<close> is one
  function here; \<open>Store_Writers\<close> and \<open>Store_Steps\<close> take it apart into the steps of concurrent writers.
\<close>

section \<open>The file system\<close>

datatype io_error = NotFound | AlreadyExists | OtherIo string

record fs =
  fs_files :: "path \<Rightarrow> string option"
  fs_dirs :: "path list"
  fs_counter :: u64

record io_env =
  io_pid :: nat
  io_stat :: "path \<Rightarrow> bool"
  io_read :: "path \<Rightarrow> string option"
  io_mkdir :: "path \<Rightarrow> io_error option"
  io_open :: "path \<Rightarrow> io_error option"
  io_write :: "path \<Rightarrow> (nat \<times> io_error) option"
  io_sync :: "path \<Rightarrow> io_error option"
  io_rename :: "path \<Rightarrow> io_error option"
  io_remove :: "path \<Rightarrow> io_error option"

text \<open>The store only ever reads and writes files, never directories, at the paths of its keys.
  \<open>fs::read\<close>, \<open>fs::read_to_string\<close>, \<open>Path::exists\<close> (false when the look-up fails) and
  \<open>fs::create_dir_all\<close>.\<close>

definition fs_read :: "io_env \<Rightarrow> fs \<Rightarrow> path \<Rightarrow> io_error + string" where
  "fs_read io s p =
     (case io_read io p of
        Some e \<Rightarrow> Inl (OtherIo e)
      | None \<Rightarrow> (case fs_files s p of None \<Rightarrow> Inl NotFound | Some c \<Rightarrow> Inr c))"

definition fs_read_to_string :: "io_env \<Rightarrow> fs \<Rightarrow> path \<Rightarrow> io_error + string" where
  "fs_read_to_string io s p =
     bind_r (fs_read io s p) (\<lambda>c.
       if utf8_valid c then Inr c else Inl (OtherIo ''stream did not contain valid UTF-8''))"

definition fs_exists :: "io_env \<Rightarrow> fs \<Rightarrow> path \<Rightarrow> bool" where
  "fs_exists io s p = (\<not> io_stat io p \<and> (fs_files s p \<noteq> None \<or> p \<in> set (fs_dirs s)))"

definition fs_create_dir_all :: "io_env \<Rightarrow> fs \<Rightarrow> path \<Rightarrow> fs \<times> (io_error + unit)" where
  "fs_create_dir_all io s p =
     (case io_mkdir io p of
        Some e \<Rightarrow> (s, Inl e)
      | None \<Rightarrow> (s\<lparr>fs_dirs := fs_dirs s @ filter (\<lambda>d. d \<notin> set (fs_dirs s)) (tl (prefixes p))\<rparr>, Inr ()))"

text \<open>The parts of a write: open with \<open>create_new\<close>, \<open>write_all\<close>, \<open>sync_all\<close>, \<open>rename\<close>,
  \<open>remove_file\<close>.\<close>

definition fs_create_new :: "io_env \<Rightarrow> fs \<Rightarrow> path \<Rightarrow> fs \<times> (io_error + unit)" where
  "fs_create_new io s p =
     (case io_open io p of
        Some e \<Rightarrow> (s, Inl e)
      | None \<Rightarrow>
          if fs_files s p \<noteq> None then (s, Inl AlreadyExists)
          else if butlast p \<notin> set (fs_dirs s) then (s, Inl NotFound)
          else (s\<lparr>fs_files := (fs_files s)(p \<mapsto> [])\<rparr>, Inr ()))"

definition fs_write_all :: "io_env \<Rightarrow> fs \<Rightarrow> path \<Rightarrow> string \<Rightarrow> fs \<times> (io_error + unit)" where
  "fs_write_all io s p bytes =
     (case io_write io p of
        Some (n, e) \<Rightarrow> (s\<lparr>fs_files := (fs_files s)(p \<mapsto> take n bytes)\<rparr>, Inl e)
      | None \<Rightarrow> (s\<lparr>fs_files := (fs_files s)(p \<mapsto> bytes)\<rparr>, Inr ()))"

definition fs_sync_all :: "io_env \<Rightarrow> fs \<Rightarrow> path \<Rightarrow> fs \<times> (io_error + unit)" where
  "fs_sync_all io s p = (case io_sync io p of Some e \<Rightarrow> (s, Inl e) | None \<Rightarrow> (s, Inr ()))"

definition fs_rename :: "io_env \<Rightarrow> fs \<Rightarrow> path \<Rightarrow> path \<Rightarrow> fs \<times> (io_error + unit)" where
  "fs_rename io s from dest =
     (case io_rename io dest of
        Some e \<Rightarrow> (s, Inl e)
      | None \<Rightarrow> (s\<lparr>fs_files := (fs_files s)(from := None, dest := fs_files s from)\<rparr>, Inr ()))"

definition fs_remove_file :: "io_env \<Rightarrow> fs \<Rightarrow> path \<Rightarrow> fs" where
  "fs_remove_file io s p =
     (case io_remove io p of
        Some e \<Rightarrow> s
      | None \<Rightarrow> s\<lparr>fs_files := (fs_files s)(p := None)\<rparr>)"

definition then_fs :: "fs \<times> (io_error + unit) \<Rightarrow> (fs \<Rightarrow> fs \<times> (io_error + unit)) \<Rightarrow> fs \<times> (io_error + unit)" where
  "then_fs r f = (case r of (s, Inl e) \<Rightarrow> (s, Inl e) | (s, Inr _) \<Rightarrow> f s)"

section \<open>The store\<close>

record trace_store =
  st_traces :: path
  st_programs :: path
  st_descriptions :: path

datatype store_error =
    Io io_error
  | InvalidKey string
  | TraceExists string
  | Conflict string string
  | JsonError string
  | StorePanic string

definition valid_key :: "string \<Rightarrow> bool" where
  "valid_key key =
     (key \<noteq> [] \<and>
      list_all (\<lambda>b. is_ascii_digit b \<or> (CHR ''a'' \<le> b \<and> b \<le> CHR ''f'') \<or> b = CHR ''-'') key)"

definition key_path :: "path \<Rightarrow> string \<Rightarrow> string \<Rightarrow> store_error + path" where
  "key_path dir key ext =
     (if \<not> valid_key key then Inl (InvalidKey key)
      else Inr (path_join dir (path_components (key @ ''.'' @ ext))))"

definition tmp_name :: "nat \<Rightarrow> u64 \<Rightarrow> string" where
  "tmp_name pid n = ''.tmp-'' @ show_nat pid @ ''-'' @ show_nat (unat n)"

definition write_atomic :: "io_env \<Rightarrow> fs \<Rightarrow> path \<Rightarrow> string \<Rightarrow> fs \<times> (store_error + unit)" where
  "write_atomic io s p bytes =
     (case path_parent p of
        None \<Rightarrow> (s, Inl (StorePanic ''store paths always have a parent''))
      | Some dir \<Rightarrow>
          (let tmp = path_join dir [tmp_name (io_pid io) (fs_counter s)];
               s0 = s\<lparr>fs_counter := fs_counter s + 1\<rparr>;
               (s1, r) =
                 then_fs (fs_create_new io s0 tmp) (\<lambda>a.
                 then_fs (fs_write_all io a tmp bytes) (\<lambda>b.
                 then_fs (fs_sync_all io b tmp) (\<lambda>c.
                   fs_rename io c tmp p)))
           in case r of
                Inl e \<Rightarrow> (fs_remove_file io s1 tmp, Inl (Io e))
              | Inr _ \<Rightarrow> (s1, Inr ())))"

definition put_content_addressed ::
  "io_env \<Rightarrow> fs \<Rightarrow> path \<Rightarrow> string \<Rightarrow> string \<Rightarrow> string \<Rightarrow> fs \<times> (store_error + unit)" where
  "put_content_addressed io s p kind key content =
     (case fs_read io s p of
        Inr existing \<Rightarrow>
          if existing = content then (s, Inr ()) else (s, Inl (Conflict kind key))
      | Inl NotFound \<Rightarrow> write_atomic io s p content
      | Inl e \<Rightarrow> (s, Inl (Io e)))"

definition store_open :: "io_env \<Rightarrow> fs \<Rightarrow> path \<Rightarrow> fs \<times> (store_error + trace_store)" where
  "store_open io s dir =
     (let st = \<lparr>st_traces = path_join dir [''traces''],
                st_programs = path_join dir [''programs''],
                st_descriptions = path_join dir [''descriptions'']\<rparr>
      in case then_fs (fs_create_dir_all io s (st_traces st)) (\<lambda>a.
              then_fs (fs_create_dir_all io a (st_programs st)) (\<lambda>b.
                fs_create_dir_all io b (st_descriptions st))) of
           (s', Inl e) \<Rightarrow> (s', Inl (Io e))
         | (s', Inr _) \<Rightarrow> (s', Inr st))"

definition put_trace ::
  "io_env \<Rightarrow> trace_writer \<Rightarrow> trace_store \<Rightarrow> fs \<Rightarrow> trace \<Rightarrow> fs \<times> (store_error + unit)" where
  "put_trace io w st s t =
     (case key_path (st_traces st) (trace_id (tr_header t)) ''json'' of
        Inl e \<Rightarrow> (s, Inl e)
      | Inr p \<Rightarrow>
          if fs_exists io s p then (s, Inl (TraceExists (trace_id (tr_header t))))
          else write_atomic io s p (trace_text w t))"

definition get_trace ::
  "io_env \<Rightarrow> (string \<Rightarrow> string + trace) \<Rightarrow> trace_store \<Rightarrow> fs \<Rightarrow> string \<Rightarrow> store_error + trace" where
  "get_trace io from_slice st s key =
     bind_r (key_path (st_traces st) key ''json'') (\<lambda>p.
     bind_r (map_err Io (fs_read io s p)) (\<lambda>bytes.
       map_err JsonError (from_slice bytes)))"

definition put_program ::
  "io_env \<Rightarrow> trace_store \<Rightarrow> fs \<Rightarrow> string \<Rightarrow> string \<Rightarrow> fs \<times> (store_error + unit)" where
  "put_program io st s key source =
     (case key_path (st_programs st) key ''lua'' of
        Inl e \<Rightarrow> (s, Inl e)
      | Inr p \<Rightarrow> put_content_addressed io s p ''program'' key source)"

definition get_program :: "io_env \<Rightarrow> trace_store \<Rightarrow> fs \<Rightarrow> string \<Rightarrow> store_error + string" where
  "get_program io st s key =
     bind_r (key_path (st_programs st) key ''lua'') (\<lambda>p. map_err Io (fs_read_to_string io s p))"

definition put_description ::
  "io_env \<Rightarrow> trace_store \<Rightarrow> fs \<Rightarrow> string \<Rightarrow> string \<Rightarrow> fs \<times> (store_error + unit)" where
  "put_description io st s key text =
     (case key_path (st_descriptions st) key ''txt'' of
        Inl e \<Rightarrow> (s, Inl e)
      | Inr p \<Rightarrow> put_content_addressed io s p ''description'' key text)"

definition get_description :: "io_env \<Rightarrow> trace_store \<Rightarrow> fs \<Rightarrow> string \<Rightarrow> store_error + string" where
  "get_description io st s key =
     bind_r (key_path (st_descriptions st) key ''txt'') (\<lambda>p. map_err Io (fs_read_to_string io s p))"

section \<open>Facts: names\<close>

lemma split_slash_none: "CHR ''/'' \<notin> set s \<Longrightarrow> split_slash acc s = [rev acc @ s]"
  by (induction s arbitrary: acc) auto

lemma path_components_single:
  assumes "CHR ''/'' \<notin> set s" "s \<noteq> []" "s \<noteq> ''.''"
  shows "path_components s = [s]"
proof -
  have "\<not> starts_with s (c @ ''/'')" for c
  proof
    assume "starts_with s (c @ ''/'')"
    then have "set (c @ ''/'') \<subseteq> set s" unfolding starts_with_def by (metis set_take_subset)
    with assms(1) show False by simp
  qed
  from this [of "[]"] this [of "''.''"] show ?thesis
    using assms by (simp add: path_components_def split_slash_none)
qed

lemma path_join_single: "CHR ''/'' \<notin> set s \<Longrightarrow> s \<noteq> ''.'' \<Longrightarrow> path_join dir [s] = dir @ [s]"
  by (auto simp: path_join_def is_absolute_def)

lemma key_char: "valid_key key \<Longrightarrow> c \<in> set key \<Longrightarrow> c \<noteq> CHR ''/'' \<and> c \<noteq> CHR ''.''"
  by (auto simp: valid_key_def list_all_iff is_ascii_digit_def less_eq_char_def)

lemma key_path_Inr:
  assumes "CHR ''/'' \<notin> set ext"
  shows "key_path dir key ext = Inr p \<longleftrightarrow> valid_key key \<and> p = dir @ [key @ ''.'' @ ext]"
proof (cases "valid_key key")
  case True
  then have slash: "CHR ''/'' \<notin> set (key @ ''.'' @ ext)"
    using assms by (auto dest: key_char)
  have dot: "key @ ''.'' @ ext \<noteq> ''.''" "key @ ''.'' @ ext \<noteq> []"
    using True by (auto simp: valid_key_def append_eq_Cons_conv)
  from True show ?thesis
    unfolding key_path_def path_components_single [OF slash dot(2,1)] path_join_single [OF slash dot(1)]
    by auto
next
  case False
  then show ?thesis by (simp add: key_path_def)
qed

lemma key_path_ok:
  "valid_key key \<Longrightarrow> CHR ''/'' \<notin> set ext \<Longrightarrow> key_path dir key ext = Inr (dir @ [key @ ''.'' @ ext])"
  by (simp add: key_path_Inr)

lemma key_path_Inl: "key_path dir key ext = Inl e \<longleftrightarrow> \<not> valid_key key \<and> e = InvalidKey key"
  by (auto simp: key_path_def)

text \<open>A temporary file cannot be taken for a stored one: its name starts with a dot.\<close>

definition is_tmp :: "path \<Rightarrow> bool" where
  "is_tmp p \<longleftrightarrow> p \<noteq> [] \<and> starts_with (last p) ''.tmp-''"

lemma is_tmp_tmp_name: "is_tmp (dir @ [tmp_name pid n])"
  by (simp add: is_tmp_def tmp_name_def starts_with_def)

lemma not_is_tmp_key: "valid_key key \<Longrightarrow> \<not> is_tmp (dir @ [key @ ''.'' @ ext])"
proof -
  assume v: "valid_key key"
  then obtain c k where k: "key = c # k" by (cases key) (auto simp: valid_key_def)
  with key_char [OF v, of c] show ?thesis by (auto simp: is_tmp_def starts_with_def)
qed

lemma tmp_name_chars: "CHR ''/'' \<notin> set (tmp_name pid n)" "tmp_name pid n \<noteq> ''.''"
proof -
  have "CHR ''/'' \<notin> set (show_nat m)" for m
    using show_nat_digits [of "CHR ''/''" m] by (auto simp: is_ascii_digit_def less_eq_char_def)
  then show "CHR ''/'' \<notin> set (tmp_name pid n)" by (simp add: tmp_name_def)
  show "tmp_name pid n \<noteq> ''.''" by (simp add: tmp_name_def)
qed

text \<open>Temporary names tell processes and the calls of a process apart.\<close>

lemma tmp_name_inj: "tmp_name pid n = tmp_name pid' n' \<longleftrightarrow> pid = pid' \<and> n = n'"
proof
  assume eq: "tmp_name pid n = tmp_name pid' n'"
  have "CHR ''-'' \<notin> set (show_nat m)" for m
    using show_nat_digits [of "CHR ''-''" m] by (auto simp: is_ascii_digit_def less_eq_char_def)
  then have split: "split_once_char (CHR ''-'') (show_nat a @ CHR ''-'' # b) = Some (show_nat a, b)" for a b
    by (simp add: split_once_char_Some)
  from eq have "show_nat pid @ CHR ''-'' # show_nat (unat n) = show_nat pid' @ CHR ''-'' # show_nat (unat n')"
    by (simp add: tmp_name_def)
  with split have "show_nat pid = show_nat pid' \<and> show_nat (unat n) = show_nat (unat n')"
    by (metis option.inject prod.inject)
  then show "pid = pid' \<and> n = n'" by (auto simp: show_nat_inj intro: unsigned_word_eqI [where 'a = nat])
qed simp

section \<open>Facts: one write\<close>

text \<open>Where a write puts its temporary file.\<close>

definition tmp_path :: "io_env \<Rightarrow> fs \<Rightarrow> path \<Rightarrow> path" where
  "tmp_path io s p = butlast p @ [tmp_name (io_pid io) (fs_counter s)]"

lemma is_tmp_tmp_path [simp]: "is_tmp (tmp_path io s p)"
  by (simp add: tmp_path_def is_tmp_tmp_name)

text \<open>A path the store writes to: some file of a directory, not a temporary one.\<close>

definition store_path :: "path \<Rightarrow> bool" where
  "store_path p \<longleftrightarrow> p \<noteq> [] \<and> last p \<noteq> ''/'' \<and> \<not> is_tmp p"

lemma store_path_key: "valid_key key \<Longrightarrow> store_path (dir @ [key @ ''.'' @ ext])"
  using not_is_tmp_key by (auto simp: store_path_def append_eq_Cons_conv)

lemma key_path_store: "key_path dir key ext = Inr p \<Longrightarrow> CHR ''/'' \<notin> set ext \<Longrightarrow> store_path p"
  using store_path_key by (auto simp: key_path_Inr)

lemma tmp_path_neq: "store_path p \<Longrightarrow> tmp_path io s q \<noteq> p"
  using is_tmp_tmp_path by (auto simp: store_path_def)

text \<open>The outcome of a write: success leaves the target with exactly the bytes, failure leaves every
  file but the temporary one alone; directories stay and the counter moves on.\<close>

lemma write_atomic_outcome:
  assumes "write_atomic io s p bytes = (s', r)" and "store_path p"
  shows "fs_dirs s' = fs_dirs s" and "fs_counter s' = fs_counter s + 1"
    and "\<And>u. r = Inr u \<Longrightarrow> fs_files s (tmp_path io s p) = None \<and> fs_files s' = (fs_files s)(p \<mapsto> bytes)"
    and "\<And>e q. r = Inl e \<Longrightarrow> q \<noteq> tmp_path io s p \<Longrightarrow> fs_files s' q = fs_files s q"
proof -
  have parent: "path_parent p = Some (butlast p)"
    using assms(2) by (simp add: path_parent_def store_path_def)
  have tmp: "path_join (butlast p) [tmp_name (io_pid io) (fs_counter s)] = tmp_path io s p"
    by (simp add: tmp_path_def path_join_single tmp_name_chars)
  note neq = tmp_path_neq [OF assms(2), of io s p]
  note defs = write_atomic_def parent tmp Let_def then_fs_def fs_create_new_def fs_write_all_def
    fs_sync_all_def fs_rename_def fs_remove_file_def
  show "fs_dirs s' = fs_dirs s" "fs_counter s' = fs_counter s + 1"
    using assms(1) by (auto simp: defs split: option.splits if_splits)
  show "fs_files s (tmp_path io s p) = None \<and> fs_files s' = (fs_files s)(p \<mapsto> bytes)" if "r = Inr u" for u
    using assms(1) that neq by (auto simp: defs fun_eq_iff split: option.splits if_splits)
  show "fs_files s' q = fs_files s q" if "r = Inl e" "q \<noteq> tmp_path io s p" for e q
    using assms(1) that by (auto simp: defs split: option.splits if_splits)
qed

text \<open>A write goes through when nothing fails, the directory is there and the temporary name is free.\<close>

definition io_quiet :: "io_env \<Rightarrow> bool" where
  "io_quiet io \<longleftrightarrow>
     (\<forall>p. \<not> io_stat io p \<and> io_read io p = None \<and> io_mkdir io p = None \<and> io_open io p = None \<and>
          io_write io p = None \<and> io_sync io p = None \<and> io_rename io p = None)"

lemma write_atomic_succeeds:
  assumes "io_quiet io" "store_path p" "fs_files s (tmp_path io s p) = None" "butlast p \<in> set (fs_dirs s)"
  shows "snd (write_atomic io s p bytes) = Inr ()"
proof -
  have "path_parent p = Some (butlast p)"
    using assms(2) by (simp add: path_parent_def store_path_def)
  moreover have "path_join (butlast p) [tmp_name (io_pid io) (fs_counter s)] = tmp_path io s p"
    by (simp add: tmp_path_def path_join_single tmp_name_chars)
  ultimately show ?thesis
    using assms by (simp add: write_atomic_def Let_def then_fs_def fs_create_new_def fs_write_all_def
        fs_sync_all_def fs_rename_def io_quiet_def tmp_path_def)
qed

section \<open>Facts: append-only\<close>

text \<open>What every operation of the store keeps: a stored file is never changed or removed.\<close>

definition keeps :: "fs \<Rightarrow> fs \<Rightarrow> bool" where
  "keeps s s' \<longleftrightarrow> (\<forall>q c. \<not> is_tmp q \<longrightarrow> fs_files s q = Some c \<longrightarrow> fs_files s' q = Some c)"

lemma keeps_refl [simp]: "keeps s s"
  by (simp add: keeps_def)

lemma keeps_trans: "keeps s s' \<Longrightarrow> keeps s' s'' \<Longrightarrow> keeps s s''"
  by (simp add: keeps_def)

lemma write_atomic_keeps:
  assumes "write_atomic io s p bytes = (s', r)" "store_path p" "fs_files s p = None"
  shows "keeps s s'"
proof (cases r)
  case (Inl e)
  have "fs_files s' q = fs_files s q" if "\<not> is_tmp q" for q
    by (rule write_atomic_outcome(4) [OF assms(1,2) Inl]) (use that in auto)
  then show ?thesis by (simp add: keeps_def)
next
  case (Inr u)
  with write_atomic_outcome(3) [OF assms(1,2) Inr] assms(3) show ?thesis by (auto simp: keeps_def)
qed

lemma fs_read_NotFound: "fs_read io s p = Inl NotFound \<longleftrightarrow> io_read io p = None \<and> fs_files s p = None"
  by (auto simp: fs_read_def split: option.splits)

lemma fs_read_Inr: "fs_read io s p = Inr c \<longleftrightarrow> io_read io p = None \<and> fs_files s p = Some c"
  by (auto simp: fs_read_def split: option.splits)

lemma put_content_keeps:
  "put_content_addressed io s p kind key content = (s', r) \<Longrightarrow> store_path p \<Longrightarrow> keeps s s'"
  by (auto simp: put_content_addressed_def fs_read_NotFound dest: write_atomic_keeps
      split: sum.splits io_error.splits if_splits)

lemma put_content_Inr:
  assumes "put_content_addressed io s p kind key content = (s', Inr u)" "store_path p"
  shows "io_read io p = None \<and> fs_files s' p = Some content"
proof (cases "fs_read io s p")
  case (Inl e)
  with assms(1) have e: "e = NotFound" and w: "write_atomic io s p content = (s', Inr u)"
    by (auto simp: put_content_addressed_def split: io_error.splits)
  from write_atomic_outcome(3) [OF w assms(2) refl] Inl e show ?thesis
    by (simp add: fs_read_NotFound)
next
  case (Inr c)
  with assms(1) show ?thesis by (auto simp: put_content_addressed_def fs_read_Inr split: if_splits)
qed

lemma write_atomic_error:
  assumes "write_atomic io s p bytes = (s', Inl e)"
  shows "(\<exists>x. e = Io x) \<or> (\<exists>m. e = StorePanic m)"
proof (cases "path_parent p")
  case None
  with assms show ?thesis by (auto simp: write_atomic_def)
next
  case (Some dir)
  with assms show ?thesis by (auto simp: write_atomic_def Let_def split: prod.splits sum.splits)
qed

lemma put_content_Conflict:
  assumes "put_content_addressed io s p kind key content = (s', Inl (Conflict a b))"
  shows "fs_files s p \<noteq> None"
proof (cases "fs_read io s p")
  case (Inl e)
  with assms show ?thesis
    by (cases e) (auto simp: put_content_addressed_def dest: write_atomic_error)
next
  case (Inr c)
  then show ?thesis by (simp add: fs_read_Inr)
qed

lemma put_program_keeps: "put_program io st s key src = (s', r) \<Longrightarrow> keeps s s'"
  by (auto simp: put_program_def dest: key_path_store put_content_keeps split: sum.splits)

lemma put_description_keeps: "put_description io st s key txt = (s', r) \<Longrightarrow> keeps s s'"
  by (auto simp: put_description_def dest: key_path_store put_content_keeps split: sum.splits)

lemma fs_exists_file: "\<not> io_stat io p \<Longrightarrow> \<not> fs_exists io s p \<Longrightarrow> fs_files s p = None"
  by (auto simp: fs_exists_def)

lemma put_trace_keeps:
  assumes "put_trace io w st s t = (s', r)" "\<And>p. \<not> io_stat io p"
  shows "keeps s s'"
proof (cases "key_path (st_traces st) (trace_id (tr_header t)) ''json''")
  case (Inl e)
  with assms(1) show ?thesis by (simp add: put_trace_def)
next
  case (Inr p)
  then have sp: "store_path p" by (rule key_path_store) simp
  from Inr assms show ?thesis
    by (auto simp: put_trace_def split: if_splits
        intro: write_atomic_keeps [OF _ sp] fs_exists_file)
qed

text \<open>With look-ups that can fail, \<open>Path::exists\<close> can answer that a stored trace is not there. Then a
  stored file is still never removed, but one at which a look-up failed can be replaced.\<close>

definition keeps_but :: "(path \<Rightarrow> bool) \<Rightarrow> fs \<Rightarrow> fs \<Rightarrow> bool" where
  "keeps_but bad s s' \<longleftrightarrow>
     (\<forall>q c. \<not> is_tmp q \<longrightarrow> fs_files s q = Some c \<longrightarrow>
        fs_files s' q = Some c \<or> (bad q \<and> fs_files s' q \<noteq> None))"

lemma keeps_but_refl: "keeps_but bad s s"
  by (simp add: keeps_but_def)

lemma keeps_keeps_but: "keeps s s' \<Longrightarrow> keeps_but bad s s'"
  by (simp add: keeps_def keeps_but_def)

lemma keeps_but_mono: "keeps_but bad s s' \<Longrightarrow> (\<And>q. bad q \<Longrightarrow> bad' q) \<Longrightarrow> keeps_but bad' s s'"
  unfolding keeps_but_def by blast

lemma keeps_but_trans: "keeps_but bad s s' \<Longrightarrow> keeps_but bad s' s'' \<Longrightarrow> keeps_but bad s s''"
  unfolding keeps_but_def by (metis option.exhaust)

lemma write_atomic_files:
  assumes "write_atomic io s p bytes = (s', r)" "store_path p" "\<not> is_tmp q"
  shows "fs_files s' q = fs_files s q \<or> (q = p \<and> fs_files s' q = Some bytes)"
proof (cases r)
  case (Inl e)
  have "q \<noteq> tmp_path io s p" using assms(3) by auto
  from write_atomic_outcome(4) [OF assms(1,2) Inl this] show ?thesis ..
next
  case (Inr u)
  from write_atomic_outcome(3) [OF assms(1,2) Inr] show ?thesis by auto
qed

lemma put_trace_keeps_but:
  assumes "put_trace io w st s t = (s', r)"
  shows "keeps_but (\<lambda>q. io_stat io q \<and> key_path (st_traces st) (trace_id (tr_header t)) ''json'' = Inr q) s s'"
proof (cases "key_path (st_traces st) (trace_id (tr_header t)) ''json''")
  case (Inl e)
  with assms show ?thesis by (simp add: put_trace_def keeps_but_refl)
next
  case (Inr p)
  then have sp: "store_path p" by (rule key_path_store) simp
  show ?thesis
  proof (cases "fs_exists io s p")
    case True
    with Inr assms show ?thesis by (simp add: put_trace_def keeps_but_refl)
  next
    case False
    with Inr assms have w: "write_atomic io s p (trace_text w t) = (s', r)" by (simp add: put_trace_def)
    show ?thesis
      unfolding keeps_but_def
    proof (intro allI impI)
      fix q c
      assume q: "\<not> is_tmp q" "fs_files s q = Some c"
      from write_atomic_files [OF w sp q(1)] False Inr q(2)
      show "fs_files s' q = Some c \<or>
          (io_stat io q \<and> key_path (st_traces st) (trace_id (tr_header t)) ''json'' = Inr q) \<and> fs_files s' q \<noteq> None"
        by (auto simp: fs_exists_def)
    qed
  qed
qed

text \<open>Any sequence of operations, each with failures of its own.\<close>

datatype store_op = PutTrace trace | PutProgram string string | PutDescription string string

fun run_op :: "trace_writer \<Rightarrow> trace_store \<Rightarrow> io_env \<times> store_op \<Rightarrow> fs \<Rightarrow> fs \<times> (store_error + unit)" where
  "run_op w st (io, PutTrace t) s = put_trace io w st s t"
| "run_op w st (io, PutProgram k src) s = put_program io st s k src"
| "run_op w st (io, PutDescription k txt) s = put_description io st s k txt"

definition run_ops :: "trace_writer \<Rightarrow> trace_store \<Rightarrow> (io_env \<times> store_op) list \<Rightarrow> fs \<Rightarrow> fs" where
  "run_ops w st ops s = foldl (\<lambda>s x. fst (run_op w st x s)) s ops"

text \<open>The look-up of a path failed in a \<open>put_trace\<close> to that very path.\<close>

definition failed_look_up :: "trace_store \<Rightarrow> io_env \<times> store_op \<Rightarrow> path \<Rightarrow> bool" where
  "failed_look_up st x q \<longleftrightarrow>
     io_stat (fst x) q \<and>
     (\<exists>t. snd x = PutTrace t \<and> key_path (st_traces st) (trace_id (tr_header t)) ''json'' = Inr q)"

lemma run_op_keeps_but: "keeps_but (failed_look_up st x) s (fst (run_op w st x s))"
proof -
  obtain s' r where run: "run_op w st x s = (s', r)" by fastforce
  obtain io op where x: "x = (io, op)" by fastforce
  have "keeps_but (failed_look_up st x) s s'"
    using run
  proof (cases op)
    case (PutTrace t)
    with run have "put_trace io w st s t = (s', r)" by (simp add: x)
    from keeps_but_mono [OF put_trace_keeps_but [OF this]] show ?thesis by (auto simp: x PutTrace failed_look_up_def)
  qed (auto simp: x intro: keeps_keeps_but put_program_keeps put_description_keeps)
  with run show ?thesis by simp
qed

lemma run_ops_keeps_but: "keeps_but (\<lambda>q. \<exists>x \<in> set ops. failed_look_up st x q) s (run_ops w st ops s)"
  unfolding run_ops_def
proof (induction ops arbitrary: s)
  case Nil
  then show ?case by (simp add: keeps_but_refl)
next
  case (Cons x ops)
  let ?s1 = "fst (run_op w st x s)" and ?bad = "\<lambda>q. \<exists>x \<in> set (x # ops). failed_look_up st x q"
  have "keeps_but ?bad s ?s1" by (rule keeps_but_mono [OF run_op_keeps_but]) simp
  moreover have "keeps_but ?bad ?s1 (foldl (\<lambda>s x. fst (run_op w st x s)) ?s1 ops)"
    by (rule keeps_but_mono [OF Cons.IH]) auto
  ultimately show ?case by (auto intro: keeps_but_trans)
qed

section \<open>Facts: reading back\<close>

lemma fs_read_to_string_Inr:
  "fs_read_to_string io s p = Inr c \<longleftrightarrow> io_read io p = None \<and> fs_files s p = Some c \<and> utf8_valid c"
  by (auto simp: fs_read_to_string_def result_simps fs_read_Inr split: if_splits)

lemma store_open_files: "store_open io s dir = (s', r) \<Longrightarrow> fs_files s' = fs_files s"
  by (auto simp: store_open_def Let_def then_fs_def fs_create_dir_all_def split: option.splits)

lemma put_content_same:
  "io_read io p = None \<Longrightarrow> fs_files s p = Some content \<Longrightarrow>
     put_content_addressed io s p kind key content = (s, Inr ())"
  by (simp add: put_content_addressed_def fs_read_def)

lemma put_content_conflict:
  "io_read io p = None \<Longrightarrow> fs_files s p = Some other \<Longrightarrow> other \<noteq> content \<Longrightarrow>
     put_content_addressed io s p kind key content = (s, Inl (Conflict kind key))"
  by (simp add: put_content_addressed_def fs_read_def)

lemma put_trace_Inr:
  assumes "put_trace io w st s t = (s', Inr u)"
  shows "\<exists>p. key_path (st_traces st) (trace_id (tr_header t)) ''json'' = Inr p \<and>
             store_path p \<and> \<not> fs_exists io s p \<and> fs_files s' = (fs_files s)(p \<mapsto> trace_text w t)"
proof -
  from assms obtain p where p: "key_path (st_traces st) (trace_id (tr_header t)) ''json'' = Inr p"
    "\<not> fs_exists io s p" and w: "write_atomic io s p (trace_text w t) = (s', Inr u)"
    by (auto simp: put_trace_def split: sum.splits if_splits)
  have sp: "store_path p" by (rule key_path_store [OF p(1)]) simp
  with p write_atomic_outcome(3) [OF w sp refl] show ?thesis by simp
qed

lemma get_trace_stored:
  assumes "key_path (st_traces st) key ''json'' = Inr p" "fs_files s p = Some bytes" "io_read io p = None"
  shows "get_trace io from_slice st s key = map_err JsonError (from_slice bytes)"
  using assms by (simp add: get_trace_def fs_read_def)

text \<open>The contract of a content-addressed store, and what a client may conclude from it: once content
  is stored under a key, every later look-up returns it, whatever is put in between.\<close>

definition puts :: "('s \<Rightarrow> string \<Rightarrow> string \<Rightarrow> 's \<times> 'r) \<Rightarrow> 's \<Rightarrow> (string \<times> string) list \<Rightarrow> 's" where
  "puts put s kvs = foldl (\<lambda>s (k, v). fst (put s k v)) s kvs"

locale content_store =
  fixes put :: "'s \<Rightarrow> string \<Rightarrow> string \<Rightarrow> 's \<times> ('e + unit)"
    and get :: "'s \<Rightarrow> string \<Rightarrow> 'e + string"
    and conflict :: "string \<Rightarrow> 'e"
  assumes put_get: "put s k v = (s', Inr ()) \<Longrightarrow> utf8_valid v \<Longrightarrow> get s' k = Inr v"
    and put_keeps: "put s k v = (s', r) \<Longrightarrow> get s k' = Inr x \<Longrightarrow> get s' k' = Inr x"
    and put_same: "get s k = Inr v \<Longrightarrow> put s k v = (s, Inr ())"
    and put_conflict: "get s k = Inr x \<Longrightarrow> x \<noteq> v \<Longrightarrow> put s k v = (s, Inl (conflict k))"
begin

lemma puts_keep: "get s k = Inr x \<Longrightarrow> get (puts put s kvs) k = Inr x"
  unfolding puts_def
proof (induction kvs arbitrary: s)
  case Nil
  then show ?case by simp
next
  case (Cons kv kvs)
  obtain a b where kv: "kv = (a, b)" by fastforce
  have "get (fst (put s a b)) k = Inr x" using put_keeps [OF _ Cons.prems, of a b] by (metis prod.collapse)
  with Cons.IH kv show ?case by simp
qed

theorem stored_content_persists:
  "put s k v = (s', Inr ()) \<Longrightarrow> utf8_valid v \<Longrightarrow> get (puts put s' kvs) k = Inr v"
  by (rule puts_keep) (rule put_get)

theorem second_content_refused:
  "put s k v = (s', Inr ()) \<Longrightarrow> utf8_valid v \<Longrightarrow> v' \<noteq> v \<Longrightarrow>
     put (puts put s' kvs) k v' = (puts put s' kvs, Inl (conflict k))"
  by (rule put_conflict [OF stored_content_persists]) auto

end

lemma get_program_Inr:
  "get_program io st s k = Inr c \<longleftrightarrow>
     (\<exists>p. key_path (st_programs st) k ''lua'' = Inr p \<and> io_read io p = None \<and>
        fs_files s p = Some c \<and> utf8_valid c)"
  by (auto simp: get_program_def result_simps fs_read_to_string_Inr)

lemma get_description_Inr:
  "get_description io st s k = Inr c \<longleftrightarrow>
     (\<exists>p. key_path (st_descriptions st) k ''txt'' = Inr p \<and> io_read io p = None \<and>
        fs_files s p = Some c \<and> utf8_valid c)"
  by (auto simp: get_description_def result_simps fs_read_to_string_Inr)

lemma keeps_key:
  "keeps s s' \<Longrightarrow> key_path dir k ext = Inr p \<Longrightarrow> CHR ''/'' \<notin> set ext \<Longrightarrow> fs_files s p = Some c \<Longrightarrow>
     fs_files s' p = Some c"
  using key_path_store by (auto simp: keeps_def store_path_def)

lemma put_program_Inr:
  assumes "put_program io st s k v = (s', Inr u)"
  shows "\<exists>p. key_path (st_programs st) k ''lua'' = Inr p \<and> io_read io p = None \<and> fs_files s' p = Some v"
proof -
  from assms obtain p where p: "key_path (st_programs st) k ''lua'' = Inr p"
    and c: "put_content_addressed io s p ''program'' k v = (s', Inr u)"
    by (auto simp: put_program_def split: sum.splits)
  from put_content_Inr [OF c key_path_store [OF p]] p show ?thesis by simp
qed

lemma put_description_Inr:
  assumes "put_description io st s k v = (s', Inr u)"
  shows "\<exists>p. key_path (st_descriptions st) k ''txt'' = Inr p \<and> io_read io p = None \<and> fs_files s' p = Some v"
proof -
  from assms obtain p where p: "key_path (st_descriptions st) k ''txt'' = Inr p"
    and c: "put_content_addressed io s p ''description'' k v = (s', Inr u)"
    by (auto simp: put_description_def split: sum.splits)
  from put_content_Inr [OF c key_path_store [OF p]] p show ?thesis by simp
qed

lemma put_program_Conflict:
  assumes "put_program io st s k v = (s', Inl (Conflict a b))"
  shows "\<exists>p. \<not> is_tmp p \<and> fs_files s p \<noteq> None"
proof (cases "key_path (st_programs st) k ''lua''")
  case (Inl e)
  then have "e = InvalidKey k" by (simp add: key_path_Inl)
  with Inl assms show ?thesis by (simp add: put_program_def)
next
  case (Inr p)
  with assms have "put_content_addressed io s p ''program'' k v = (s', Inl (Conflict a b))"
    by (simp add: put_program_def)
  moreover have "\<not> is_tmp p" using key_path_store [OF Inr] by (simp add: store_path_def)
  ultimately show ?thesis using put_content_Conflict by blast
qed

interpretation programs: content_store "put_program io st" "get_program io st" "Conflict ''program''"
  for io st
proof unfold_locales
  show "get_program io st s' k = Inr v" if "put_program io st s k v = (s', Inr ())" "utf8_valid v" for s s' k v
    using put_program_Inr [OF that(1)] that(2) by (auto simp: get_program_Inr)
  show "get_program io st s' k' = Inr x"
    if "put_program io st s k v = (s', r)" "get_program io st s k' = Inr x" for s s' k v r k' x
    using that(2) keeps_key [OF put_program_keeps [OF that(1)]] by (auto simp: get_program_Inr)
qed (auto simp: get_program_Inr put_program_def put_content_same put_content_conflict)

interpretation descriptions:
  content_store "put_description io st" "get_description io st" "Conflict ''description''"
  for io st
proof unfold_locales
  show "get_description io st s' k = Inr v" if "put_description io st s k v = (s', Inr ())" "utf8_valid v" for s s' k v
    using put_description_Inr [OF that(1)] that(2) by (auto simp: get_description_Inr)
  show "get_description io st s' k' = Inr x"
    if "put_description io st s k v = (s', r)" "get_description io st s k' = Inr x" for s s' k v r k' x
    using that(2) keeps_key [OF put_description_keeps [OF that(1)]] by (auto simp: get_description_Inr)
qed (auto simp: get_description_Inr put_description_def put_content_same put_content_conflict)

section \<open>Facts: a store that works\<close>

text \<open>The directories are there and no temporary file is left over: then, when no operation fails,
  every put goes through or is answered by what is already stored.\<close>

definition store_ready :: "trace_store \<Rightarrow> fs \<Rightarrow> bool" where
  "store_ready st s \<longleftrightarrow>
     st_traces st \<in> set (fs_dirs s) \<and> st_programs st \<in> set (fs_dirs s) \<and> st_descriptions st \<in> set (fs_dirs s) \<and>
     (\<forall>q. is_tmp q \<longrightarrow> fs_files s q = None)"

lemma write_atomic_ready:
  assumes "io_quiet io" "store_ready st s" "valid_key key" "p = dir @ [key @ ''.'' @ ext]"
    and "dir \<in> {st_traces st, st_programs st, st_descriptions st}"
  obtains s' where "write_atomic io s p bytes = (s', Inr ())" "fs_files s' = (fs_files s)(p \<mapsto> bytes)"
    "fs_dirs s' = fs_dirs s" "store_ready st s'"
proof -
  have sp: "store_path p" using assms(3,4) store_path_key by simp
  have "snd (write_atomic io s p bytes) = Inr ()"
    by (rule write_atomic_succeeds [OF assms(1) sp]) (use assms(2,4,5) in \<open>auto simp: store_ready_def\<close>)
  then obtain s' where w: "write_atomic io s p bytes = (s', Inr ())" by (metis prod.collapse)
  from write_atomic_outcome [OF w sp] have s': "fs_files s' = (fs_files s)(p \<mapsto> bytes)" "fs_dirs s' = fs_dirs s"
    by auto
  moreover from s' assms(2) sp have "store_ready st s'" by (auto simp: store_ready_def store_path_def)
  ultimately show ?thesis using w that by blast
qed

lemma put_content_ready:
  assumes "io_quiet io" "store_ready st s" "valid_key key" "p = dir @ [key @ ''.'' @ ext]"
    and "dir \<in> {st_traces st, st_programs st, st_descriptions st}"
  obtains s' r where "put_content_addressed io s p kind key content = (s', r)"
    "r = Inr () \<or> (r = Inl (Conflict kind key) \<and> fs_files s p \<notin> {None, Some content})"
    "\<And>q. q \<noteq> p \<Longrightarrow> fs_files s' q = fs_files s q" "fs_dirs s' = fs_dirs s" "store_ready st s'"
proof (cases "fs_files s p")
  case None
  obtain s' where "write_atomic io s p content = (s', Inr ())" "fs_files s' = (fs_files s)(p \<mapsto> content)"
    "fs_dirs s' = fs_dirs s" "store_ready st s'"
    using assms by (rule write_atomic_ready)
  with None assms(1) that [of s' "Inr ()"] show ?thesis
    by (simp add: put_content_addressed_def fs_read_def io_quiet_def)
next
  case (Some c)
  with assms(1,2) that [of s "if c = content then Inr () else Inl (Conflict kind key)"] show ?thesis
    by (simp add: put_content_addressed_def fs_read_def io_quiet_def split: if_splits)
qed

section \<open>Properties\<close>

text \<open>A store directory with one program in it, on a file system where nothing fails.\<close>

definition sample_io :: io_env where
  "sample_io = \<lparr>io_pid = 1, io_stat = (\<lambda>_. False), io_read = (\<lambda>_. None), io_mkdir = (\<lambda>_. None),
     io_open = (\<lambda>_. None), io_write = (\<lambda>_. None), io_sync = (\<lambda>_. None), io_rename = (\<lambda>_. None),
     io_remove = (\<lambda>_. None)\<rparr>"

definition sample_store :: trace_store where
  "sample_store = \<lparr>st_traces = [''d'', ''traces''], st_programs = [''d'', ''programs''],
     st_descriptions = [''d'', ''descriptions'']\<rparr>"

definition sample_fs :: fs where
  "sample_fs = \<lparr>fs_files = [[''d'', ''programs'', ''cd.lua''] \<mapsto> ''old''],
     fs_dirs = [[''d''], [''d'', ''traces''], [''d'', ''programs''], [''d'', ''descriptions'']],
     fs_counter = 0\<rparr>"

text \<open>C11: the store is append-only, as far as it can see. Whatever traces, programs and descriptions are
  put, and whichever file operations fail on the way, look-ups included, a stored file is still there
  afterwards; and it has its content, unless \<open>put_trace\<close> was called for the very id it is the trace of and
  the look-up whether that trace exists failed (\<open>Path::exists\<close> answers no then).\<close>

theorem store_append_only:
  assumes "fs_files s q = Some c" and "\<not> is_tmp q"
  shows "fs_files (run_ops w st ops s) q \<noteq> None \<and>
     (fs_files (run_ops w st ops s) q = Some c \<or> (\<exists>x \<in> set ops. failed_look_up st x q))"
proof -
  have "fs_files (run_ops w st ops s) q = Some c \<or>
      ((\<exists>x \<in> set ops. failed_look_up st x q) \<and> fs_files (run_ops w st ops s) q \<noteq> None)"
    using run_ops_keeps_but [of ops st s w] assms unfolding keeps_but_def by blast
  then show ?thesis by auto
qed

theorem store_append_only_witness:
  "\<forall>w. fs_files (run_ops w sample_store [(sample_io, PutProgram ''ab'' ''x''), (sample_io, PutProgram ''cd'' ''y'')] sample_fs)
     [''d'', ''programs'', ''cd.lua''] = Some ''old''"
proof
  fix w
  let ?ops = "[(sample_io, PutProgram ''ab'' ''x''), (sample_io, PutProgram ''cd'' ''y'')]"
  let ?q = "[''d'', ''programs'', ''cd.lua'']"
  have "fs_files sample_fs ?q = Some ''old''" "\<not> is_tmp ?q"
    by (simp_all add: sample_fs_def is_tmp_def starts_with_def)
  from store_append_only [OF this, of w sample_store ?ops]
  show "fs_files (run_ops w sample_store ?ops sample_fs) ?q = Some ''old''"
    by (simp add: failed_look_up_def)
qed

text \<open>C21: a write is all or nothing. On success the target holds exactly the bytes and every other file
  is as before, with no temporary file left; on failure every file but the temporary one is as before.\<close>

theorem write_all_or_nothing:
  assumes "key_path dir key ext = Inr p" and "CHR ''/'' \<notin> set ext"
    and "write_atomic io s p bytes = (s', r)"
  shows "case r of
           Inr _ \<Rightarrow> fs_files s' = (fs_files s)(p \<mapsto> bytes)
         | Inl _ \<Rightarrow> \<forall>q. q \<noteq> tmp_path io s p \<longrightarrow> fs_files s' q = fs_files s q"
  using write_atomic_outcome [OF assms(3) key_path_store [OF assms(1,2)]]
  by (auto split: sum.splits)

theorem write_all_or_nothing_witness:
  "fs_files (fst (write_atomic sample_io sample_fs [''d'', ''programs'', ''ab.lua''] ''new''))
     = (fs_files sample_fs)([''d'', ''programs'', ''ab.lua''] \<mapsto> ''new'')"
proof -
  let ?p = "[''d'', ''programs'', ''ab.lua'']"
  have p: "key_path [''d'', ''programs''] ''ab'' ''lua'' = Inr ?p" by code_simp
  obtain s' r where w: "write_atomic sample_io sample_fs ?p ''new'' = (s', r)" by fastforce
  have "snd (write_atomic sample_io sample_fs ?p ''new'') = Inr ()"
    by (rule write_atomic_succeeds)
      (simp_all add: io_quiet_def sample_io_def key_path_store [OF p] sample_fs_def tmp_path_def tmp_name_def)
  with w write_all_or_nothing [OF p _ w] show ?thesis by simp
qed

text \<open>A program, once stored under its hash, is what every later look-up returns, whatever is put under
  whatever key in between, and an attempt to store another text under that key is refused and changes
  nothing.\<close>

theorem stored_program_persists:
  assumes "put_program io st s k v = (s', Inr ())" and "utf8_valid v" and "v' \<noteq> v"
  shows "get_program io st (puts (put_program io st) s' kvs) k = Inr v \<and>
     put_program io st (puts (put_program io st) s' kvs) k v' =
       (puts (put_program io st) s' kvs, Inl (Conflict ''program'' k))"
  using programs.stored_content_persists [OF assms(1,2)] programs.second_content_refused [OF assms] by simp

text \<open>The program store as what it stands for: a map from hashes to sources in which an entry, once
  made, is final.\<close>

definition write_once :: "('k \<rightharpoonup> 'v) \<Rightarrow> 'k \<Rightarrow> 'v \<Rightarrow> ('k \<rightharpoonup> 'v) \<times> bool" where
  "write_once m k v = (case m k of None \<Rightarrow> (m(k \<mapsto> v), True) | Some v' \<Rightarrow> (m, v' = v))"

definition stored_programs :: "trace_store \<Rightarrow> fs \<Rightarrow> string \<rightharpoonup> string" where
  "stored_programs st s k =
     (case key_path (st_programs st) k ''lua'' of Inr p \<Rightarrow> fs_files s p | Inl _ \<Rightarrow> None)"

lemma stored_programs_at:
  "stored_programs st s k = (if valid_key k then fs_files s (st_programs st @ [k @ ''.lua'']) else None)"
proof (cases "valid_key k")
  case True
  then have "key_path (st_programs st) k ''lua'' = Inr (st_programs st @ [k @ ''.lua''])" by (simp add: key_path_Inr)
  with True show ?thesis by (simp add: stored_programs_def)
next
  case False
  then have "key_path (st_programs st) k ''lua'' = Inl (InvalidKey k)" by (simp add: key_path_Inl)
  with False show ?thesis by (simp add: stored_programs_def)
qed

text \<open>C8: the program store refines that map. When no file operation fails, putting a program is the
  abstract write: a free hash gets the source, a taken one keeps its own, and the outcome tells the two
  apart; and the store stays ready for the next operation.\<close>

theorem program_store_refines:
  assumes "io_quiet io" and "store_ready st s" and "valid_key k"
    and "put_program io st s k v = (s', r)"
  shows "stored_programs st s' = fst (write_once (stored_programs st s) k v) \<and>
     r = (if snd (write_once (stored_programs st s) k v) then Inr () else Inl (Conflict ''program'' k)) \<and>
     store_ready st s'"
proof -
  let ?p = "st_programs st @ [k @ ''.'' @ ''lua'']"
  have kp: "key_path (st_programs st) k ''lua'' = Inr ?p" using assms(3) by (simp add: key_path_Inr)
  with assms(4) have put: "put_content_addressed io s ?p ''program'' k v = (s', r)" by (simp add: put_program_def)
  obtain s1 r1 where "put_content_addressed io s ?p ''program'' k v = (s1, r1)"
    and r1: "r1 = Inr () \<or> (r1 = Inl (Conflict ''program'' k) \<and> fs_files s ?p \<notin> {None, Some v})"
    and frame: "\<And>q. q \<noteq> ?p \<Longrightarrow> fs_files s1 q = fs_files s q" and ready: "store_ready st s1"
    by (rule put_content_ready [where p = ?p and dir = "st_programs st" and ext = "''lua''", OF assms(1-3)])
      (simp, simp, rule that)
  with put have same: "s1 = s'" "r1 = r" by auto
  have keep: "fs_files s ?p = Some c \<Longrightarrow> fs_files s' ?p = Some c" for c
    using keeps_key [OF put_program_keeps [OF assms(4)] kp] by simp
  have new: "r = Inr () \<Longrightarrow> fs_files s' ?p = Some v"
    using put_program_Inr [of io st s k v s'] assms(4) kp by auto
  have here: "stored_programs st s k = fs_files s ?p" "stored_programs st s' k = fs_files s' ?p"
    using assms(3) by (simp_all add: stored_programs_at)
  have other: "stored_programs st s' k' = stored_programs st s k'" if "k' \<noteq> k" for k'
    using frame [of "st_programs st @ [k' @ ''.lua'']"] that same(1) by (simp add: stored_programs_at)
  have "stored_programs st s' = fst (write_once (stored_programs st s) k v) \<and>
      r = (if snd (write_once (stored_programs st s) k v) then Inr () else Inl (Conflict ''program'' k))"
  proof (cases "fs_files s ?p")
    case None
    with r1 same have "r = Inr ()" by auto
    with None new here other show ?thesis by (auto simp: write_once_def fun_eq_iff)
  next
    case (Some c)
    moreover from Some keep have "fs_files s' ?p = Some c" by blast
    moreover have "r = Inr () \<longleftrightarrow> c = v" using Some r1 same new keep by force
    moreover have "stored_programs st s' = stored_programs st s"
    proof
      show "stored_programs st s' k' = stored_programs st s k'" for k'
        using other here Some \<open>fs_files s' ?p = Some c\<close> by (cases "k' = k") simp_all
    qed
    ultimately show ?thesis using r1 same here by (auto simp: write_once_def)
  qed
  with ready same show ?thesis by blast
qed

theorem program_store_refines_witness:
  "let s' = fst (put_program sample_io sample_store sample_fs ''ab'' ''return 1'')
   in stored_programs sample_store s' = (stored_programs sample_store sample_fs)(''ab'' \<mapsto> ''return 1'') \<and>
      stored_programs sample_store s' ''cd'' = Some ''old''"
proof -
  obtain s' r where put: "put_program sample_io sample_store sample_fs ''ab'' ''return 1'' = (s', r)" by fastforce
  have quiet: "io_quiet sample_io" by (simp add: io_quiet_def sample_io_def)
  have ready: "store_ready sample_store sample_fs"
    by (auto simp: store_ready_def sample_store_def sample_fs_def is_tmp_def starts_with_def)
  have key: "valid_key ''ab''" by code_simp
  have old: "stored_programs sample_store sample_fs ''ab'' = None" "stored_programs sample_store sample_fs ''cd'' = Some ''old''"
    by code_simp+
  from program_store_refines [OF quiet ready key put] old
  have "stored_programs sample_store s' = (stored_programs sample_store sample_fs)(''ab'' \<mapsto> ''return 1'')"
    by (simp add: write_once_def)
  with old put show ?thesis by (simp add: Let_def)
qed

text \<open>C30: a key names a file of its own directory and nothing else: the path is the directory and one
  more component without a separator, which is neither the directory itself nor its parent.\<close>

theorem store_keys_confined:
  assumes "key_path dir key ext = Inr p" and "CHR ''/'' \<notin> set ext"
  shows "\<exists>file. p = dir @ [file] \<and> CHR ''/'' \<notin> set file \<and> file \<noteq> ''.'' \<and> file \<noteq> ''..'' \<and> file \<noteq> []"
proof -
  from assms have v: "valid_key key" and p: "p = dir @ [key @ ''.'' @ ext]" by (auto simp: key_path_Inr)
  from v obtain c k where k: "key = c # k" by (cases key) (auto simp: valid_key_def)
  with key_char [OF v] have "c \<noteq> CHR ''.''" "CHR ''/'' \<notin> set key" by auto
  with k p assms(2) show ?thesis by auto
qed

theorem store_keys_confined_witness:
  "key_path [''d''] ''00-ff'' ''json'' = Inr [''d'', ''00-ff.json''] \<and>
   (\<exists>file. [''d'', ''00-ff.json''] = [''d''] @ [file] \<and> file \<noteq> ''..'')"
proof -
  have p: "key_path [''d''] ''00-ff'' ''json'' = Inr [''d'', ''00-ff.json'']" by code_simp
  from store_keys_confined [OF p] p show ?thesis by auto
qed

end
