(* ===== verification/Execute_Engine.thy ===== *)
theory Execute_Engine
  imports Tool_Host Tool_Description Trace_Store
begin

text \<open>
  \<open>src/engine.rs\<close>: starting the engine, linting, and executing one program: compile it behind its
  prelude, store program and description, run it over a host, sign and store the trace, answer.

  \<open>execute\<close> is one function on the file system and the world behind the downstream servers. The fresh
  trace id (a UUID) is an argument. A panic of the sources, be it an \<open>expect\<close>, the assertion on the two
  logs or the compiler's, is the error \<open>PanicE\<close>; the effects before it stay.
\<close>

section \<open>Data\<close>

record execute_request =
  rq_program :: string
  rq_session :: "string option"
  rq_request :: "string option"

record execute_response =
  rs_result :: "json option"
  rs_trace_id :: string
  rs_status :: run_status

datatype execute_error = LintE lint_error | StoreE store_error | PanicE string

record engine =
  en_vm :: vm_settings
  en_policy :: policy
  en_downstreams :: downstreams
  en_store :: trace_store
  en_signing_key :: "u8 list"

definition VM_VERSION :: string where
  "VM_VERSION = ''proveno-core v0.4.0''"

section \<open>Names\<close>

definition LUA_KEYWORDS :: "string list" where
  "LUA_KEYWORDS =
     [''and'', ''break'', ''do'', ''else'', ''elseif'', ''end'', ''false'', ''for'', ''function'', ''goto'',
      ''if'', ''in'', ''local'', ''nil'', ''not'', ''or'', ''repeat'', ''return'', ''then'', ''true'',
      ''until'', ''while'']"

definition DIALECT_NAMES :: "string list" where
  "DIALECT_NAMES =
     [''tool'', ''string'', ''math'', ''table'', ''json'', ''tostring'', ''tonumber'', ''type'', ''select'',
      ''unpack'', ''pairs_sorted'', ''pairs'', ''ipairs'', ''pcall'', ''error'', ''log'', ''print'',
      ''debug'', ''io'', ''os'', ''package'', ''require'', ''load'', ''dofile'', ''loadfile'',
      ''loadstring'', ''collectgarbage'', ''setmetatable'', ''getmetatable'', ''rawget'', ''rawset'',
      ''setfenv'', ''getfenv'', ''coroutine'']"

definition is_name :: "string \<Rightarrow> bool" where
  "is_name s =
     (case s of
        [] \<Rightarrow> False
      | c # cs \<Rightarrow>
          (is_ascii_alphabetic c \<or> c = CHR ''_'') \<and>
          list_all (\<lambda>d. is_ascii_alphabetic d \<or> is_ascii_digit d \<or> d = CHR ''_'') cs \<and>
          s \<notin> set LUA_KEYWORDS)"

definition check_lua_names :: "tool_schema \<Rightarrow> string + unit" where
  "check_lua_names tool =
     (if \<not> is_name (ts_server tool) \<or> ts_server tool \<in> set DIALECT_NAMES
      then Inl (''tool '' @ qualified_name tool @ '': downstream name `'' @ ts_server tool
                @ ''` is not usable as a Lua name'')
      else if \<not> is_name (ts_name tool)
      then Inl (''tool '' @ qualified_name tool @ '': tool name `'' @ ts_name tool
                @ ''` is not usable as a Lua field name'')
      else Inr ())"

definition allowed_schemas :: "engine \<Rightarrow> string \<Rightarrow> tool_schema list" where
  "allowed_schemas en who =
     filter (\<lambda>t. qualified_name t \<in> set (allowed_tools (en_policy en) who)) (ds_tools (en_downstreams en))"

section \<open>Starting\<close>

text \<open>Each way \<open>Engine::new\<close> can fail, in its order.\<close>

datatype start_error =
    PolicyFailed string
  | ConnectFailed string
  | StoreFailed path store_error
  | SigningKeyUnset string
  | SigningKeyBad trace_error
  | TokenUnset string string
  | NameUnusable string string

text \<open>What starting works with: the readers of the policy file, the servers, the environment.\<close>

record start_env =
  se_toml :: "string \<Rightarrow> string + policy_file_toml"
  se_read :: "path \<Rightarrow> string + string"
  se_serve :: "launch \<Rightarrow> mcp_failure + mcp_tool list"
  se_env :: "string \<Rightarrow> string option"
  se_osenv :: "string \<Rightarrow> string option"

fun resolve_tokens :: "(string \<Rightarrow> string option) \<Rightarrow> (string \<times> principal_config) list \<Rightarrow> start_error + unit" where
  "resolve_tokens env [] = Inr ()"
| "resolve_tokens env ((name, p) # ps) =
     (case secret_resolve env (pc_token p) of
        Inl e \<Rightarrow> Inl (TokenUnset name e)
      | Inr _ \<Rightarrow> resolve_tokens env ps)"

fun check_tools :: "string \<Rightarrow> tool_schema list \<Rightarrow> start_error + unit" where
  "check_tools who [] = Inr ()"
| "check_tools who (t # ts) =
     (case check_lua_names t of Inl e \<Rightarrow> Inl (NameUnusable who e) | Inr _ \<Rightarrow> check_tools who ts)"

fun check_principals :: "engine \<Rightarrow> string list \<Rightarrow> start_error + unit" where
  "check_principals en [] = Inr ()"
| "check_principals en (who # rest) =
     (case check_tools who (allowed_schemas en who) of Inl e \<Rightarrow> Inl e | Inr _ \<Rightarrow> check_principals en rest)"

definition engine_new ::
  "crypto \<Rightarrow> start_env \<Rightarrow> io_env \<Rightarrow> gateway_config \<Rightarrow> fs \<Rightarrow> fs \<times> (start_error + engine)" where
  "engine_new cr se io config s =
     (case policy_load (se_toml se) (se_read se) (policy_file (gc_policy config)) of
        Inl e \<Rightarrow> (s, Inl (PolicyFailed e))
      | Inr pol \<Rightarrow>
          (case downstreams_connect (se_serve se) (se_env se) (se_osenv se) (gc_downstream config) of
             Inl e \<Rightarrow> (s, Inl (ConnectFailed e))
           | Inr ds \<Rightarrow>
               (case store_open io s (store_dir (gc_store config)) of
                  (s', Inl e) \<Rightarrow> (s', Inl (StoreFailed (store_dir (gc_store config)) e))
                | (s', Inr st) \<Rightarrow>
                    (s',
                     bind_r (map_err SigningKeyUnset (secret_resolve (se_env se) (signing_key (gc_server config)))) (\<lambda>hex.
                     bind_r (map_err SigningKeyBad (signing_key_from_hex cr hex)) (\<lambda>key.
                     bind_r (resolve_tokens (se_env se) (gc_principals config)) (\<lambda>_.
                       let en = \<lparr>en_vm = gc_vm config, en_policy = pol, en_downstreams = ds, en_store = st,
                                 en_signing_key = key\<rparr>
                       in bind_r (check_principals en (map fst (gc_principals config))) (\<lambda>_. Inr en))))))))"

section \<open>Linting\<close>

definition description_for :: "crypto \<Rightarrow> engine \<Rightarrow> string \<Rightarrow> tool_description" where
  "description_for cr en who = build cr (allowed_schemas en who)"

definition engine_check ::
  "('t, 'b, 'p, 'k, 'z) core_scheme \<Rightarrow> crypto \<Rightarrow> engine \<Rightarrow> string \<Rightarrow> string \<Rightarrow> lint_failure + unit" where
  "engine_check co cr en who program =
     bind_r (compile_program co (td_prelude (description_for cr en who)) program) (\<lambda>_. Inr ())"

section \<open>Results of a run\<close>

text \<open>\<open>output_json\<close>; the outer alternative is its \<open>expect\<close>.\<close>

definition output_json ::
  "('t, 'z) lua_core_scheme \<Rightarrow> 't lua_value \<Rightarrow> u64 \<Rightarrow> string + ('t vm_error + string)" where
  "output_json co v max_bytes =
     (case canonical_serialize co v of
        Inl e \<Rightarrow> Inr (Inl (canon_vm_error e))
      | Inr bytes \<Rightarrow>
          if length bytes > unat max_bytes then Inr (Inl OutputExceeded)
          else (case from_utf8 bytes of
                  Some text \<Rightarrow> Inr (Inr text)
                | None \<Rightarrow> Inl ''canonical JSON is ASCII''))"

definition lua_message :: "('t, 'z) lua_core_scheme \<Rightarrow> 't lua_value \<Rightarrow> string" where
  "lua_message co v =
     (case v of
        LString s \<Rightarrow> from_utf8_lossy s
      | other \<Rightarrow>
          (case canonical_serialize co other of
             Inr bytes \<Rightarrow> from_utf8_lossy bytes
           | Inl _ \<Rightarrow> lua_debug co other))"

fun error_status :: "('t, 'z) lua_core_scheme \<Rightarrow> 't vm_error \<Rightarrow> u32 \<Rightarrow> run_status" where
  "error_status co (WithLine line inner) prelude_lines =
     (case error_status co inner prelude_lines of
        RunError kind message \<Rightarrow>
          RunError kind (if line > prelude_lines
                         then ''line '' @ show_nat (unat (line - prelude_lines)) @ '': '' @ message
                         else message)
      | RunOk \<Rightarrow> RunOk)"
| "error_status co GasExhausted pl = RunError ''GasExhausted'' ''gas exhausted''"
| "error_status co MemoryExhausted pl = RunError ''MemoryExhausted'' ''memory exhausted''"
| "error_status co CallDepthExceeded pl = RunError ''CallDepthExceeded'' ''call depth exceeded''"
| "error_status co (TypeError m) pl = RunError ''TypeError'' m"
| "error_status co (RuntimeError v) pl = RunError ''RuntimeError'' (lua_message co v)"
| "error_status co (ToolError m) pl = RunError ''ToolError'' m"
| "error_status co OutputExceeded pl = RunError ''OutputExceeded'' ''output exceeded''"

definition run_outcome ::
  "('t, 'z) lua_core_scheme \<Rightarrow> u64 \<Rightarrow> u32 \<Rightarrow> 't vm_error + 't lua_value
     \<Rightarrow> string + (string option \<times> run_status)" where
  "run_outcome co max_bytes prelude_lines res =
     (case res of
        Inl e \<Rightarrow> Inr (None, error_status co e prelude_lines)
      | Inr v \<Rightarrow>
          (case output_json co v max_bytes of
             Inl p \<Rightarrow> Inl p
           | Inr (Inr json) \<Rightarrow> Inr (Some json, RunOk)
           | Inr (Inl e) \<Rightarrow> Inr (None, error_status co e prelude_lines)))"

section \<open>Executing\<close>

definition zip_entries :: "tool_call_record list \<Rightarrow> (call_decision \<times> provenance) list \<Rightarrow> trace_entry list" where
  "zip_entries transcript log =
     map (\<lambda>(r, d, p). \<lparr>te_record = r, te_decision = d, te_provenance = p\<rparr>) (zip transcript log)"

definition log_assertion :: "nat \<Rightarrow> nat \<Rightarrow> string" where
  "log_assertion a b =
     ''bug: core recorded '' @ show_nat a @ '' tool calls but the host saw '' @ show_nat b"

definition run_program ::
  "('t, 'b, 'p, 'k, 'z) core_scheme \<Rightarrow> 'w host_env \<Rightarrow> engine \<Rightarrow> string \<Rightarrow> tool_schema list \<Rightarrow> u32 \<Rightarrow> 'p \<Rightarrow> 'w
     \<Rightarrow> 'w \<times> (string + (trace_entry list \<times> string option \<times> run_status \<times> u64 \<times> u64))" where
  "run_program co env en who allowed prelude_lines program w =
     (case run_vm (host_call_tool co env) host_take_attestation
             (core_execute co (vm_config_of (en_vm en)) program)
             (host_new who (en_downstreams en) allowed (en_policy en), w) [] of
        ((h, w'), transcript, res, gas, mem) \<Rightarrow>
          (w',
           bind_r (run_outcome co (max_output_bytes (en_vm en)) prelude_lines res) (\<lambda>(out, status).
             if length transcript \<noteq> length (gh_log h)
             then Inl (log_assertion (length transcript) (length (gh_log h)))
             else Inr (zip_entries transcript (gh_log h), out, status, gas, mem))))"

definition make_header ::
  "crypto \<Rightarrow> serde \<Rightarrow> engine \<Rightarrow> string \<Rightarrow> execute_request \<Rightarrow> string \<Rightarrow> string \<Rightarrow> string \<Rightarrow> trace_header" where
  "make_header cr sd en who req tid phash dhash =
     \<lparr>trace_id = tid, th_session = rq_session req, th_principal = who, program_hash = phash,
      gateway_policy_hash = hex_encode cr (policy_hash cr sd (en_policy en)), description_hash = dhash,
      vm_version = VM_VERSION, th_vm_config = en_vm en, th_request = rq_request req\<rparr>"

definition make_trace ::
  "crypto \<Rightarrow> trace_writer \<Rightarrow> engine \<Rightarrow> trace_header
     \<Rightarrow> trace_entry list \<times> string option \<times> run_status \<times> u64 \<times> u64 \<Rightarrow> trace" where
  "make_trace cr tw en header run =
     (case run of (entries, out, status, gas, mem) \<Rightarrow>
       trace_sign cr tw (en_signing_key en)
         \<lparr>tr_header = header, tr_entries = entries,
          tr_footer = \<lparr>tf_output = out, tf_status = status, tf_gas_used = gas, tf_memory_used = mem,
                       tf_signature = []\<rparr>\<rparr>)"

definition finish ::
  "crypto \<Rightarrow> trace_writer \<Rightarrow> serde \<Rightarrow> io_env \<Rightarrow> engine \<Rightarrow> trace_header \<Rightarrow> fs
     \<Rightarrow> trace_entry list \<times> string option \<times> run_status \<times> u64 \<times> u64
     \<Rightarrow> fs \<times> (execute_error + execute_response)" where
  "finish cr tw sd io en header s run =
     (let t = make_trace cr tw en header run;
          answer = (\<lambda>v. \<lparr>rs_result = v, rs_trace_id = trace_id header, rs_status = fst (snd (snd run))\<rparr>)
      in case put_trace io tw (en_store en) s t of
           (s', Inl e) \<Rightarrow> (s', Inl (StoreE e))
         | (s', Inr _) \<Rightarrow>
             (s', case tf_output (tr_footer t) of
                    None \<Rightarrow> Inr (answer None)
                  | Some json \<Rightarrow>
                      (case json_parse sd json of
                         Inl e \<Rightarrow> Inl (PanicE (''canonical output is valid JSON: '' @ e))
                       | Inr v \<Rightarrow> Inr (answer (Some v)))))"

definition execute ::
  "('t, 'b, 'p, 'k, 'z) core_scheme \<Rightarrow> crypto \<Rightarrow> trace_writer \<Rightarrow> io_env \<Rightarrow> 'w host_env \<Rightarrow> engine \<Rightarrow> string
     \<Rightarrow> string \<Rightarrow> execute_request \<Rightarrow> fs \<times> 'w \<Rightarrow> (fs \<times> 'w) \<times> (execute_error + execute_response)" where
  "execute co cr tw io env en tid who req sw =
     (case sw of (s, w) \<Rightarrow>
       (let allowed = allowed_schemas en who;
            description = build cr allowed
        in case compile_program co (td_prelude description) (rq_program req) of
             Inl (Lint e) \<Rightarrow> ((s, w), Inl (LintE e))
           | Inl (LintPanic m) \<Rightarrow> ((s, w), Inl (PanicE m))
           | Inr program \<Rightarrow>
               (let phash = hex_encode cr (core_program_hash co program);
                    dhash = hex_encode cr (td_hash description);
                    source = td_prelude description @ rq_program req
                in case put_program io (en_store en) s phash source of
                     (s1, r1) \<Rightarrow>
                       (case (case r1 of Inl (Conflict k c) \<Rightarrow> Inr () | other \<Rightarrow> other) of
                          Inl e \<Rightarrow> ((s1, w), Inl (StoreE e))
                        | Inr _ \<Rightarrow>
                            (case put_description io (en_store en) s1 dhash (td_text description) of
                               (s2, Inl e) \<Rightarrow> ((s2, w), Inl (StoreE e))
                             | (s2, Inr _) \<Rightarrow>
                                 (case run_program co env en who allowed
                                         (word_of_nat (count_char NL (td_prelude description))) program w of
                                    (w', Inl p) \<Rightarrow> ((s2, w'), Inl (PanicE p))
                                  | (w', Inr run) \<Rightarrow>
                                      (case finish cr tw (he_serde env) io en
                                              (make_header cr (he_serde env) en who req tid phash dhash) s2 run of
                                         (s3, r) \<Rightarrow> ((s3, w'), r))))))))"

section \<open>Facts: results\<close>

lemma error_status_error: "\<exists>k m. error_status co e pl = RunError k m"
proof (induction e)
  case (WithLine l e)
  then obtain k m where "error_status co e pl = RunError k m" by blast
  then show ?case by simp
qed auto

lemma run_outcome_Inr:
  assumes "run_outcome co mx pl res = Inr (out, status)"
  shows "out = Some json \<longleftrightarrow> status = RunOk \<and> (\<exists>v. res = Inr v \<and> canonical_serialize co v = Inr json \<and>
            length json \<le> unat mx \<and> utf8_valid json)"
  using assms error_status_error [of co _ pl]
  by (auto simp: run_outcome_def output_json_def from_utf8_def split: sum.splits if_splits option.splits)

lemma run_outcome_total:
  assumes "\<forall>v bytes. canonical_serialize co v = Inr bytes \<longrightarrow> utf8_valid bytes"
  shows "is_ok (run_outcome co mx pl res)"
  using assms
  by (auto simp: run_outcome_def output_json_def from_utf8_def split: sum.splits option.splits)

lemma length_zip_entries: "length a = length b \<Longrightarrow> length (zip_entries a b) = length a"
  by (simp add: zip_entries_def)

lemma zip_entries_parts:
  assumes "length a = length b"
  shows "map te_record (zip_entries a b) = a"
    and "map (\<lambda>e. (te_decision e, te_provenance e)) (zip_entries a b) = b"
proof -
  have fst: "map te_record (zip_entries a b) = map fst (zip a b)"
    by (simp add: zip_entries_def split_def o_def)
  have snd: "map (\<lambda>e. (te_decision e, te_provenance e)) (zip_entries a b) = map snd (zip a b)"
    by (simp add: zip_entries_def split_def o_def)
  show "map te_record (zip_entries a b) = a" "map (\<lambda>e. (te_decision e, te_provenance e)) (zip_entries a b) = b"
    using assms unfolding fst snd by simp_all
qed

section \<open>Facts: a run\<close>

lemma run_program_Inr:
  assumes "run_program co env en who allowed pl program w = (w', Inr (entries, out, status, gas, mem))"
  obtains h tr res where
    "run_vm (host_call_tool co env) host_take_attestation (core_execute co (vm_config_of (en_vm en)) program)
       (host_new who (en_downstreams en) allowed (en_policy en), w) [] = ((h, w'), tr, res, gas, mem)"
    "run_outcome co (max_output_bytes (en_vm en)) pl res = Inr (out, status)"
    "length tr = length (gh_log h)" "entries = zip_entries tr (gh_log h)"
  using assms by (auto simp: run_program_def result_simps split: prod.splits if_splits)

lemma run_program_world:
  assumes "run_program co env en who allowed pl program w = (w', r)"
  shows "(permitted_request env (host_new who (en_downstreams en) allowed (en_policy en)))\<^sup>*\<^sup>* w w'"
proof -
  obtain h tr out where run: "run_vm (host_call_tool co env) host_take_attestation
      (core_execute co (vm_config_of (en_vm en)) program)
      (host_new who (en_downstreams en) allowed (en_policy en), w) [] = ((h, w'), tr, out)"
    using assms by (auto simp: run_program_def split: prod.splits)
  from host_steps_world [OF confined_host.run_steps [OF run]] show ?thesis by simp
qed

lemma run_program_total:
  assumes "records_calls co (core_execute co (vm_config_of (en_vm en)) program)"
    and "\<forall>v bytes. canonical_serialize co v = Inr bytes \<longrightarrow> utf8_valid bytes"
  shows "is_ok (snd (run_program co env en who allowed pl program w))"
proof -
  let ?h = "(host_new who (en_downstreams en) allowed (en_policy en), w)"
  obtain h w' tr res gas mem where run: "run_vm (host_call_tool co env) host_take_attestation
      (core_execute co (vm_config_of (en_vm en)) program) ?h [] = ((h, w'), tr, res, gas, mem)"
    by (metis prod.collapse)
  have len: "length tr = length (gh_log h)"
    using gateway_host.transcript_matches_log [OF assms(1) run] by (simp add: host_new_def)
  obtain out status where "run_outcome co (max_output_bytes (en_vm en)) pl res = Inr (out, status)"
    using run_outcome_total [OF assms(2), of "max_output_bytes (en_vm en)" pl res]
    by (cases "run_outcome co (max_output_bytes (en_vm en)) pl res") auto
  with run len show ?thesis by (simp add: run_program_def)
qed

section \<open>Facts: finishing\<close>

lemma make_trace_parts [simp]:
  "tr_header (make_trace cr tw en header run) = header"
  "tr_entries (make_trace cr tw en header run) = fst run"
  "tf_output (tr_footer (make_trace cr tw en header run)) = fst (snd run)"
  "tf_status (tr_footer (make_trace cr tw en header run)) = fst (snd (snd run))"
  "tf_gas_used (tr_footer (make_trace cr tw en header run)) = fst (snd (snd (snd run)))"
  "tf_memory_used (tr_footer (make_trace cr tw en header run)) = snd (snd (snd (snd run)))"
  by (simp_all add: make_trace_def split: prod.splits)

lemma make_trace_verifies:
  "crypto_laws cr \<Longrightarrow>
     trace_verify cr tw (ed_verifying_key cr (en_signing_key en)) (make_trace cr tw en header run) = Inr ()"
  by (cases run) (simp add: make_trace_def trace_verify_signed)

lemma finish_Inr:
  assumes "finish cr tw sd io en header s run = (s', Inr resp)"
  shows "put_trace io tw (en_store en) s (make_trace cr tw en header run) = (s', Inr ()) \<and>
     rs_trace_id resp = trace_id header \<and> rs_status resp = fst (snd (snd run)) \<and>
     (case fst (snd run) of None \<Rightarrow> rs_result resp = None
      | Some json \<Rightarrow> \<exists>v. json_parse sd json = Inr v \<and> rs_result resp = Some v)"
  using assms by (auto simp: finish_def Let_def split: prod.splits sum.splits option.splits)

lemma finish_panic:
  assumes "finish cr tw sd io en header s run = (s', Inl (PanicE m))"
  shows "\<exists>json. fst (snd run) = Some json \<and> \<not> is_ok (json_parse sd json)"
  using assms by (auto simp: finish_def Let_def split: prod.splits sum.splits option.splits)

section \<open>Facts: executing\<close>

text \<open>The way through \<open>execute\<close> when the program compiles.\<close>

lemma execute_compiled:
  assumes "compile_program co (td_prelude (build cr (allowed_schemas en who))) (rq_program req) = Inr program"
    and "execute co cr tw io env en tid who req (s, w) = ((s', w'), r)"
  obtains (program_store) e where "r = Inl (StoreE e)" "w' = w"
  | (description_store) e where "r = Inl (StoreE e)" "w' = w"
  | (run) s1 r1 s2 q where
      "put_program io (en_store en) s (hex_encode cr (core_program_hash co program))
         (td_prelude (build cr (allowed_schemas en who)) @ rq_program req) = (s1, r1)"
      "r1 = Inr () \<or> (\<exists>k c. r1 = Inl (Conflict k c))"
      "put_description io (en_store en) s1 (hex_encode cr (td_hash (build cr (allowed_schemas en who))))
         (td_text (build cr (allowed_schemas en who))) = (s2, Inr ())"
      "run_program co env en who (allowed_schemas en who)
         (word_of_nat (count_char NL (td_prelude (build cr (allowed_schemas en who))))) program w = (w', q)"
      "case q of Inl p \<Rightarrow> s' = s2 \<and> r = Inl (PanicE p)
         | Inr z \<Rightarrow> finish cr tw (he_serde env) io en
             (make_header cr (he_serde env) en who req tid (hex_encode cr (core_program_hash co program))
                (hex_encode cr (td_hash (build cr (allowed_schemas en who))))) s2 z = (s', r)"
proof -
  let ?D = "build cr (allowed_schemas en who)"
  obtain s1 r1 where p1: "put_program io (en_store en) s (hex_encode cr (core_program_hash co program))
      (td_prelude ?D @ rq_program req) = (s1, r1)" by fastforce
  obtain s2 r2 where p2: "put_description io (en_store en) s1 (hex_encode cr (td_hash ?D)) (td_text ?D) = (s2, r2)"
    by fastforce
  obtain w2 q where p3: "run_program co env en who (allowed_schemas en who)
      (word_of_nat (count_char NL (td_prelude ?D))) program w = (w2, q)" by fastforce
  consider (bad) "\<not> (r1 = Inr () \<or> (\<exists>k c. r1 = Inl (Conflict k c)))"
    | (no) "r1 = Inr () \<or> (\<exists>k c. r1 = Inl (Conflict k c))" "r2 \<noteq> Inr ()"
    | (go) "r1 = Inr () \<or> (\<exists>k c. r1 = Inl (Conflict k c))" "r2 = Inr ()" by blast
  then show ?thesis
  proof cases
    case bad
    then obtain e where "r1 = Inl e" "\<forall>k c. e \<noteq> Conflict k c" by (cases r1) auto
    with assms p1 program_store show ?thesis
      by (auto simp: execute_def Let_def split: store_error.splits)
  next
    case no
    then have "(case r1 of Inl (Conflict k c) \<Rightarrow> Inr () | other \<Rightarrow> other) = Inr ()" by auto
    moreover obtain e where "r2 = Inl e" using no(2) by (cases r2) auto
    ultimately show ?thesis using assms p1 p2 description_store by (auto simp: execute_def Let_def)
  next
    case go
    then have "(case r1 of Inl (Conflict k c) \<Rightarrow> Inr () | other \<Rightarrow> other) = Inr ()" by auto
    with assms p1 p2 p3 go have "w' = w2 \<and> (case q of Inl p \<Rightarrow> s' = s2 \<and> r = Inl (PanicE p)
         | Inr z \<Rightarrow> finish cr tw (he_serde env) io en
             (make_header cr (he_serde env) en who req tid (hex_encode cr (core_program_hash co program))
                (hex_encode cr (td_hash ?D))) s2 z = (s', r))"
      by (auto simp: execute_def Let_def split: sum.splits prod.splits)
    with run p1 p2 p3 go show ?thesis by blast
  qed
qed

text \<open>A program that does not compile changes nothing.\<close>

lemma execute_not_compiled:
  assumes "compile_program co (td_prelude (build cr (allowed_schemas en who))) (rq_program req) = Inl f"
  shows "execute co cr tw io env en tid who req (s, w) =
     ((s, w), Inl (case f of Lint e \<Rightarrow> LintE e | LintPanic m \<Rightarrow> PanicE m))"
  using assms by (simp add: execute_def Let_def split: lint_failure.splits)

lemma execute_Inr:
  assumes "execute co cr tw io env en tid who req (s, w) = ((s', w'), Inr resp)"
  obtains program s1 r1 s2 z where
    "compile_program co (td_prelude (build cr (allowed_schemas en who))) (rq_program req) = Inr program"
    "put_program io (en_store en) s (hex_encode cr (core_program_hash co program))
       (td_prelude (build cr (allowed_schemas en who)) @ rq_program req) = (s1, r1)"
    "r1 = Inr () \<or> (\<exists>k c. r1 = Inl (Conflict k c))"
    "put_description io (en_store en) s1 (hex_encode cr (td_hash (build cr (allowed_schemas en who))))
       (td_text (build cr (allowed_schemas en who))) = (s2, Inr ())"
    "run_program co env en who (allowed_schemas en who)
       (word_of_nat (count_char NL (td_prelude (build cr (allowed_schemas en who))))) program w = (w', Inr z)"
    "finish cr tw (he_serde env) io en
       (make_header cr (he_serde env) en who req tid (hex_encode cr (core_program_hash co program))
          (hex_encode cr (td_hash (build cr (allowed_schemas en who))))) s2 z = (s', Inr resp)"
proof (cases "compile_program co (td_prelude (build cr (allowed_schemas en who))) (rq_program req)")
  case (Inl f)
  with execute_not_compiled [OF Inl, of tw io env tid s w] assms show ?thesis by simp
next
  case (Inr program)
  show ?thesis
  proof (rule execute_compiled [OF Inr assms])
    fix s1 r1 s2 q
    assume run: "put_program io (en_store en) s (hex_encode cr (core_program_hash co program))
        (td_prelude (build cr (allowed_schemas en who)) @ rq_program req) = (s1, r1)"
      "r1 = Inr () \<or> (\<exists>k c. r1 = Inl (Conflict k c))"
      "put_description io (en_store en) s1 (hex_encode cr (td_hash (build cr (allowed_schemas en who))))
        (td_text (build cr (allowed_schemas en who))) = (s2, Inr ())"
      "run_program co env en who (allowed_schemas en who)
        (word_of_nat (count_char NL (td_prelude (build cr (allowed_schemas en who))))) program w = (w', q)"
      "case q of Inl p \<Rightarrow> s' = s2 \<and> Inr resp = Inl (PanicE p)
         | Inr z \<Rightarrow> finish cr tw (he_serde env) io en
             (make_header cr (he_serde env) en who req tid (hex_encode cr (core_program_hash co program))
                (hex_encode cr (td_hash (build cr (allowed_schemas en who))))) s2 z = (s', Inr resp)"
    show ?thesis
    proof (cases q)
      case (Inr z)
      with run that [OF \<open>compile_program co _ _ = Inr program\<close> run(1,2,3)] show ?thesis by simp
    qed (use run in simp)
  qed simp_all
qed

text \<open>The trace behind a response.\<close>

lemma execute_trace:
  assumes "execute co cr tw io env en tid who req (s, w) = ((s', w'), Inr resp)" and "crypto_laws cr"
  shows "\<exists>t p. key_path (st_traces (en_store en)) tid ''json'' = Inr p \<and>
     fs_files s' p = Some (trace_text tw t) \<and>
     trace_verify cr tw (ed_verifying_key cr (en_signing_key en)) t = Inr () \<and>
     trace_id (tr_header t) = tid \<and> th_principal (tr_header t) = who \<and>
     th_request (tr_header t) = rq_request req \<and> th_vm_config (tr_header t) = en_vm en \<and>
     rs_trace_id resp = tid \<and> rs_status resp = tf_status (tr_footer t) \<and>
     (case tf_output (tr_footer t) of None \<Rightarrow> rs_result resp = None
      | Some json \<Rightarrow> \<exists>v. json_parse (he_serde env) json = Inr v \<and> rs_result resp = Some v)"
proof -
  obtain phash dhash s2 z where
    fin: "finish cr tw (he_serde env) io en (make_header cr (he_serde env) en who req tid phash dhash) s2 z
            = (s', Inr resp)"
    using assms(1) by (rule execute_Inr) blast
  let ?t = "make_trace cr tw en (make_header cr (he_serde env) en who req tid phash dhash) z"
  have tid: "trace_id (tr_header ?t) = tid" by (simp add: make_header_def)
  from finish_Inr [OF fin] have put: "put_trace io tw (en_store en) s2 ?t = (s', Inr ())" by blast
  from put_trace_Inr [OF put] tid obtain p where
    "key_path (st_traces (en_store en)) tid ''json'' = Inr p" "fs_files s' p = Some (trace_text tw ?t)" by auto
  with finish_Inr [OF fin] make_trace_verifies [OF assms(2)] show ?thesis
    by (intro exI [of _ ?t] exI [of _ p] conjI) (simp_all add: make_header_def)
qed

text \<open>Whatever the outcome, the world moved only by permitted requests.\<close>

lemma execute_world:
  assumes "execute co cr tw io env en tid who req (s, w) = ((s', w'), r)"
  shows "(permitted_request env (host_new who (en_downstreams en) (allowed_schemas en who) (en_policy en)))\<^sup>*\<^sup>* w w'"
proof (cases "compile_program co (td_prelude (build cr (allowed_schemas en who))) (rq_program req)")
  case (Inl f)
  with execute_not_compiled [OF Inl, of tw io env tid s w] assms show ?thesis by simp
next
  case (Inr program)
  show ?thesis
    by (rule execute_compiled [OF Inr assms]) (auto dest: run_program_world)
qed

text \<open>What core and the JSON reader promise about outputs.\<close>

definition outputs_json :: "('t, 'z) lua_core_scheme \<Rightarrow> serde \<Rightarrow> bool" where
  "outputs_json co sd \<longleftrightarrow>
     (\<forall>v bytes. canonical_serialize co v = Inr bytes \<longrightarrow> utf8_valid bytes \<and> is_ok (json_parse sd bytes))"

lemma run_program_output:
  assumes "run_program co env en who allowed pl program w = (w', Inr z)" "fst (snd z) = Some json" "outputs_json co sd"
  shows "is_ok (json_parse sd json)"
proof -
  obtain entries out status gas mem where z: "z = (entries, out, status, gas, mem)" by (cases z)
  from assms(1) obtain h tr res where
    "run_outcome co (max_output_bytes (en_vm en)) pl res = Inr (out, status)"
    unfolding z by (rule run_program_Inr)
  from run_outcome_Inr [OF this, of json] assms(2,3) z show ?thesis by (auto simp: outputs_json_def)
qed

lemma execute_no_panic:
  assumes "execute co cr tw io env en tid who req (s, w) = ((s', w'), r)"
    and calls: "\<forall>cfg program. records_calls co (core_execute co cfg program)"
    and outputs: "outputs_json co (he_serde env)"
    and prelude: "\<forall>l. stage_error co (td_prelude (build cr (allowed_schemas en who)) @ rq_program req) l \<longrightarrow>
          compile_offset (td_prelude (build cr (allowed_schemas en who))) < l"
  shows "r \<noteq> Inl (PanicE m)"
proof (cases "compile_program co (td_prelude (build cr (allowed_schemas en who))) (rq_program req)")
  case (Inl f)
  have part: "prelude_part (td_prelude (build cr (allowed_schemas en who))) = td_prelude (build cr (allowed_schemas en who))"
    by (simp add: build_def Let_def)
  have "\<nexists>m. compile_program co (td_prelude (build cr (allowed_schemas en who))) (rq_program req) = Inl (LintPanic m)"
    unfolding compile_program_panic part using prelude by (auto simp: not_le)
  with Inl execute_not_compiled [OF Inl, of tw io env tid s w] assms(1) show ?thesis
    by (cases f) auto
next
  case (Inr program)
  have utf8: "\<forall>v bytes. canonical_serialize co v = Inr bytes \<longrightarrow> utf8_valid bytes"
    using outputs by (auto simp: outputs_json_def)
  note total = run_program_total [OF calls [rule_format] utf8]
  show ?thesis
  proof (rule execute_compiled [OF Inr assms(1)])
    fix s1 r1 s2 q
    assume run: "run_program co env en who (allowed_schemas en who)
        (word_of_nat (count_char NL (td_prelude (build cr (allowed_schemas en who))))) program w = (w', q)"
      and fin: "case q of Inl p \<Rightarrow> s' = s2 \<and> r = Inl (PanicE p)
         | Inr z \<Rightarrow> finish cr tw (he_serde env) io en
             (make_header cr (he_serde env) en who req tid (hex_encode cr (core_program_hash co program))
                (hex_encode cr (td_hash (build cr (allowed_schemas en who))))) s2 z = (s', r)"
    have "is_ok (snd (w', q))" unfolding run [symmetric] by (rule total)
    then obtain z where z: "q = Inr z" by (cases q) auto
    show ?thesis
    proof
      assume "r = Inl (PanicE m)"
      with fin z obtain json where "fst (snd z) = Some json" "\<not> is_ok (json_parse (he_serde env) json)"
        by (auto dest: finish_panic)
      with run_program_output [OF run [unfolded z] _ outputs] show False by blast
    qed
  qed simp_all
qed

text \<open>The stored source is the source that was compiled, and compiles on its own to the same program.\<close>

lemma prelude_part_build [simp]: "prelude_part (td_prelude (build cr ts)) = td_prelude (build cr ts)"
  by (simp add: build_def Let_def)

lemma compile_stored_source:
  "compile_program co (td_prelude (build cr ts)) program = Inr p \<Longrightarrow>
     compile_program co [] (td_prelude (build cr ts) @ program) = Inr p"
  by (simp add: compile_program_Inr prelude_part_def [of "[]"])

text \<open>What is under the hash after the program was put: the source, or what was there.\<close>

lemma put_program_holds:
  assumes "put_program io st s k v = (s', r)" "r = Inr () \<or> (\<exists>a b. r = Inl (Conflict a b))"
  shows "\<exists>p c. key_path (st_programs st) k ''lua'' = Inr p \<and> fs_files s' p = Some c \<and> (c = v \<or> fs_files s p = Some c)"
  using assms(2)
proof
  assume "r = Inr ()"
  with put_program_Inr assms(1) show ?thesis by blast
next
  assume "\<exists>a b. r = Inl (Conflict a b)"
  then obtain a b where r: "r = Inl (Conflict a b)" by blast
  with assms(1) obtain p where p: "key_path (st_programs st) k ''lua'' = Inr p"
    "put_content_addressed io s p ''program'' k v = (s', Inl (Conflict a b))"
    by (cases "key_path (st_programs st) k ''lua''") (auto simp: put_program_def key_path_Inl)
  from put_content_Conflict [OF p(2)] obtain c where "fs_files s p = Some c" by blast
  with keeps_key [OF put_program_keeps [OF assms(1)] p(1)] p(1) show ?thesis by auto
qed

lemma execute_runs_stored:
  assumes "execute co cr tw io env en tid who req (s, w) = ((s', w'), Inr resp)" and "\<And>p. \<not> io_stat io p"
  shows "\<exists>program t q h tr res p c.
     compile_program co [] (td_prelude (build cr (allowed_schemas en who)) @ rq_program req) = Inr program \<and>
     run_vm (host_call_tool co env) host_take_attestation (core_execute co (vm_config_of (en_vm en)) program)
       (host_new who (en_downstreams en) (allowed_schemas en who) (en_policy en), w) [] =
       ((h, w'), tr, res, tf_gas_used (tr_footer t), tf_memory_used (tr_footer t)) \<and>
     tr_entries t = zip_entries tr (gh_log h) \<and>
     key_path (st_traces (en_store en)) tid ''json'' = Inr q \<and> fs_files s' q = Some (trace_text tw t) \<and>
     program_hash (tr_header t) = hex_encode cr (core_program_hash co program) \<and>
     key_path (st_programs (en_store en)) (program_hash (tr_header t)) ''lua'' = Inr p \<and> fs_files s' p = Some c \<and>
     (c = td_prelude (build cr (allowed_schemas en who)) @ rq_program req \<or> fs_files s p = Some c)"
proof -
  let ?D = "build cr (allowed_schemas en who)"
  obtain program s1 r1 s2 z where
    compile: "compile_program co (td_prelude ?D) (rq_program req) = Inr program"
    and p1: "put_program io (en_store en) s (hex_encode cr (core_program_hash co program))
       (td_prelude ?D @ rq_program req) = (s1, r1)"
    and r1: "r1 = Inr () \<or> (\<exists>k c. r1 = Inl (Conflict k c))"
    and p2: "put_description io (en_store en) s1 (hex_encode cr (td_hash ?D)) (td_text ?D) = (s2, Inr ())"
    and rp: "run_program co env en who (allowed_schemas en who) (word_of_nat (count_char NL (td_prelude ?D))) program w
       = (w', Inr z)"
    and fin: "finish cr tw (he_serde env) io en
       (make_header cr (he_serde env) en who req tid (hex_encode cr (core_program_hash co program))
          (hex_encode cr (td_hash ?D))) s2 z = (s', Inr resp)"
    using assms(1) by (rule execute_Inr)
  obtain entries out status gas mem where z: "z = (entries, out, status, gas, mem)" by (cases z)
  from rp [unfolded z] obtain h tr res where
    run: "run_vm (host_call_tool co env) host_take_attestation (core_execute co (vm_config_of (en_vm en)) program)
       (host_new who (en_downstreams en) (allowed_schemas en who) (en_policy en), w) [] = ((h, w'), tr, res, gas, mem)"
    and entries: "entries = zip_entries tr (gh_log h)"
    by (rule run_program_Inr)
  let ?t = "make_trace cr tw en (make_header cr (he_serde env) en who req tid (hex_encode cr (core_program_hash co program))
          (hex_encode cr (td_hash ?D))) z"
  have tid: "trace_id (tr_header ?t) = tid" and hash: "program_hash (tr_header ?t) = hex_encode cr (core_program_hash co program)"
    by (simp_all add: make_header_def)
  from finish_Inr [OF fin] have put: "put_trace io tw (en_store en) s2 ?t = (s', Inr ())" by blast
  from put_trace_Inr [OF put] tid obtain q where
    q: "key_path (st_traces (en_store en)) tid ''json'' = Inr q" "fs_files s' q = Some (trace_text tw ?t)" by auto
  have keeps: "keeps s1 s'"
    using put_description_keeps [OF p2] put_trace_keeps [OF put assms(2)] by (rule keeps_trans)
  from put_program_holds [OF p1 r1] obtain p c where
    p: "key_path (st_programs (en_store en)) (hex_encode cr (core_program_hash co program)) ''lua'' = Inr p"
    "fs_files s1 p = Some c" "c = td_prelude ?D @ rq_program req \<or> fs_files s p = Some c" by blast
  from keeps_key [OF keeps p(1)] p(2) have "fs_files s' p = Some c" by simp
  with compile_stored_source [OF compile] run entries q p hash show ?thesis
    by (intro exI [of _ program] exI [of _ ?t] exI [of _ q] exI [of _ h] exI [of _ tr] exI [of _ res] exI [of _ p] exI [of _ c])
      (simp add: z)
qed

section \<open>Facts: an execution that goes through\<close>

lemma hex_valid_key:
  assumes "crypto_laws cr" "bs \<noteq> []"
  shows "valid_key (hex_encode cr bs)"
proof -
  have "length (hex_encode cr bs) = 2 * length bs" and hex: "list_all is_lower_hex (hex_encode cr bs)"
    using assms(1) by (auto simp: crypto_laws_def)
  with assms(2) have "hex_encode cr bs \<noteq> []" by (metis length_0_conv mult_is_0 numeral_neq_zero)
  moreover from hex have "list_all (\<lambda>b. is_ascii_digit b \<or> (CHR ''a'' \<le> b \<and> b \<le> CHR ''f'') \<or> b = CHR ''-'') (hex_encode cr bs)"
    by (rule list.pred_mono_strong) (auto simp: is_lower_hex_def)
  ultimately show ?thesis by (simp add: valid_key_def)
qed

lemma key_paths_apart:
  "d @ [k @ ''.lua''] \<noteq> d' @ [k' @ ''.txt'']" "d @ [k @ ''.lua''] \<noteq> d' @ [k' @ ''.json'']"
  "d @ [k @ ''.txt''] \<noteq> d' @ [k' @ ''.json'']"
proof -
  have "k @ ''.lua'' \<noteq> k' @ ''.txt''" "k @ ''.lua'' \<noteq> k' @ ''.json''" "k @ ''.txt'' \<noteq> k' @ ''.json''"
    by (auto dest!: arg_cong [where f = last])
  then show "d @ [k @ ''.lua''] \<noteq> d' @ [k' @ ''.txt'']" "d @ [k @ ''.lua''] \<noteq> d' @ [k' @ ''.json'']"
    "d @ [k @ ''.txt''] \<noteq> d' @ [k' @ ''.json'']" by simp_all
qed

lemma finish_succeeds:
  assumes "io_quiet io" "store_ready (en_store en) s" "valid_key (trace_id header)"
    and "fs_files s (st_traces (en_store en) @ [trace_id header @ ''.json'']) = None"
    and "st_traces (en_store en) @ [trace_id header @ ''.json''] \<notin> set (fs_dirs s)"
    and "\<And>json. fst (snd z) = Some json \<Longrightarrow> is_ok (json_parse sd json)"
  shows "is_ok (snd (finish cr tw sd io en header s z))"
proof -
  let ?p = "st_traces (en_store en) @ [trace_id header @ ''.'' @ ''json'']"
  let ?t = "make_trace cr tw en header z"
  obtain s' where w: "write_atomic io s ?p (trace_text tw ?t) = (s', Inr ())"
    using assms(1-3) by (rule write_atomic_ready [where dir = "st_traces (en_store en)" and ext = "''json''"]) simp_all
  have "key_path (st_traces (en_store en)) (trace_id header) ''json'' = Inr ?p"
    using assms(3) by (simp add: key_path_Inr)
  with w assms(4,5) have "put_trace io tw (en_store en) s ?t = (s', Inr ())"
    by (simp add: put_trace_def fs_exists_def)
  with assms(6) show ?thesis
    by (auto simp: finish_def Let_def is_ok_def split: option.splits sum.splits)
qed

lemma execute_succeeds:
  assumes laws: "crypto_laws cr" and quiet: "io_quiet io" and ready: "store_ready (en_store en) s"
    and compile: "compile_program co (td_prelude (build cr (allowed_schemas en who))) (rq_program req) = Inr program"
    and hash: "core_program_hash co program \<noteq> []"
    and calls: "records_calls co (core_execute co (vm_config_of (en_vm en)) program)"
    and outputs: "outputs_json co (he_serde env)"
    and tid: "valid_key tid" "fs_files s (st_traces (en_store en) @ [tid @ ''.json'']) = None"
      "st_traces (en_store en) @ [tid @ ''.json''] \<notin> set (fs_dirs s)"
    and desc: "fs_files s (st_descriptions (en_store en)
         @ [hex_encode cr (td_hash (build cr (allowed_schemas en who))) @ ''.txt''])
       \<in> {None, Some (td_text (build cr (allowed_schemas en who)))}"
  shows "\<exists>s' w' resp. execute co cr tw io env en tid who req (s, w) = ((s', w'), Inr resp)"
proof -
  let ?D = "build cr (allowed_schemas en who)" and ?st = "en_store en"
  let ?ph = "hex_encode cr (core_program_hash co program)" and ?dh = "hex_encode cr (td_hash ?D)"
  let ?pp = "st_programs ?st @ [?ph @ ''.'' @ ''lua'']" and ?dp = "st_descriptions ?st @ [?dh @ ''.'' @ ''txt'']"
  let ?tp = "st_traces ?st @ [tid @ ''.json'']"
  have "length (td_hash ?D) = 32" using laws by (simp add: build_def Let_def crypto_laws_def)
  then have "td_hash ?D \<noteq> []" by auto
  then have keys: "valid_key ?ph" "valid_key ?dh" using hex_valid_key [OF laws] hash by auto
  obtain s1 r1 where p1: "put_content_addressed io s ?pp ''program'' ?ph (td_prelude ?D @ rq_program req) = (s1, r1)"
      "r1 = Inr () \<or> (r1 = Inl (Conflict ''program'' ?ph) \<and> fs_files s ?pp \<notin> {None, Some (td_prelude ?D @ rq_program req)})"
      and f1: "\<And>q. q \<noteq> ?pp \<Longrightarrow> fs_files s1 q = fs_files s q" "fs_dirs s1 = fs_dirs s" "store_ready ?st s1"
    by (rule put_content_ready [where p = ?pp and dir = "st_programs ?st" and ext = "''lua''", OF quiet ready keys(1)])
      (simp, simp, rule that)
  have "fs_files s1 ?dp = fs_files s ?dp" by (rule f1(1)) (simp add: key_paths_apart [symmetric])
  obtain s2 r2 where p2: "put_content_addressed io s1 ?dp ''description'' ?dh (td_text ?D) = (s2, r2)"
      "r2 = Inr () \<or> (r2 = Inl (Conflict ''description'' ?dh) \<and> fs_files s1 ?dp \<notin> {None, Some (td_text ?D)})"
      and f2: "\<And>q. q \<noteq> ?dp \<Longrightarrow> fs_files s2 q = fs_files s1 q" "fs_dirs s2 = fs_dirs s1" "store_ready ?st s2"
    by (rule put_content_ready [where p = ?dp and dir = "st_descriptions ?st" and ext = "''txt''", OF quiet f1(3) keys(2)])
      (simp, simp, rule that)
  have r2: "r2 = Inr ()" using p2(2) desc \<open>fs_files s1 ?dp = fs_files s ?dp\<close> by auto
  have "fs_files s2 ?tp = fs_files s1 ?tp" by (rule f2(1)) (simp add: key_paths_apart [symmetric])
  also have "\<dots> = fs_files s ?tp" by (rule f1(1)) (simp add: key_paths_apart [symmetric])
  finally have tp: "fs_files s2 ?tp = None" using tid(2) by simp
  let ?pl = "word_of_nat (count_char NL (td_prelude ?D))"
  obtain w' z where run: "run_program co env en who (allowed_schemas en who) ?pl program w = (w', Inr z)"
  proof -
    have "is_ok (snd (run_program co env en who (allowed_schemas en who) ?pl program w))"
      by (rule run_program_total [OF calls]) (use outputs in \<open>auto simp: outputs_json_def\<close>)
    then show thesis
      by (cases "run_program co env en who (allowed_schemas en who) ?pl program w"; cases "snd (run_program co env en who (allowed_schemas en who) ?pl program w)")
        (auto intro: that)
  qed
  let ?h = "make_header cr (he_serde env) en who req tid ?ph ?dh"
  have "is_ok (snd (finish cr tw (he_serde env) io en ?h s2 z))"
    by (rule finish_succeeds [OF quiet f2(3)])
      (use tid tp f1(2) f2(2) run_program_output [OF run _ outputs] in \<open>simp_all add: make_header_def\<close>)
  then obtain s3 resp where fin: "finish cr tw (he_serde env) io en ?h s2 z = (s3, Inr resp)"
    by (cases "finish cr tw (he_serde env) io en ?h s2 z"; cases "snd (finish cr tw (he_serde env) io en ?h s2 z)") auto
  have "put_program io ?st s ?ph (td_prelude ?D @ rq_program req) = (s1, r1)"
    "put_description io ?st s1 ?dh (td_text ?D) = (s2, Inr ())"
    using p1(1) p2(1) r2 keys by (simp_all add: put_program_def put_description_def key_path_ok)
  moreover have "(case r1 of Inl (Conflict k c) \<Rightarrow> Inr () | other \<Rightarrow> other) = Inr ()" using p1(2) by auto
  ultimately show ?thesis using compile run fin by (simp add: execute_def Let_def)
qed

section \<open>Facts: a started engine\<close>

lemma check_tools_ok: "check_tools who ts = Inr () \<longleftrightarrow> (\<forall>t \<in> set ts. check_lua_names t = Inr ())"
  by (induction ts) (auto split: sum.splits)

lemma check_principals_ok:
  "check_principals en ws = Inr () \<longleftrightarrow>
     (\<forall>who \<in> set ws. \<forall>t \<in> set (allowed_schemas en who). check_lua_names t = Inr ())"
proof (induction ws)
  case (Cons who ws)
  then show ?case
    using check_tools_ok [of who "allowed_schemas en who"] by (auto split: sum.splits)
qed simp

lemma check_lua_names_ok:
  "check_lua_names t = Inr () \<longleftrightarrow>
     is_name (ts_server t) \<and> is_name (ts_name t) \<and> ts_server t \<notin> set DIALECT_NAMES"
  by (auto simp: check_lua_names_def)

lemma name_chars:
  "is_name s \<Longrightarrow> c \<in> set s \<Longrightarrow> is_ascii_alphabetic c \<or> is_ascii_digit c \<or> c = CHR ''_''"
  by (auto simp: is_name_def list_all_iff split: list.splits)

lemma is_name_no_NL: "is_name s \<Longrightarrow> NL \<notin> set s"
  by (auto dest: name_chars simp: is_ascii_alphabetic_def is_ascii_digit_def less_eq_char_def)

lemma engine_new_Inr:
  assumes "engine_new cr se io config s = (s', Inr en)"
  shows "downstreams_connect (se_serve se) (se_env se) (se_osenv se) (gc_downstream config) = Inr (en_downstreams en) \<and>
     policy_load (se_toml se) (se_read se) (policy_file (gc_policy config)) = Inr (en_policy en) \<and>
     store_open io s (store_dir (gc_store config)) = (s', Inr (en_store en)) \<and>
     en_vm en = gc_vm config \<and>
     (\<exists>hex. secret_resolve (se_env se) (signing_key (gc_server config)) = Inr hex \<and>
        signing_key_from_hex cr hex = Inr (en_signing_key en)) \<and>
     (\<forall>who \<in> fst ` set (gc_principals config). \<forall>t \<in> set (allowed_schemas en who). check_lua_names t = Inr ())"
proof -
  from assms obtain pol ds st hex key where
    "policy_load (se_toml se) (se_read se) (policy_file (gc_policy config)) = Inr pol"
    "downstreams_connect (se_serve se) (se_env se) (se_osenv se) (gc_downstream config) = Inr ds"
    "store_open io s (store_dir (gc_store config)) = (s', Inr st)"
    "secret_resolve (se_env se) (signing_key (gc_server config)) = Inr hex"
    "signing_key_from_hex cr hex = Inr key"
    "en = \<lparr>en_vm = gc_vm config, en_policy = pol, en_downstreams = ds, en_store = st, en_signing_key = key\<rparr>"
    "check_principals en (map fst (gc_principals config)) = Inr ()"
    by (auto simp: engine_new_def result_simps Let_def split: sum.splits prod.splits)
  then show ?thesis by (auto simp: check_principals_ok)
qed

text \<open>So its preludes have one line for each server and each tool of the principal.\<close>

lemma engine_prelude_lines:
  assumes "engine_new cr se io config s = (s', Inr en)" "who \<in> fst ` set (gc_principals config)"
  shows "count_char NL (td_prelude (description_for cr en who)) =
     card (ts_server ` set (allowed_schemas en who)) + length (allowed_schemas en who)"
proof -
  have "is_name (ts_server t) \<and> is_name (ts_name t)" if "t \<in> set (allowed_schemas en who)" for t
    using engine_new_Inr [OF assms(1)] assms(2) that by (auto simp: check_lua_names_ok)
  then have "count_char NL (prelude_of (sort_key qualified_name (allowed_schemas en who))) =
      card (ts_server ` set (sort_key qualified_name (allowed_schemas en who)))
      + length (sort_key qualified_name (allowed_schemas en who))"
    by (intro prelude_line_count) (auto simp: is_name_no_NL)
  then show ?thesis by (simp add: description_for_def build_def Let_def)
qed

section \<open>Facts: servers named like libraries\<close>

text \<open>The libraries of the dialect, as its text lists them.\<close>

definition dialect_libraries :: "string set" where
  "dialect_libraries = {''string'', ''math'', ''table'', ''json'', ''decimal''}"

lemma library_names: "check_lua_names t = Inr () \<Longrightarrow> ts_server t \<in> dialect_libraries \<Longrightarrow> ts_server t = ''decimal''"
  by (auto simp: check_lua_names_ok dialect_libraries_def DIALECT_NAMES_def)

lemma prelude_declares:
  assumes "t \<in> set ts"
  shows "\<exists>a b. prelude_of ts = a @ local_line (ts_server t) @ b"
proof -
  have "ts_server t \<in> set (remdups_adj (sort (map ts_server ts)))" using assms by simp
  then obtain xs ys where "remdups_adj (sort (map ts_server ts)) = xs @ ts_server t # ys" by (meson split_list)
  then have "prelude_of ts = concat (map local_line xs) @ local_line (ts_server t) @
      (concat (map local_line ys) @ concat (map (\<lambda>t. tool_line (qualified_name t)) ts))"
    by (simp add: prelude_of_def)
  then show ?thesis by blast
qed

lemma description_declares:
  "t \<in> set (allowed_schemas en who) \<Longrightarrow>
     \<exists>a b. td_prelude (description_for cr en who) = a @ local_line (ts_server t) @ b"
  using prelude_declares [of t "sort_key qualified_name (allowed_schemas en who)"]
  by (simp add: description_for_def build_def Let_def)

end
