(* ===== verification/Trace_Replay.thy ===== *)
theory Trace_Replay
  imports Execute_Engine
begin

text \<open>
  \<open>src/replay.rs\<close>: running a stored trace again over core's strict tape of its records, and comparing
  the outcome with what the trace says. The errors carry what the sources put into their context.
\<close>

section \<open>Data\<close>

record replay_report =
  rr_trace_id :: string
  rr_matched :: bool
  rr_mismatches :: "string list"
  rr_output :: "string option"
  rr_status :: run_status
  rr_gas_used :: u64
  rr_memory_used :: u64

datatype replay_error =
    ReplayKeyUnset string
  | ReplayKeyBad trace_error
  | ReplayStore path store_error
  | ReplayTrace string store_error
  | ReplaySignature string trace_error
  | ReplayProgram string store_error
  | ReplayParse string u32 string
  | ReplayCompile string string
  | ReplayVerify string string
  | ReplayPanic string

fun status_kind :: "run_status \<Rightarrow> string" where
  "status_kind RunOk = ''ok''"
| "status_kind (RunError kind m) = kind"

definition describe_call :: "tape_call_desc \<Rightarrow> string" where
  "describe_call c = tc_tool_name c @ '' '' @ from_utf8_lossy (tc_args_canonical c)"

section \<open>Comparing\<close>

definition opt_text :: "string option \<Rightarrow> string" where
  "opt_text t = (case t of Some s \<Rightarrow> s | None \<Rightarrow> ''none'')"

definition mismatch :: "bool \<Rightarrow> string \<Rightarrow> string list" where
  "mismatch differs text = (if differs then [text] else [])"

definition divergence_text :: "tape_divergence \<Rightarrow> string" where
  "divergence_text d =
     ''divergence at seq '' @ show_nat (unat (td_seq d)) @ '': expected ''
     @ (case td_expected d of None \<Rightarrow> ''no recorded call'' | Some c \<Rightarrow> describe_call c)
     @ '', actual '' @ describe_call (td_actual d)"

definition mismatches_of ::
  "trace_header \<Rightarrow> trace_footer \<Rightarrow> nat \<Rightarrow> string \<Rightarrow> tape_divergence option \<Rightarrow> nat
     \<Rightarrow> string option \<Rightarrow> run_status \<Rightarrow> u64 \<Rightarrow> u64 \<Rightarrow> string list" where
  "mismatches_of header footer recorded phash dvg remaining out status gas mem =
     mismatch (phash \<noteq> program_hash header)
       (''program_hash: header has '' @ program_hash header @ '', stored source compiles to '' @ phash)
     @ (case dvg of Some d \<Rightarrow> [divergence_text d] | None \<Rightarrow> [])
     @ mismatch (remaining > 0)
         (''tape: '' @ show_nat remaining @ '' of '' @ show_nat recorded @ '' recorded calls left unconsumed'')
     @ mismatch (out \<noteq> tf_output footer)
         (''output: recorded '' @ opt_text (tf_output footer) @ '', replayed '' @ opt_text out)
     @ mismatch (status_kind status \<noteq> status_kind (tf_status footer))
         (''status: recorded '' @ status_kind (tf_status footer) @ '', replayed '' @ status_kind status)
     @ mismatch (gas \<noteq> tf_gas_used footer)
         (''gas_used: recorded '' @ show_nat (unat (tf_gas_used footer)) @ '', replayed '' @ show_nat (unat gas))
     @ mismatch (mem \<noteq> tf_memory_used footer)
         (''memory_used: recorded '' @ show_nat (unat (tf_memory_used footer)) @ '', replayed '' @ show_nat (unat mem))"

section \<open>Replaying\<close>

text \<open>Compiling the stored source, without the gateway's own messages.\<close>

definition recompile ::
  "('t, 'b, 'p, 'k, 'z) core_scheme \<Rightarrow> string \<Rightarrow> string \<Rightarrow> replay_error + 'p" where
  "recompile co phash source =
     bind_r (map_err (\<lambda>e. ReplayParse phash (pe_line e) (pe_message e)) (core_parse co source)) (\<lambda>block.
     bind_r (map_err (\<lambda>e. ReplayCompile phash (ce_message e)) (core_compile co block)) (\<lambda>program.
     bind_r (map_err (\<lambda>e. ReplayVerify phash e) (core_verify co program)) (\<lambda>_. Inr program)))"

text \<open>The run over the tape and the report.\<close>

definition replay_run ::
  "('t, 'b, 'p, 'k, 'z) core_scheme \<Rightarrow> crypto \<Rightarrow> string \<Rightarrow> trace \<Rightarrow> 'p \<Rightarrow> replay_error + replay_report" where
  "replay_run co cr tid t program =
     (let header = tr_header t;
          records = map te_record (tr_entries t)
      in case run_vm (tape_call co) (tape_take co)
                (core_execute co (vm_config_of (th_vm_config header)) program) (tape_strict co records) [] of
           (k, tr, res, gas, mem) \<Rightarrow>
             bind_r (map_err ReplayPanic (run_outcome co (max_output_bytes (th_vm_config header)) 0 res)) (\<lambda>(out, status).
               let ms = mismatches_of header (tr_footer t) (length records)
                          (hex_encode cr (core_program_hash co program))
                          (tape_diverged co k) (tape_remaining co k) out status gas mem
               in Inr \<lparr>rr_trace_id = tid, rr_matched = (ms = []), rr_mismatches = ms, rr_output = out,
                       rr_status = status, rr_gas_used = gas, rr_memory_used = mem\<rparr>))"

definition replay ::
  "('t, 'b, 'p, 'k, 'z) core_scheme \<Rightarrow> crypto \<Rightarrow> trace_writer \<Rightarrow> io_env \<Rightarrow> (string \<Rightarrow> string option)
     \<Rightarrow> (string \<Rightarrow> string + trace) \<Rightarrow> gateway_config \<Rightarrow> string \<Rightarrow> fs \<Rightarrow> fs \<times> (replay_error + replay_report)" where
  "replay co cr tw io env from_slice config tid s =
     (case bind_r (map_err ReplayKeyUnset (secret_resolve env (signing_key (gc_server config)))) (\<lambda>hex.
             map_err ReplayKeyBad (signing_key_from_hex cr hex)) of
        Inl e \<Rightarrow> (s, Inl e)
      | Inr key \<Rightarrow>
          (case store_open io s (store_dir (gc_store config)) of
             (s', Inl e) \<Rightarrow> (s', Inl (ReplayStore (store_dir (gc_store config)) e))
           | (s', Inr st) \<Rightarrow>
               (s',
                bind_r (map_err (ReplayTrace tid) (get_trace io from_slice st s' tid)) (\<lambda>t.
                bind_r (map_err (ReplaySignature tid) (trace_verify cr tw (ed_verifying_key cr key) t)) (\<lambda>_.
                bind_r (map_err (ReplayProgram (program_hash (tr_header t)))
                          (get_program io st s' (program_hash (tr_header t)))) (\<lambda>source.
                bind_r (recompile co (program_hash (tr_header t)) source) (\<lambda>program.
                  replay_run co cr tid t program)))))))"

section \<open>Facts: the report\<close>

lemma mismatch_Nil [simp]: "mismatch b t = [] \<longleftrightarrow> \<not> b"
  by (simp add: mismatch_def)

lemma mismatches_of_Nil:
  "mismatches_of header footer n phash dvg remaining out status gas mem = [] \<longleftrightarrow>
     phash = program_hash header \<and> dvg = None \<and> remaining = 0 \<and> out = tf_output footer \<and>
     status_kind status = status_kind (tf_status footer) \<and> gas = tf_gas_used footer \<and> mem = tf_memory_used footer"
  by (simp add: mismatches_of_def split: option.split)

lemma status_kind_error: "status_kind (error_status co e pl) = status_kind (error_status co e pl')"
proof (induction e)
  case (WithLine l e)
  obtain k m k' m' where "error_status co e pl = RunError k m" "error_status co e pl' = RunError k' m'"
    using error_status_error by metis
  with WithLine show ?case by simp
qed simp_all

lemma run_outcome_lines:
  "run_outcome co mx pl res = Inr (out, status) \<Longrightarrow>
     \<exists>status'. run_outcome co mx pl' res = Inr (out, status') \<and> status_kind status' = status_kind status"
  by (auto simp: run_outcome_def status_kind_error [of co _ pl' pl] split: sum.splits)

lemma recompile_Inr:
  "recompile co phash source = Inr p \<longleftrightarrow> compile_program co [] source = Inr p"
  by (auto simp: recompile_def compile_program_Inr result_simps prelude_part_def)

lemma replay_run_Inr:
  assumes "replay_run co cr tid t program = Inr rep"
  obtains k tr res where
    "run_vm (tape_call co) (tape_take co) (core_execute co (vm_config_of (th_vm_config (tr_header t))) program)
       (tape_strict co (map te_record (tr_entries t))) [] = (k, tr, res, rr_gas_used rep, rr_memory_used rep)"
    "run_outcome co (max_output_bytes (th_vm_config (tr_header t))) 0 res = Inr (rr_output rep, rr_status rep)"
    "rr_mismatches rep = mismatches_of (tr_header t) (tr_footer t) (length (tr_entries t))
       (hex_encode cr (core_program_hash co program)) (tape_diverged co k) (tape_remaining co k)
       (rr_output rep) (rr_status rep) (rr_gas_used rep) (rr_memory_used rep)"
    "rr_matched rep = (rr_mismatches rep = [])" "rr_trace_id rep = tid"
  using assms by (auto simp: replay_run_def Let_def result_simps split: prod.splits)

lemma replay_Inr:
  assumes "replay co cr tw io env from_slice config tid s = (s', Inr report)"
  obtains hex key st t source program where
    "secret_resolve env (signing_key (gc_server config)) = Inr hex" "signing_key_from_hex cr hex = Inr key"
    "store_open io s (store_dir (gc_store config)) = (s', Inr st)" "get_trace io from_slice st s' tid = Inr t"
    "trace_verify cr tw (ed_verifying_key cr key) t = Inr ()"
    "get_program io st s' (program_hash (tr_header t)) = Inr source"
    "recompile co (program_hash (tr_header t)) source = Inr program"
    "replay_run co cr tid t program = Inr report"
  using assms by (auto simp: replay_def result_simps split: sum.splits prod.splits)

section \<open>The tape\<close>

text \<open>What core documents of a strict tape, for a representation \<open>at\<close> of the records still to come: a
  new tape holds them all, and a tape that only served calls as recorded has not diverged and counts
  what is left.\<close>

definition tape_laws :: "('t, 'b, 'p, 'k, 'z) core_scheme \<Rightarrow> ('k \<Rightarrow> tool_call_record list \<Rightarrow> bool) \<Rightarrow> bool" where
  "tape_laws co at \<longleftrightarrow>
     (\<forall>rs. at (tape_strict co rs) rs) \<and>
     (\<forall>k rs. at k rs \<longrightarrow> tape_diverged co k = None \<and> tape_remaining co k = length rs)"

text \<open>And of a program run over it: at every call, when the next record is one core made for a result of
  this call, the tape serves a result after which the machine goes on as it did after the recorded one,
  and moves past the record.\<close>

primrec tape_serves ::
  "('t, 'b, 'p, 'k, 'z) core_scheme \<Rightarrow> ('k \<Rightarrow> tool_call_record list \<Rightarrow> bool) \<Rightarrow> 't vm_run \<Rightarrow> bool" where
  "tape_serves co at (Finish r g m) = True"
| "tape_serves co at (CallTool name args recf k) =
     ((\<forall>res att r rs tp. recf res att = Some r \<longrightarrow> at tp (r # rs) \<longrightarrow>
         (case tape_call co tp name args of (tp1, res') \<Rightarrow>
            k res' = k res \<and>
            at (case res' of Inl _ \<Rightarrow> tp1 | Inr _ \<Rightarrow> fst (tape_take co tp1)) rs)) \<and>
      (\<forall>res. tape_serves co at (k res)))"

text \<open>A run that got to a point, with the records it made.\<close>

inductive reached_after :: "'t vm_run \<Rightarrow> tool_call_record list \<Rightarrow> 't vm_run \<Rightarrow> bool" for run where
  Start: "reached_after run [] run"
| Recorded: "reached_after run tr (CallTool name args recf k) \<Longrightarrow> recf res att = Some r \<Longrightarrow> reached_after run (tr @ [r]) (k res)"

lemma reached_records_calls: "reached_after run tr run' \<Longrightarrow> records_calls co run \<Longrightarrow> records_calls co run'"
  by (induction rule: reached_after.induct) simp_all

lemma reached_tape_serves: "reached_after run tr run' \<Longrightarrow> tape_serves co at run \<Longrightarrow> tape_serves co at run'"
  by (induction rule: reached_after.induct) simp_all

text \<open>The records of a run over a host that records every call.\<close>

lemma run_vm_reached:
  assumes "reached_after start tr run" "records_calls co start"
    and "run_vm call tk run h tr = (h', tr', res, gas, mem)"
    and "\<And>h name args h1 t. call h name args = (h1, Inr t) \<Longrightarrow> is_ok (canonical_serialize_table co t)"
  shows "reached_after start tr' (Finish res gas mem)"
  using assms
proof (induction run arbitrary: h tr rule: vm_run.induct)
  case (Finish r g m)
  then show ?case by simp
next
  case (CallTool name args recf k)
  obtain h1 x where c: "call h name args = (h1, x)" by fastforce
  obtain h2 att where t: "(case x of Inl _ \<Rightarrow> (h1, None) | Inr _ \<Rightarrow> tk h1) = (h2, att)" by fastforce
  have "case x of Inl _ \<Rightarrow> True | Inr t \<Rightarrow> is_ok (canonical_serialize_table co t)"
    using c CallTool.prems(4) by (auto split: sum.split)
  with reached_records_calls [OF CallTool.prems(1,2)] obtain r where r: "recf x att = Some r" by fastforce
  with CallTool.prems(3) c t have rest: "run_vm call tk (k x) h2 (tr @ [r]) = (h', tr', res, gas, mem)"
    by (simp add: Let_def)
  from CallTool.IH [OF rangeI reached_after.Recorded [OF CallTool.prems(1) r] CallTool.prems(2) rest CallTool.prems(4)]
  show ?case .
qed

text \<open>Over the tape of those records, and whatever follows them, the machine gets to the same point.\<close>

lemma reached_replays:
  assumes "reached_after run tr run'" "tape_serves co at run" "at tp (tr @ rest)"
  shows "\<exists>tp' x'. run_vm (tape_call co) (tape_take co) run tp x = run_vm (tape_call co) (tape_take co) run' tp' x' \<and> at tp' rest"
  using assms
proof (induction arbitrary: rest rule: reached_after.induct)
  case Start
  then show ?case by auto
next
  case (Recorded tr name args recf k res att r)
  from Recorded.IH [OF Recorded.prems(1), of "r # rest"] Recorded.prems(2) obtain tp1 x1 where
    run: "run_vm (tape_call co) (tape_take co) run tp x =
      run_vm (tape_call co) (tape_take co) (CallTool name args recf k) tp1 x1" and at: "at tp1 (r # rest)" by auto
  obtain tp2 res' where tc: "tape_call co tp1 name args = (tp2, res')" by fastforce
  let ?tp = "case res' of Inl _ \<Rightarrow> tp2 | Inr _ \<Rightarrow> fst (tape_take co tp2)"
  have "tape_serves co at (CallTool name args recf k)"
    by (rule reached_tape_serves [OF Recorded.hyps(1) Recorded.prems(1)])
  with Recorded.hyps(2) at tc have goes: "k res' = k res" "at ?tp rest" by (auto split: prod.splits)
  obtain att' where att': "(case res' of Inl _ \<Rightarrow> (tp2, None) | Inr _ \<Rightarrow> tape_take co tp2) = (?tp, att')"
    by (cases res') (auto intro: that prod.collapse [symmetric])
  have "run_vm (tape_call co) (tape_take co) (CallTool name args recf k) tp1 x1 =
      run_vm (tape_call co) (tape_take co) (k res) ?tp (x1 @ (case recf res' att' of None \<Rightarrow> [] | Some r \<Rightarrow> [r]))"
    using tc att' goes(1) by (simp add: Let_def)
  with run goes(2) show ?case by auto
qed

section \<open>Programs with the same hash\<close>

text \<open>A program hash covers the bytecode and nothing else: two programs that share it run alike, up to
  the line numbers in an error.\<close>

fun results_alike :: "('t, 'z) lua_core_scheme \<Rightarrow> 't vm_error + 't lua_value \<Rightarrow> 't vm_error + 't lua_value \<Rightarrow> bool" where
  "results_alike co (Inr v) (Inr v') \<longleftrightarrow> v = v'"
| "results_alike co (Inl e) (Inl e') \<longleftrightarrow> status_kind (error_status co e 0) = status_kind (error_status co e' 0)"
| "results_alike co r r' \<longleftrightarrow> False"

inductive runs_alike :: "('t, 'z) lua_core_scheme \<Rightarrow> 't vm_run \<Rightarrow> 't vm_run \<Rightarrow> bool" for co where
  Finish: "results_alike co r r' \<Longrightarrow> runs_alike co (Finish r g m) (Finish r' g m)"
| Call: "(\<And>res. runs_alike co (k res) (k' res)) \<Longrightarrow>
     runs_alike co (CallTool name args recf k) (CallTool name args recf k')"

definition hash_covers_bytecode :: "('t, 'b, 'p, 'k, 'z) core_scheme \<Rightarrow> bool" where
  "hash_covers_bytecode co \<longleftrightarrow>
     (\<forall>cfg p p'. core_program_hash co p = core_program_hash co p' \<longrightarrow>
        runs_alike co (core_execute co cfg p) (core_execute co cfg p'))"

lemma run_vm_alike:
  assumes "runs_alike co run run'" "run_vm call tk run h tr = (h', tr', res, gas, mem)"
  shows "\<exists>res'. run_vm call tk run' h tr = (h', tr', res', gas, mem) \<and> results_alike co res res'"
  using assms
proof (induction arbitrary: h tr rule: runs_alike.induct)
  case (Finish r r' g m)
  then show ?case by simp
next
  case (Call k k' name args recf)
  obtain h1 x where c: "call h name args = (h1, x)" by fastforce
  obtain h2 att where t: "(case x of Inl _ \<Rightarrow> (h1, None) | Inr _ \<Rightarrow> tk h1) = (h2, att)" by fastforce
  from Call.prems c t have
    "run_vm call tk (k x) h2 (tr @ (case recf x att of None \<Rightarrow> [] | Some r \<Rightarrow> [r])) = (h', tr', res, gas, mem)"
    by (simp add: Let_def)
  from Call.IH [OF this] c t show ?case by (simp add: Let_def)
qed

lemma run_outcome_alike:
  assumes "results_alike co res res'" "run_outcome co mx pl res = Inr (out, status)"
  shows "\<exists>status'. run_outcome co mx pl' res' = Inr (out, status') \<and> status_kind status' = status_kind status"
proof (cases res)
  case (Inr v)
  with assms have "res' = Inr v" by (cases res') auto
  with run_outcome_lines [OF assms(2), of pl'] Inr show ?thesis by simp
next
  case (Inl e)
  with assms(1) obtain e' where e': "res' = Inl e'" and
    kind: "status_kind (error_status co e 0) = status_kind (error_status co e' 0)"
    by (cases res') auto
  have "status_kind (error_status co e pl) = status_kind (error_status co e' pl')"
    using kind status_kind_error [of co e pl 0] status_kind_error [of co e' pl' 0] by simp
  with assms(2) Inl e' show ?thesis by (auto simp: run_outcome_def)
qed

section \<open>A stored run replays\<close>

text \<open>What the trace of a run says is what the run did: its records, and the outcome it ended with.\<close>

definition run_recorded ::
  "('t, 'b, 'p, 'k, 'z) core_scheme \<Rightarrow> engine \<Rightarrow> u32 \<Rightarrow> 'p
     \<Rightarrow> trace_entry list \<times> string option \<times> run_status \<times> u64 \<times> u64 \<Rightarrow> bool" where
  "run_recorded co en pl program z \<longleftrightarrow>
     (case z of (entries, out, status, gas, mem) \<Rightarrow>
       \<exists>res. reached_after (core_execute co (vm_config_of (en_vm en)) program) (map te_record entries) (Finish res gas mem) \<and>
         run_outcome co (max_output_bytes (en_vm en)) pl res = Inr (out, status))"

lemma run_program_recorded:
  assumes "run_program co env en who allowed pl program w = (w', Inr z)"
    and "records_calls co (core_execute co (vm_config_of (en_vm en)) program)"
  shows "run_recorded co en pl program z"
proof -
  obtain entries out status gas mem where z: "z = (entries, out, status, gas, mem)" by (cases z)
  from assms(1) [unfolded z] obtain h tr res where
    live: "run_vm (host_call_tool co env) host_take_attestation (core_execute co (vm_config_of (en_vm en)) program)
       (host_new who (en_downstreams en) allowed (en_policy en), w) [] = ((h, w'), tr, res, gas, mem)"
    and outcome: "run_outcome co (max_output_bytes (en_vm en)) pl res = Inr (out, status)"
    and "length tr = length (gh_log h)" "entries = zip_entries tr (gh_log h)"
    by (rule run_program_Inr)
  then have "map te_record entries = tr" by (simp add: zip_entries_parts(1))
  moreover have "reached_after (core_execute co (vm_config_of (en_vm en)) program) tr (Finish res gas mem)"
    by (rule run_vm_reached [OF reached_after.Start assms(2) live]) (rule gateway_host.call_recordable)
  ultimately show ?thesis using outcome by (auto simp: run_recorded_def z)
qed

text \<open>The trace of a run matches the run over its tape of any program with the same hash.\<close>

lemma replay_run_of_recorded:
  assumes run: "run_recorded co en pl program z"
    and t: "t = make_trace cr tw en header z" "th_vm_config header = en_vm en"
    and hash: "program_hash header = hex_encode cr (core_program_hash co program')"
    and alike: "runs_alike co (core_execute co (vm_config_of (en_vm en)) program)
                  (core_execute co (vm_config_of (en_vm en)) program')"
    and tape: "tape_laws co at" "tape_serves co at (core_execute co (vm_config_of (en_vm en)) program)"
  shows "\<exists>rep. replay_run co cr tid t program' = Inr rep \<and> rr_mismatches rep = [] \<and> rr_matched rep"
proof -
  let ?run = "core_execute co (vm_config_of (en_vm en)) program"
  obtain entries out status gas mem where z: "z = (entries, out, status, gas, mem)" by (cases z)
  let ?tr = "map te_record entries"
  from run obtain res where ran: "reached_after ?run ?tr (Finish res gas mem)"
    and outcome: "run_outcome co (max_output_bytes (en_vm en)) pl res = Inr (out, status)"
    by (auto simp: run_recorded_def z)
  have "at (tape_strict co ?tr) (?tr @ [])" using tape(1) by (simp add: tape_laws_def)
  from reached_replays [OF ran tape(2) this, of "[]"] obtain tp' tr' where
    same: "run_vm (tape_call co) (tape_take co) ?run (tape_strict co ?tr) [] = (tp', tr', res, gas, mem)"
    and done_: "tape_diverged co tp' = None" "tape_remaining co tp' = 0"
    using tape(1) by (auto simp: tape_laws_def)
  from run_vm_alike [OF alike same] obtain res' where
    replayed: "run_vm (tape_call co) (tape_take co) (core_execute co (vm_config_of (en_vm en)) program')
      (tape_strict co ?tr) [] = (tp', tr', res', gas, mem)" and res': "results_alike co res res'" by blast
  from run_outcome_alike [OF res' outcome, of 0] obtain status' where
    outcome': "run_outcome co (max_output_bytes (en_vm en)) 0 res' = Inr (out, status')"
      "status_kind status' = status_kind status" by blast
  have "mismatches_of (tr_header t) (tr_footer t) (length entries) (hex_encode cr (core_program_hash co program'))
      None 0 out status' gas mem = []"
    using t hash outcome'(2) by (simp add: mismatches_of_Nil z)
  moreover have "tr_entries t = entries" using t by (simp add: z)
  ultimately show ?thesis
    using replayed done_ outcome'(1) t by (simp add: replay_run_def Let_def)
qed

end
