(* ===== verification/Mcp_Server.thy ===== *)
theory Mcp_Server
  imports Execute_Engine
begin

text \<open>
  \<open>src/server.rs\<close>: bearer authentication and the MCP handlers. The HTTP server, sessions and the
  JSON-RPC transport are the crates axum and rmcp: a request is what the handlers read of it, its
  \<open>Authorization\<close> header as text (\<open>None\<close> where absent or not text) and the tool call, and the
  constructors of rmcp's \<open>CallToolResult\<close> are the record \<open>rmcp\<close>. A panic in a handler is the outcome
  \<open>Panicked\<close>.
\<close>

unbundle bit_operations_syntax

section \<open>Constants\<close>

definition LUA_GUIDE_URI :: string where "LUA_GUIDE_URI = ''proveno://lua-guide''"

definition LUA_GUIDE_NAME :: string where "LUA_GUIDE_NAME = ''lua-guide''"

definition CHECK_DESCRIPTION :: string where
  "CHECK_DESCRIPTION =
     ''Lint a Lua program against the dialect and your tool API without running it. ''
     @ ''Returns `ok`, or `line N: message` as an error result.''"

section \<open>Tokens\<close>

type_synonym tokens = "(string, digest) btree_map"

fun tokens_loop ::
  "crypto \<Rightarrow> (string \<Rightarrow> string option) \<Rightarrow> (string \<times> principal_config) list \<Rightarrow> tokens
     \<Rightarrow> (digest, string) btree_map \<Rightarrow> string + tokens" where
  "tokens_loop cr env [] digests seen = Inr digests"
| "tokens_loop cr env ((name, p) # ps) digests seen =
     (case secret_resolve env (pc_token p) of
        Inl e \<Rightarrow> Inl (''principal `'' @ name @ ''` token: '' @ e)
      | Inr token \<Rightarrow>
          if token = [] then Inl (''principal `'' @ name @ ''` token: the token is empty'')
          else
            (let d = sha256 cr token
             in case map_of seen d of
                  Some other \<Rightarrow> Inl (''principals `'' @ other @ ''` and `'' @ name @ ''` share a token'')
                | None \<Rightarrow> tokens_loop cr env ps (bt_insert name d digests) (bt_insert d name seen)))"

definition tokens_resolve ::
  "crypto \<Rightarrow> (string \<Rightarrow> string option) \<Rightarrow> gateway_config \<Rightarrow> string + tokens" where
  "tokens_resolve cr env config = tokens_loop cr env (gc_principals config) [] []"

definition constant_time_eq :: "digest \<Rightarrow> digest \<Rightarrow> bool" where
  "constant_time_eq a b = (foldl (\<lambda>acc (x, y). acc OR (x XOR y)) 0 (zip a b) = (0 :: u8))"

definition principal_for :: "crypto \<Rightarrow> tokens \<Rightarrow> string \<Rightarrow> string option" where
  "principal_for cr tokens token =
     (let presented = sha256 cr token
      in foldl (\<lambda>found (name, expected). if constant_time_eq presented expected then Some name else found)
           None tokens)"

section \<open>Requests\<close>

datatype 'r http_response = Unauthorized | Served 'r

definition bearer_principal :: "crypto \<Rightarrow> tokens \<Rightarrow> string option \<Rightarrow> string option" where
  "bearer_principal cr tokens authorization =
     Option.bind authorization (\<lambda>value.
     Option.bind (split_once_char (CHR '' '') value) (\<lambda>(scheme, token).
       if eq_ignore_ascii_case scheme ''bearer'' then principal_for cr tokens token else None))"

text \<open>What \<open>require_bearer\<close> passes on is the request with the principal in its extensions; the handlers read
  it back with \<open>principal\<close>, here \<open>request_principal\<close>.\<close>

definition require_bearer ::
  "crypto \<Rightarrow> tokens \<Rightarrow> string option \<Rightarrow> 's \<Rightarrow> (string option \<Rightarrow> 's \<Rightarrow> 's \<times> 'r) \<Rightarrow> 's \<times> 'r http_response" where
  "require_bearer cr tokens authorization s handler =
     (case bearer_principal cr tokens authorization of
        Some name \<Rightarrow> (case handler (Some name) s of (s', r) \<Rightarrow> (s', Served r))
      | None \<Rightarrow> (s, Unauthorized))"

record tool_request =
  tq_name :: string
  tq_arguments :: "(string \<times> json) list option"

datatype rpc_error = InvalidParams string | InternalError string | ResourceNotFound string

definition request_principal :: "string option \<Rightarrow> rpc_error + string" where
  "request_principal extension =
     (case extension of
        Some name \<Rightarrow> Inr name
      | None \<Rightarrow> Inl (InternalError ''request has no authenticated principal''))"

record mcp_result =
  mr_content :: "string list"
  mr_structured :: "json option"
  mr_is_error :: "bool option"

record rmcp =
  rm_success :: "string list \<Rightarrow> mcp_result"
  rm_error :: "string list \<Rightarrow> mcp_result"
  rm_structured :: "json \<Rightarrow> mcp_result"
  rm_structured_error :: "json \<Rightarrow> mcp_result"

datatype outcome = Answer "rpc_error + mcp_result" | Panicked string

section \<open>Arguments\<close>

text \<open>\<open>serde_json::from_value\<close> into the argument structs, which deny unknown fields; \<open>derr\<close> are serde's
  error texts.\<close>

definition string_field :: "(string \<times> json) list \<Rightarrow> string \<Rightarrow> string option" where
  "string_field m k = Option.bind (map_of m k) as_str"

text \<open>An \<open>Option<String>\<close> field: absent or null is \<open>None\<close>, a string \<open>Some\<close>, anything else an error.\<close>

definition option_field :: "(string \<times> json) list \<Rightarrow> string \<Rightarrow> string option option" where
  "option_field m k =
     (case map_of m k of
        None \<Rightarrow> Some None
      | Some JNull \<Rightarrow> Some None
      | Some (JString s) \<Rightarrow> Some (Some s)
      | Some _ \<Rightarrow> None)"

definition execute_args :: "(string \<times> json) list \<Rightarrow> execute_request option" where
  "execute_args m =
     (if \<not> set (map fst m) \<subseteq> {''program'', ''session'', ''request''} then None
      else (case (string_field m ''program'', option_field m ''session'', option_field m ''request'') of
              (Some p, Some s, Some r) \<Rightarrow> Some \<lparr>rq_program = p, rq_session = s, rq_request = r\<rparr>
            | _ \<Rightarrow> None))"

definition check_args_program :: "(string \<times> json) list \<Rightarrow> string option" where
  "check_args_program m = (if \<not> set (map fst m) \<subseteq> {''program''} then None else string_field m ''program'')"

definition args_error :: "(json \<Rightarrow> string) \<Rightarrow> tool_request \<Rightarrow> (string \<times> json) list \<Rightarrow> rpc_error" where
  "args_error derr req m = InvalidParams (tq_name req @ '': invalid arguments: '' @ derr (JObject m))"

section \<open>Handlers\<close>

definition response_json :: "execute_response \<Rightarrow> json" where
  "response_json r =
     JObject (bt_of_list
       [(''result'', case rs_result r of Some v \<Rightarrow> v | None \<Rightarrow> JNull),
        (''trace_id'', JString (rs_trace_id r)),
        (''status'', case status_json (rs_status r) of JObject m \<Rightarrow> JObject (bt_of_list m) | other \<Rightarrow> other)])"

definition failure_warning :: "string \<Rightarrow> string \<Rightarrow> string \<Rightarrow> string" where
  "failure_warning kind message tid =
     kind @ '': '' @ message @ [NL] @ ''The run is recorded as trace '' @ tid
     @ '', and any tool calls it made before failing have already happened, so check them before running it again.''"

definition gateway_execute ::
  "rmcp \<Rightarrow> ('s \<Rightarrow> string \<Rightarrow> execute_request \<Rightarrow> 's \<times> (execute_error + execute_response))
     \<Rightarrow> string \<Rightarrow> execute_request \<Rightarrow> 's \<Rightarrow> 's \<times> outcome" where
  "gateway_execute rm engine_execute who req s =
     (case engine_execute s who req of
        (s', Inr response) \<Rightarrow>
          (s', Answer (Inr
            (case rs_status response of
               RunOk \<Rightarrow> rm_structured rm (response_json response)
             | RunError kind message \<Rightarrow>
                 (rm_structured_error rm (response_json response))
                   \<lparr>mr_content := [failure_warning kind message (rs_trace_id response)]\<rparr>)))
      | (s', Inl (LintE lint)) \<Rightarrow> (s', Answer (Inr (rm_error rm [lint_text lint])))
      | (s', Inl (StoreE e)) \<Rightarrow>
          (s', Answer (Inl (InternalError
             ''the trace could not be stored; the program's tool calls may have been made'')))
      | (s', Inl (PanicE p)) \<Rightarrow> (s', Panicked p))"

definition gateway_check ::
  "rmcp \<Rightarrow> (string \<Rightarrow> string \<Rightarrow> lint_failure + unit) \<Rightarrow> string \<Rightarrow> string \<Rightarrow> outcome" where
  "gateway_check rm engine_lint who program =
     (case engine_lint who program of
        Inr _ \<Rightarrow> Answer (Inr (rm_success rm [''ok'']))
      | Inl (Lint lint) \<Rightarrow> Answer (Inr (rm_error rm [lint_text lint]))
      | Inl (LintPanic p) \<Rightarrow> Panicked p)"

definition call_tool ::
  "rmcp \<Rightarrow> (json \<Rightarrow> string) \<Rightarrow> ('s \<Rightarrow> string \<Rightarrow> execute_request \<Rightarrow> 's \<times> (execute_error + execute_response))
     \<Rightarrow> (string \<Rightarrow> string \<Rightarrow> lint_failure + unit) \<Rightarrow> tool_request \<Rightarrow> string option \<Rightarrow> 's \<Rightarrow> 's \<times> outcome" where
  "call_tool rm derr engine_execute engine_lint req extension s =
     (case request_principal extension of
        Inl e \<Rightarrow> (s, Answer (Inl e))
      | Inr who \<Rightarrow>
          (let m = (case tq_arguments req of Some m \<Rightarrow> m | None \<Rightarrow> [])
           in if tq_name req = ''execute'' then
                (case execute_args m of
                   Some a \<Rightarrow> gateway_execute rm engine_execute who a s
                 | None \<Rightarrow> (s, Answer (Inl (args_error derr req m))))
              else if tq_name req = ''check'' then
                (s, case check_args_program m of
                      Some program \<Rightarrow> gateway_check rm engine_lint who program
                    | None \<Rightarrow> Answer (Inl (args_error derr req m)))
              else (s, Answer (Inl (InvalidParams (''unknown tool `'' @ tq_name req @ ''`''))))))"

text \<open>The schemas of the two tools, as \<open>json!\<close> builds them; \<open>None\<close> is the \<open>unreachable!\<close> of
  \<open>object_schema\<close>.\<close>

definition object_schema :: "json \<Rightarrow> (string \<times> json) list option" where
  "object_schema v = (case v of JObject m \<Rightarrow> Some m | _ \<Rightarrow> None)"

definition string_prop :: "string \<Rightarrow> json" where
  "string_prop d = JObject (bt_of_list [(''type'', JString ''string''), (''description'', JString d)])"

definition execute_schema :: "(string \<times> json) list option" where
  "execute_schema =
     object_schema (JObject (bt_of_list
       [(''type'', JString ''object''),
        (''properties'', JObject (bt_of_list
           [(''program'', string_prop ''The Lua program to run.''),
            (''session'', string_prop ''Groups related executions.''),
            (''request'', string_prop ''The task this program serves, recorded in the trace.'')])),
        (''required'', JArray [JString ''program'']),
        (''additionalProperties'', JBool False)]))"

definition check_schema :: "(string \<times> json) list option" where
  "check_schema =
     object_schema (JObject (bt_of_list
       [(''type'', JString ''object''),
        (''properties'', JObject (bt_of_list [(''program'', string_prop ''The Lua program to lint.'')])),
        (''required'', JArray [JString ''program'']),
        (''additionalProperties'', JBool False)]))"

text \<open>A listed tool is its name, its description and its schema.\<close>

definition list_tools_for ::
  "(string \<Rightarrow> tool_description) \<Rightarrow> string option
     \<Rightarrow> rpc_error + (string \<times> string \<times> (string \<times> json) list option) list" where
  "list_tools_for describe extension =
     bind_r (request_principal extension) (\<lambda>who.
       Inr [(''execute'', td_text (describe who), execute_schema), (''check'', CHECK_DESCRIPTION, check_schema)])"

definition GUIDE_DESCRIPTION :: string where
  "GUIDE_DESCRIPTION = ''The Lua dialect guide and example programs.''"

text \<open>The one resource: its URI, name, description and MIME type; and the one prompt.\<close>

definition list_resources :: "(string \<times> string \<times> string \<times> string) list" where
  "list_resources = [(LUA_GUIDE_URI, LUA_GUIDE_NAME, GUIDE_DESCRIPTION, ''text/markdown'')]"

definition list_prompts :: "(string \<times> string option) list" where
  "list_prompts = [(LUA_GUIDE_NAME, Some GUIDE_DESCRIPTION)]"

definition read_resource :: "string \<Rightarrow> rpc_error + string" where
  "read_resource uri =
     (if uri \<noteq> LUA_GUIDE_URI then Inl (ResourceNotFound (''unknown resource `'' @ uri @ ''`''))
      else Inr lua_guide)"

definition get_prompt :: "string \<Rightarrow> rpc_error + string" where
  "get_prompt name =
     (if name \<noteq> LUA_GUIDE_NAME then Inl (InvalidParams (''unknown prompt `'' @ name @ ''`''))
      else Inr lua_guide)"

section \<open>The server\<close>

text \<open>\<open>start\<close>: the tokens first, then the engine; binding the address is the operating system's.\<close>

datatype serve_error = TokensFailed string | EngineFailed start_error | ListenFailed string string

definition server_start ::
  "crypto \<Rightarrow> start_env \<Rightarrow> io_env \<Rightarrow> (string \<Rightarrow> string option) \<Rightarrow> gateway_config \<Rightarrow> fs
     \<Rightarrow> fs \<times> (serve_error + tokens \<times> engine)" where
  "server_start cr se io bind_error config s =
     (case tokens_resolve cr (se_env se) config of
        Inl e \<Rightarrow> (s, Inl (TokensFailed e))
      | Inr tokens \<Rightarrow>
          (case engine_new cr se io config s of
             (s', Inl e) \<Rightarrow> (s', Inl (EngineFailed e))
           | (s', Inr en) \<Rightarrow>
               (s', case bind_error (listen (gc_server config)) of
                      Some e \<Rightarrow> Inl (ListenFailed (listen (gc_server config)) e)
                    | None \<Rightarrow> Inr (tokens, en))))"

text \<open>One tool call over HTTP, from the header to the response.\<close>

definition serve_call ::
  "('t, 'b, 'p, 'k, 'z) core_scheme \<Rightarrow> crypto \<Rightarrow> trace_writer \<Rightarrow> io_env \<Rightarrow> 'w host_env \<Rightarrow> rmcp \<Rightarrow> (json \<Rightarrow> string)
     \<Rightarrow> tokens \<Rightarrow> engine \<Rightarrow> string \<Rightarrow> string option \<Rightarrow> tool_request \<Rightarrow> fs \<times> 'w
     \<Rightarrow> (fs \<times> 'w) \<times> outcome http_response" where
  "serve_call co cr tw io env rm derr tokens en tid authorization req sw =
     require_bearer cr tokens authorization sw
       (call_tool rm derr
          (\<lambda>sw who r. execute co cr tw io env en tid who r sw)
          (\<lambda>who program. engine_check co cr en who program) req)"

section \<open>Facts: comparing digests\<close>

lemma or_zero_iff: "(a :: u8) OR b = 0 \<longleftrightarrow> a = 0 \<and> b = 0"
  by (auto simp: bit_eq_iff bit_or_iff)

lemma xor_zero_iff: "(a :: u8) XOR b = 0 \<longleftrightarrow> a = b"
  by (auto simp: bit_eq_iff bit_xor_iff)

lemma fold_differences:
  "foldl (\<lambda>acc (x, y). acc OR (x XOR y)) acc zs = (0 :: u8) \<longleftrightarrow> acc = 0 \<and> (\<forall>(x, y) \<in> set zs. x = y)"
  by (induction zs arbitrary: acc) (auto simp: or_zero_iff xor_zero_iff)

lemma constant_time_eq_iff: "length a = length b \<Longrightarrow> constant_time_eq a b \<longleftrightarrow> a = b"
proof -
  assume len: "length a = length b"
  have "(\<forall>(x, y) \<in> set (zip a b). x = y) \<longleftrightarrow> a = b"
    using len by (induction a b rule: list_induct2) auto
  then show ?thesis by (simp add: constant_time_eq_def fold_differences)
qed

section \<open>Facts: tokens\<close>

text \<open>Tokens that tell principals apart, with digests of the length SHA-256 has.\<close>

definition tokens_wf :: "tokens \<Rightarrow> bool" where
  "tokens_wf ts \<longleftrightarrow>
     bt_wf ts \<and> (\<forall>d \<in> snd ` set ts. length d = 32) \<and>
     (\<forall>n n' d. map_of ts n = Some d \<longrightarrow> map_of ts n' = Some d \<longrightarrow> n = n')"

lemma fold_found_in:
  "foldl (\<lambda>found (name, e). if P e then Some name else found) acc ts = Some n \<Longrightarrow>
     acc = Some n \<or> (\<exists>e. (n, e) \<in> set ts \<and> P e)"
  by (induction ts arbitrary: acc) (auto split: if_splits, blast+)

lemma fold_found_only:
  "acc = Some n \<or> (\<exists>e. (n, e) \<in> set ts \<and> P e) \<Longrightarrow> \<forall>(m, e) \<in> set ts. P e \<longrightarrow> m = n \<Longrightarrow>
     foldl (\<lambda>found (name, e). if P e then Some name else found) acc ts = Some n"
proof (induction ts arbitrary: acc)
  case Nil
  then show ?case by simp
next
  case (Cons t ts)
  obtain m e where t: "t = (m, e)" by fastforce
  show ?case
    unfolding t foldl_Cons split by (rule Cons.IH) (use Cons.prems t in auto)
qed

lemma principal_for_iff:
  assumes "tokens_wf ts" "length (sha256 cr token) = 32"
  shows "principal_for cr ts token = Some n \<longleftrightarrow> map_of ts n = Some (sha256 cr token)"
proof -
  let ?P = "constant_time_eq (sha256 cr token)"
  have wf: "distinct (map fst ts)" using assms(1) by (simp add: tokens_wf_def bt_wf_distinct)
  have P: "?P e \<longleftrightarrow> e = sha256 cr token" if "(m, e) \<in> set ts" for m e
  proof -
    have "length e = 32" using assms(1) that by (force simp: tokens_wf_def)
    then show ?thesis using constant_time_eq_iff [of "sha256 cr token" e] assms(2) by auto
  qed
  have one: "m = n" if "(m, sha256 cr token) \<in> set ts" "(n, sha256 cr token) \<in> set ts" for m n
    using assms(1) that wf by (auto simp: tokens_wf_def)
  have "principal_for cr ts token = Some n \<longleftrightarrow> (n, sha256 cr token) \<in> set ts"
  proof
    assume "principal_for cr ts token = Some n"
    then obtain e where "(n, e) \<in> set ts" "?P e"
      by (auto simp: principal_for_def dest: fold_found_in)
    with P show "(n, sha256 cr token) \<in> set ts" by blast
  next
    assume n: "(n, sha256 cr token) \<in> set ts"
    show "principal_for cr ts token = Some n"
      unfolding principal_for_def Let_def by (rule fold_found_only) (use n P one in blast)+
  qed
  with wf show ?thesis by simp
qed

text \<open>What resolving the tokens establishes.\<close>

definition token_of ::
  "(string \<Rightarrow> string option) \<Rightarrow> (string \<times> principal_config) list \<Rightarrow> string \<Rightarrow> string option" where
  "token_of env ps name =
     Option.bind (map_of ps name) (\<lambda>p. case secret_resolve env (pc_token p) of Inr t \<Rightarrow> Some t | Inl _ \<Rightarrow> None)"

lemma tokens_loop_Inr:
  assumes "tokens_loop cr env ps digests seen = Inr ts" "distinct (map fst ps)" "tokens_wf digests"
    and "\<forall>n \<in> fst ` set ps. map_of digests n = None"
    and "\<forall>d. (map_of seen d \<noteq> None) \<longleftrightarrow> d \<in> ran (map_of digests)"
    and "\<forall>t. length (sha256 cr t) = 32"
  shows "tokens_wf ts \<and> (\<forall>n. map_of ts n =
     (case map_of digests n of Some d \<Rightarrow> Some d | None \<Rightarrow> map_option (sha256 cr) (token_of env ps n))) \<and>
     (\<forall>p \<in> set ps. is_ok (secret_resolve env (pc_token (snd p))))"
  using assms
proof (induction ps arbitrary: digests seen)
  case Nil
  then show ?case by (auto simp: token_of_def split: option.splits)
next
  case (Cons x ps)
  obtain name p where x: "x = (name, p)" by fastforce
  from Cons.prems(1) obtain tok where tok: "secret_resolve env (pc_token p) = Inr tok"
    and fresh: "map_of seen (sha256 cr tok) = None"
    and rest: "tokens_loop cr env ps (bt_insert name (sha256 cr tok) digests) (bt_insert (sha256 cr tok) name seen) = Inr ts"
    by (auto simp: x Let_def split: sum.splits if_splits option.splits)
  let ?d = "sha256 cr tok" and ?digests = "bt_insert name (sha256 cr tok) digests"
  have new: "map_of digests name = None" using Cons.prems(4) x by simp
  have unused: "?d \<notin> ran (map_of digests)" using Cons.prems(5) fresh by blast
  have keys: "map_of ?digests = (map_of digests)(name \<mapsto> ?d)" by (rule map_of_bt_insert)
  have wf: "tokens_wf ?digests"
  proof -
    have "bt_wf ?digests" using Cons.prems(3) by (simp add: tokens_wf_def bt_wf_insert)
    moreover have "length d = 32" if "d \<in> snd ` set ?digests" for d
    proof -
      from that obtain n where "map_of ?digests n = Some d"
        using bt_wf_distinct [OF \<open>bt_wf ?digests\<close>] by auto
      then have "d = ?d \<or> map_of digests n = Some d" by (auto simp: keys split: if_splits)
      then show ?thesis using Cons.prems(3,6) by (force simp: tokens_wf_def dest: map_of_SomeD)
    qed
    moreover have "n = n'" if "map_of ?digests n = Some d" "map_of ?digests n' = Some d" for n n' d
      using that unused Cons.prems(3) by (auto simp: keys tokens_wf_def ran_def split: if_splits)
    ultimately show ?thesis by (simp add: tokens_wf_def)
  qed
  have seen: "\<forall>d. (map_of (bt_insert ?d name seen) d \<noteq> None) \<longleftrightarrow> d \<in> ran (map_of ?digests)"
    using Cons.prems(5) new by (auto simp: keys map_of_bt_insert ran_map_upd)
  have "\<forall>n \<in> fst ` set ps. map_of ?digests n = None"
    using Cons.prems(2,4) x by (auto simp: keys)
  with Cons.IH [OF rest _ wf _ seen Cons.prems(6)] Cons.prems(2) x
  have IH: "tokens_wf ts" "\<forall>n. map_of ts n = (case map_of ?digests n of Some d \<Rightarrow> Some d
      | None \<Rightarrow> map_option (sha256 cr) (token_of env ps n))" "\<forall>p \<in> set ps. is_ok (secret_resolve env (pc_token (snd p)))"
    by auto
  have "map_of ts n = (case map_of digests n of Some d \<Rightarrow> Some d
      | None \<Rightarrow> map_option (sha256 cr) (token_of env ((name, p) # ps) n))" for n
    using IH(2) new tok by (auto simp: keys token_of_def split: option.splits)
  with IH(1,3) tok show ?case unfolding x by (intro conjI allI) auto
qed

lemma tokens_resolve_Inr:
  assumes "tokens_resolve cr env config = Inr ts" "bt_wf (gc_principals config)" "\<forall>t. length (sha256 cr t) = 32"
  shows "tokens_wf ts" "map_of ts n = map_option (sha256 cr) (token_of env (gc_principals config) n)"
  using tokens_loop_Inr [of cr env "gc_principals config" "[]" "[]" ts] assms
  by (auto simp: tokens_resolve_def bt_wf_distinct tokens_wf_def bt_wf_def)

section \<open>Facts: requests\<close>

lemma bearer_principal_Some:
  "bearer_principal cr ts authorization = Some n \<longleftrightarrow>
     (\<exists>scheme token. authorization = Some (scheme @ CHR '' '' # token) \<and> CHR '' '' \<notin> set scheme \<and>
        eq_ignore_ascii_case scheme ''bearer'' \<and> principal_for cr ts token = Some n)"
  by (auto simp: bearer_principal_def bind_eq_Some_conv split_once_char_Some split: if_splits)

lemma call_tool_state:
  assumes "call_tool rm derr ex lint req extension s = (s', out)"
  shows "s' = s \<or> (\<exists>who a r. extension = Some who \<and> tq_name req = ''execute'' \<and>
     execute_args (case tq_arguments req of Some m \<Rightarrow> m | None \<Rightarrow> []) = Some a \<and> ex s who a = (s', r))"
  using assms
  by (auto simp: call_tool_def gateway_execute_def request_principal_def Let_def
      split: if_splits option.splits prod.splits sum.splits execute_error.splits)

lemma serve_call_unauthorized:
  "bearer_principal cr ts authorization = None \<Longrightarrow>
     serve_call co cr tw io env rm derr ts en tid authorization req sw = (sw, Unauthorized)"
  by (simp add: serve_call_def require_bearer_def)

text \<open>A request that carries a principal's token is served in that principal's name.\<close>

lemma serve_call_execute:
  assumes "bearer_principal cr ts authorization = Some p" "tq_name req = ''execute''"
    and "execute_args (case tq_arguments req of Some m \<Rightarrow> m | None \<Rightarrow> []) = Some a"
  shows "\<exists>sw' r. execute co cr tw io env en tid p a sw = (sw', r) \<and>
     serve_call co cr tw io env rm derr ts en tid authorization req sw =
       (sw', Served (snd (gateway_execute rm (\<lambda>_ _ _. (sw', r)) p a sw)))"
proof -
  obtain sw' r where "execute co cr tw io env en tid p a sw = (sw', r)" by fastforce
  with assms show ?thesis
    by (auto simp: serve_call_def require_bearer_def call_tool_def request_principal_def gateway_execute_def Let_def
        split: sum.splits execute_error.splits)
qed

lemma serve_call_check:
  assumes "bearer_principal cr ts authorization = Some p" "tq_name req = ''check''"
    and "check_args_program (case tq_arguments req of Some m \<Rightarrow> m | None \<Rightarrow> []) = Some program"
  shows "serve_call co cr tw io env rm derr ts en tid authorization req sw =
     (sw, Served (gateway_check rm (engine_check co cr en) p program))"
  using assms by (simp add: serve_call_def require_bearer_def call_tool_def request_principal_def Let_def)

lemma serve_call_other:
  assumes "bearer_principal cr ts authorization = Some p"
    and "\<not> (tq_name req = ''execute'' \<and> execute_args (case tq_arguments req of Some m \<Rightarrow> m | None \<Rightarrow> []) \<noteq> None)"
    and "\<not> (tq_name req = ''check'' \<and> check_args_program (case tq_arguments req of Some m \<Rightarrow> m | None \<Rightarrow> []) \<noteq> None)"
  shows "\<exists>e. serve_call co cr tw io env rm derr ts en tid authorization req sw = (sw, Served (Answer (Inl (InvalidParams e))))"
  using assms
  by (auto simp: serve_call_def require_bearer_def call_tool_def request_principal_def args_error_def Let_def
      split: option.splits)

lemma serve_call_served:
  "let m = (case tq_arguments req of Some m \<Rightarrow> m | None \<Rightarrow> []) in
   case bearer_principal cr ts authorization of
     None \<Rightarrow> serve_call co cr tw io env rm derr ts en tid authorization req sw = (sw, Unauthorized)
   | Some p \<Rightarrow>
       if tq_name req = ''execute'' \<and> execute_args m \<noteq> None then
         (\<exists>sw' r. execute co cr tw io env en tid p (the (execute_args m)) sw = (sw', r) \<and>
            serve_call co cr tw io env rm derr ts en tid authorization req sw =
              (sw', Served (snd (gateway_execute rm (\<lambda>_ _ _. (sw', r)) p (the (execute_args m)) sw))))
       else if tq_name req = ''check'' \<and> check_args_program m \<noteq> None then
         serve_call co cr tw io env rm derr ts en tid authorization req sw =
           (sw, Served (gateway_check rm (engine_check co cr en) p (the (check_args_program m))))
       else (\<exists>e. serve_call co cr tw io env rm derr ts en tid authorization req sw = (sw, Served (Answer (Inl (InvalidParams e)))))"
proof (cases "bearer_principal cr ts authorization")
  case None
  then show ?thesis by (simp add: serve_call_unauthorized)
next
  case (Some p)
  let ?m = "case tq_arguments req of Some m \<Rightarrow> m | None \<Rightarrow> []"
  consider (run) a where "tq_name req = ''execute''" "execute_args ?m = Some a"
    | (chk) program where "tq_name req = ''check''" "check_args_program ?m = Some program"
    | (other) "\<not> (tq_name req = ''execute'' \<and> execute_args ?m \<noteq> None)" "\<not> (tq_name req = ''check'' \<and> check_args_program ?m \<noteq> None)"
    by blast
  then show ?thesis
  proof cases
    case run
    from serve_call_execute [OF Some run, of co tw io env en tid sw rm derr] run Some show ?thesis by simp
  next
    case chk
    from serve_call_check [OF Some chk, of co tw io env rm derr en tid sw] chk Some show ?thesis by simp
  next
    case other
    from serve_call_other [OF Some other, of co tw io env rm derr en tid sw] show ?thesis
      unfolding Let_def Some option.case(2) if_not_P [OF other(1)] if_not_P [OF other(2)] .
  qed
qed

lemma serve_call_state:
  assumes "serve_call co cr tw io env rm derr ts en tid authorization req (s, w) = ((s', w'), out)"
  shows "(s' = s \<and> w' = w) \<or>
     (\<exists>who a r. bearer_principal cr ts authorization = Some who \<and> tq_name req = ''execute'' \<and>
        execute_args (case tq_arguments req of Some m \<Rightarrow> m | None \<Rightarrow> []) = Some a \<and>
        execute co cr tw io env en tid who a (s, w) = ((s', w'), r))"
proof (cases "bearer_principal cr ts authorization")
  case None
  with assms show ?thesis by (simp add: serve_call_unauthorized)
next
  case (Some who)
  let ?ct = "call_tool rm derr (\<lambda>sw who r. execute co cr tw io env en tid who r sw)
      (\<lambda>who program. engine_check co cr en who program) req (Some who) (s, w)"
  obtain r where "?ct = ((s', w'), r)"
    using assms Some by (cases ?ct) (auto simp: serve_call_def require_bearer_def)
  from call_tool_state [OF this] Some show ?thesis by auto
qed

text \<open>A program's outcome and the answer: success only for a run that succeeded.\<close>

definition rmcp_laws :: "rmcp \<Rightarrow> bool" where
  "rmcp_laws rm \<longleftrightarrow>
     (\<forall>c. mr_is_error (rm_success rm c) = Some False \<and> mr_content (rm_success rm c) = c) \<and>
     (\<forall>c. mr_is_error (rm_error rm c) = Some True \<and> mr_content (rm_error rm c) = c) \<and>
     (\<forall>v. mr_is_error (rm_structured rm v) = Some False \<and> mr_structured (rm_structured rm v) = Some v) \<and>
     (\<forall>v. mr_is_error (rm_structured_error rm v) = Some True \<and> mr_structured (rm_structured_error rm v) = Some v)"

lemma gateway_execute_answer:
  assumes "rmcp_laws rm" "gateway_execute rm ex who req s = (s', Answer (Inr res))"
  shows "mr_is_error res = Some False \<longleftrightarrow> (\<exists>resp. ex s who req = (s', Inr resp) \<and> rs_status resp = RunOk)"
  using assms
  by (auto simp: gateway_execute_def rmcp_laws_def
      split: prod.splits sum.splits run_status.splits execute_error.splits)

end
