(* ===== verification/Gateway_Cli.thy ===== *)
theory Gateway_Cli
  imports Trace_Replay Mcp_Server
begin

text \<open>
  \<open>src/main.rs\<close> and the end of \<open>serve\<close> in \<open>src/server.rs\<close>: the subcommands, as their exit code and what
  they print to standard output. Argument parsing (clap), the runtime and the texts on standard error are
  not modelled. What happens while the server runs is a parameter \<open>serving\<close>: the state it leaves behind
  and how it ended; the requests it serves are the steps of \<open>Gateway_Service\<close>.
\<close>

section \<open>Outcomes\<close>

datatype cli_result = Exit (exit_code: nat) (exit_output: "string list") | Crashed string

definition SUCCESS :: nat where "SUCCESS = 0"

definition FAILURE :: nat where "FAILURE = 1"

definition replay_lines :: "replay_report \<Rightarrow> string list" where
  "replay_lines r =
     (if \<not> rr_matched r
      then (''replay mismatched: '' @ rr_trace_id r) # map (\<lambda>m. ''  '' @ m) (rr_mismatches r)
      else [''replay matched: '' @ rr_trace_id r,
            ''output: '' @ opt_text (rr_output r),
            ''status: '' @ status_kind (rr_status r),
            ''gas_used: '' @ show_nat (unat (rr_gas_used r)),
            ''memory_used: '' @ show_nat (unat (rr_memory_used r))])"

definition replay_command ::
  "('t, 'b, 'p, 'k, 'z) core_scheme \<Rightarrow> crypto \<Rightarrow> trace_writer \<Rightarrow> io_env \<Rightarrow> (string \<Rightarrow> string option)
     \<Rightarrow> (string \<Rightarrow> string + trace) \<Rightarrow> (string \<Rightarrow> string + gateway_config) \<Rightarrow> (path \<Rightarrow> string + string)
     \<Rightarrow> path \<Rightarrow> string \<Rightarrow> fs \<Rightarrow> fs \<times> cli_result" where
  "replay_command co cr tw io env from_slice toml read config_path tid s =
     (case config_load toml read config_path of
        Inl e \<Rightarrow> (s, Exit FAILURE [])
      | Inr config \<Rightarrow>
          (case replay co cr tw io env from_slice config tid s of
             (s', Inl (ReplayPanic p)) \<Rightarrow> (s', Crashed p)
           | (s', Inl e) \<Rightarrow> (s', Exit FAILURE [])
           | (s', Inr report) \<Rightarrow>
               (s', Exit (if rr_matched report then SUCCESS else FAILURE) (replay_lines report))))"

text \<open>\<open>run\<close>: a set-up failure exits 2.\<close>

definition run_command :: "'e + cli_result \<Rightarrow> cli_result" where
  "run_command r = (case r of Inl e \<Rightarrow> Exit 2 [] | Inr x \<Rightarrow> x)"

definition check_command ::
  "('t, 'b, 'p, 'k, 'z) core_scheme \<Rightarrow> crypto \<Rightarrow> start_env \<Rightarrow> io_env \<Rightarrow> (string \<Rightarrow> string + gateway_config)
     \<Rightarrow> path \<Rightarrow> string \<Rightarrow> path \<Rightarrow> fs \<Rightarrow> fs \<times> cli_result" where
  "check_command co cr se io toml config_path who file s =
     (case se_read se file of
        Inl e \<Rightarrow> (s, run_command (Inl e))
      | Inr program \<Rightarrow>
          (case config_load toml (se_read se) config_path of
             Inl e \<Rightarrow> (s, run_command (Inl e))
           | Inr config \<Rightarrow>
               (case engine_new cr se io config s of
                  (s', Inl e) \<Rightarrow> (s', run_command (Inl e))
                | (s', Inr en) \<Rightarrow>
                    (s', run_command (Inr
                      (case engine_check co cr en who program of
                         Inr _ \<Rightarrow> Exit SUCCESS [''ok'']
                       | Inl (Lint lint) \<Rightarrow> Exit FAILURE [lint_text lint]
                       | Inl (LintPanic p) \<Rightarrow> Crashed p) :: unit + cli_result)))))"

section \<open>Serving and the entry point\<close>

text \<open>The ways the \<open>select!\<close> of \<open>serve\<close> ends: the server task ends (joined or not, with or without an
  error), or the interrupt arrives (or waiting for it fails).\<close>

datatype serve_end =
    TaskNotJoined string
  | TaskFailed string
  | TaskEnded
  | Interrupted
  | SignalFailed string

fun serve_result :: "serve_end \<Rightarrow> string + unit" where
  "serve_result (TaskNotJoined e) = Inl (''server task: '' @ e)"
| "serve_result (TaskFailed e) = Inl (''server: '' @ e)"
| "serve_result TaskEnded = Inr ()"
| "serve_result Interrupted = Inr ()"
| "serve_result (SignalFailed e) = Inl (''wait for ctrl-c: '' @ e)"

datatype serve_failure = NotConfigured string | NotStarted serve_error | Ended string

definition serve_command ::
  "crypto \<Rightarrow> start_env \<Rightarrow> io_env \<Rightarrow> (string \<Rightarrow> string option) \<Rightarrow> (string \<Rightarrow> string + gateway_config)
     \<Rightarrow> (tokens \<Rightarrow> engine \<Rightarrow> fs \<Rightarrow> fs \<times> serve_end) \<Rightarrow> path \<Rightarrow> fs \<Rightarrow> fs \<times> (serve_failure + cli_result)" where
  "serve_command cr se io bind_error toml serving config_path s =
     (case config_load toml (se_read se) config_path of
        Inl e \<Rightarrow> (s, Inl (NotConfigured e))
      | Inr config \<Rightarrow>
          (case server_start cr se io bind_error config s of
             (s', Inl e) \<Rightarrow> (s', Inl (NotStarted e))
           | (s', Inr (tokens, en)) \<Rightarrow>
               (case serving tokens en s' of
                  (s'', finished) \<Rightarrow>
                    (s'', bind_r (map_err Ended (serve_result finished)) (\<lambda>_. Inr (Exit SUCCESS []))))))"

datatype command = Serve path | Check path string path | Replay path string

text \<open>\<open>main\<close>, after parsing; \<open>runtime_error\<close> is the failure to create the runtime, if any.\<close>

definition cli_main ::
  "('t, 'b, 'p, 'k, 'z) core_scheme \<Rightarrow> crypto \<Rightarrow> trace_writer \<Rightarrow> start_env \<Rightarrow> io_env \<Rightarrow> (string \<Rightarrow> string option)
     \<Rightarrow> (string \<Rightarrow> string + trace) \<Rightarrow> (string \<Rightarrow> string + gateway_config) \<Rightarrow> (tokens \<Rightarrow> engine \<Rightarrow> fs \<Rightarrow> fs \<times> serve_end)
     \<Rightarrow> string option \<Rightarrow> command \<Rightarrow> fs \<Rightarrow> fs \<times> cli_result" where
  "cli_main co cr tw se io bind_error from_slice toml serving runtime_error cmd s =
     (case cmd of
        Serve config \<Rightarrow>
          (case runtime_error of
             Some e \<Rightarrow> (s, run_command (Inl e))
           | None \<Rightarrow>
               (case serve_command cr se io bind_error toml serving config s of
                  (s', r) \<Rightarrow> (s', run_command r)))
      | Check config who file \<Rightarrow>
          (case runtime_error of
             Some e \<Rightarrow> (s, run_command (Inl e))
           | None \<Rightarrow> check_command co cr se io toml config who file s)
      | Replay config tid \<Rightarrow>
          replay_command co cr tw io (se_env se) from_slice toml (se_read se) config tid s)"

section \<open>Facts\<close>

lemma replay_command_success:
  "replay_command co cr tw io env from_slice toml read config_path tid s = (s', Exit 0 out) \<longleftrightarrow>
     (\<exists>config report. config_load toml read config_path = Inr config \<and>
        replay co cr tw io env from_slice config tid s = (s', Inr report) \<and> rr_matched report \<and>
        out = replay_lines report)"
  by (auto simp: replay_command_def SUCCESS_def FAILURE_def
      split: sum.splits prod.splits replay_error.splits if_splits)

lemma check_command_exit:
  assumes "check_command co cr se io toml config_path who file s = (s', Exit code out)"
  shows "(code = 0 \<longrightarrow> (\<exists>program config en. se_read se file = Inr program \<and>
            config_load toml (se_read se) config_path = Inr config \<and>
            engine_new cr se io config s = (s', Inr en) \<and> engine_check co cr en who program = Inr () \<and> out = [''ok''])) \<and>
     (code = 1 \<longrightarrow> (\<exists>program config en lint. se_read se file = Inr program \<and>
            config_load toml (se_read se) config_path = Inr config \<and>
            engine_new cr se io config s = (s', Inr en) \<and>
            engine_check co cr en who program = Inl (Lint lint) \<and> out = [lint_text lint])) \<and>
     code \<le> 2"
  using assms
  by (auto simp: check_command_def run_command_def SUCCESS_def FAILURE_def
      split: sum.splits prod.splits lint_failure.splits)

lemma serve_result_ok: "serve_result f = Inr () \<longleftrightarrow> f = TaskEnded \<or> f = Interrupted"
  by (cases f) simp_all

lemma serve_command_exit:
  assumes "serve_command cr se io bind_error toml serving config_path s = (s', Inr x)"
  shows "x = Exit 0 [] \<and> (\<exists>config s1 tokens en f. config_load toml (se_read se) config_path = Inr config \<and>
     server_start cr se io bind_error config s = (s1, Inr (tokens, en)) \<and>
     serving tokens en s1 = (s', f) \<and> (f = TaskEnded \<or> f = Interrupted))"
  using assms
  by (auto simp: serve_command_def SUCCESS_def result_simps serve_result_ok split: sum.splits prod.splits)

end
