(* ===== verification/Gateway_Service.thy ===== *)
theory Gateway_Service
  imports Trace_Replay Mcp_Server
begin

text \<open>
  The gateway as a whole, over any history of requests: a step is one tool call over HTTP, from its
  \<open>Authorization\<close> header to the state it leaves behind. Shows what every step keeps (stored files, and
  that each stored program compiles to the hash it is filed under), what it can do to the world, and
  that an answered run can be replayed at any later time.
\<close>

section \<open>What a store operation can change\<close>

lemma put_content_files:
  "put_content_addressed io s p kind key content = (s', r) \<Longrightarrow> store_path p \<Longrightarrow> \<not> is_tmp q \<Longrightarrow>
     fs_files s' q = fs_files s q \<or> (q = p \<and> fs_files s' q = Some content)"
  by (auto simp: put_content_addressed_def dest: write_atomic_files
      split: sum.splits io_error.splits if_splits)

lemma put_program_files:
  "put_program io st s key src = (s', r) \<Longrightarrow> \<not> is_tmp q \<Longrightarrow>
     fs_files s' q = fs_files s q \<or> (key_path (st_programs st) key ''lua'' = Inr q \<and> fs_files s' q = Some src)"
  by (auto simp: put_program_def dest: put_content_files key_path_store split: sum.splits)

lemma put_description_files:
  "put_description io st s key txt = (s', r) \<Longrightarrow> \<not> is_tmp q \<Longrightarrow>
     fs_files s' q = fs_files s q \<or> key_path (st_descriptions st) key ''txt'' = Inr q"
  by (auto simp: put_description_def dest: put_content_files key_path_store split: sum.splits)

lemma put_trace_files:
  "put_trace io w st s t = (s', r) \<Longrightarrow> \<not> is_tmp q \<Longrightarrow>
     fs_files s' q = fs_files s q \<or> key_path (st_traces st) (trace_id (tr_header t)) ''json'' = Inr q"
  by (auto simp: put_trace_def dest: write_atomic_files key_path_store split: sum.splits if_splits)

lemma finish_files:
  "finish cr tw sd io en header s run = (s', r) \<Longrightarrow> \<not> is_tmp q \<Longrightarrow>
     fs_files s' q = fs_files s q \<or> key_path (st_traces (en_store en)) (trace_id header) ''json'' = Inr q"
  by (auto simp: finish_def Let_def dest: put_trace_files split: prod.splits sum.splits)

lemma finish_keeps:
  "finish cr tw sd io en header s run = (s', r) \<Longrightarrow> (\<And>p. \<not> io_stat io p) \<Longrightarrow> keeps s s'"
  by (auto simp: finish_def Let_def dest: put_trace_keeps split: prod.splits sum.splits)

lemma finish_keeps_but:
  assumes "finish cr tw sd io en header s run = (s', r)"
  shows "keeps_but (\<lambda>q. io_stat io q \<and> key_path (st_traces (en_store en)) (trace_id header) ''json'' = Inr q) s s'"
proof -
  obtain r1 where "put_trace io tw (en_store en) s (make_trace cr tw en header run) = (s', r1)"
    using assms by (auto simp: finish_def Let_def split: prod.splits sum.splits)
  from put_trace_keeps_but [OF this] show ?thesis by (simp add: make_trace_parts)
qed

lemma program_path_apart:
  assumes "key_path d k ''lua'' = Inr q"
  shows "key_path d' k' ''txt'' \<noteq> Inr q" "key_path d' k' ''json'' \<noteq> Inr q"
  using assms key_paths_apart(1) [of d k d' k'] key_paths_apart(2) [of d k d' k'] by (auto simp: key_path_Inr)

section \<open>What one execution keeps\<close>

text \<open>Every stored program is filed under the hash of what it compiles to, and is text.\<close>

definition programs_sound :: "('t, 'b, 'p, 'k, 'z) core_scheme \<Rightarrow> crypto \<Rightarrow> trace_store \<Rightarrow> fs \<Rightarrow> bool" where
  "programs_sound co cr st s \<longleftrightarrow>
     (\<forall>key p c. key_path (st_programs st) key ''lua'' = Inr p \<longrightarrow> fs_files s p = Some c \<longrightarrow>
        utf8_valid c \<and>
        (\<exists>program. compile_program co [] c = Inr program \<and> hex_encode cr (core_program_hash co program) = key))"

lemma programs_sound_unchanged:
  assumes "programs_sound co cr st s"
    and "\<And>q. \<not> is_tmp q \<Longrightarrow> fs_files s' q = fs_files s q \<or> key_path d k ext = Inr q"
    and "ext = ''txt'' \<or> ext = ''json''"
  shows "programs_sound co cr st s'"
  unfolding programs_sound_def
proof (intro allI impI)
  fix key p c
  assume p: "key_path (st_programs st) key ''lua'' = Inr p" "fs_files s' p = Some c"
  have "\<not> is_tmp p" using key_path_store [OF p(1)] by (simp add: store_path_def)
  from assms(2) [OF this] assms(3) program_path_apart [OF p(1), of d k] p(2) have "fs_files s p = Some c" by auto
  with assms(1) p(1) show "utf8_valid c \<and>
      (\<exists>program. compile_program co [] c = Inr program \<and> hex_encode cr (core_program_hash co program) = key)"
    unfolding programs_sound_def by blast
qed

lemma programs_sound_put:
  assumes "programs_sound co cr st s" "put_program io st s (hex_encode cr (core_program_hash co program)) src = (s', r)"
    and "utf8_valid src" "compile_program co [] src = Inr program"
  shows "programs_sound co cr st s'"
  unfolding programs_sound_def
proof (intro allI impI)
  fix key p c
  assume p: "key_path (st_programs st) key ''lua'' = Inr p" "fs_files s' p = Some c"
  have "\<not> is_tmp p" using key_path_store [OF p(1)] by (simp add: store_path_def)
  from put_program_files [OF assms(2) this]
  show "utf8_valid c \<and>
      (\<exists>program. compile_program co [] c = Inr program \<and> hex_encode cr (core_program_hash co program) = key)"
  proof
    assume "fs_files s' p = fs_files s p"
    with assms(1) p show ?thesis unfolding programs_sound_def by (metis (no_types, lifting))
  next
    assume new: "key_path (st_programs st) (hex_encode cr (core_program_hash co program)) ''lua'' = Inr p \<and>
        fs_files s' p = Some src"
    with p(1) have "key = hex_encode cr (core_program_hash co program)" by (auto simp: key_path_Inr)
    with new p(2) assms(3,4) show ?thesis by auto
  qed
qed

text \<open>The states an execution goes through.\<close>

lemma execute_states:
  assumes "compile_program co (td_prelude (build cr (allowed_schemas en who))) (rq_program req) = Inr program"
    and "execute co cr tw io env en tid who req (s, w) = ((s', w'), r)"
  obtains s1 r1 s2 r2 where
    "put_program io (en_store en) s (hex_encode cr (core_program_hash co program))
       (td_prelude (build cr (allowed_schemas en who)) @ rq_program req) = (s1, r1)"
    "put_description io (en_store en) s1 (hex_encode cr (td_hash (build cr (allowed_schemas en who))))
       (td_text (build cr (allowed_schemas en who))) = (s2, r2)"
    "s' = s1 \<or> s' = s2 \<or> (\<exists>header z. trace_id header = tid \<and> finish cr tw (he_serde env) io en header s2 z = (s', r))"
proof -
  let ?D = "build cr (allowed_schemas en who)"
  obtain s1 r1 where p1: "put_program io (en_store en) s (hex_encode cr (core_program_hash co program))
      (td_prelude ?D @ rq_program req) = (s1, r1)" by fastforce
  obtain s2 r2 where p2: "put_description io (en_store en) s1 (hex_encode cr (td_hash ?D)) (td_text ?D) = (s2, r2)"
    by fastforce
  have "trace_id (make_header cr (he_serde env) en who req tid ph dh) = tid" for ph dh by (simp add: make_header_def)
  then have "s' = s1 \<or> s' = s2 \<or>
      (\<exists>header z. trace_id header = tid \<and> finish cr tw (he_serde env) io en header s2 z = (s', r))"
    using assms(2) by (auto simp: execute_def assms(1) p1 p2 Let_def split: sum.splits prod.splits)
  with p1 p2 show ?thesis by (rule that)
qed

lemma execute_programs_sound:
  assumes exec: "execute co cr tw io env en tid who req (s, w) = ((s', w'), r)"
    and sound: "programs_sound co cr (en_store en) s"
    and utf8: "utf8_valid (td_prelude (build cr (allowed_schemas en who)) @ rq_program req)"
  shows "programs_sound co cr (en_store en) s'"
proof (cases "compile_program co (td_prelude (build cr (allowed_schemas en who))) (rq_program req)")
  case (Inl f)
  with execute_not_compiled [OF Inl, of tw io env tid s w] exec sound show ?thesis by simp
next
  case (Inr program)
  from Inr exec obtain s1 r1 s2 r2 where
    p: "put_program io (en_store en) s (hex_encode cr (core_program_hash co program))
       (td_prelude (build cr (allowed_schemas en who)) @ rq_program req) = (s1, r1)"
    and d: "put_description io (en_store en) s1 (hex_encode cr (td_hash (build cr (allowed_schemas en who))))
       (td_text (build cr (allowed_schemas en who))) = (s2, r2)"
    and f: "s' = s1 \<or> s' = s2 \<or> (\<exists>header z. trace_id header = tid \<and> finish cr tw (he_serde env) io en header s2 z = (s', r))"
    by (rule execute_states)
  have s1: "programs_sound co cr (en_store en) s1"
    by (rule programs_sound_put [OF sound p utf8 compile_stored_source [OF Inr]])
  have s2: "programs_sound co cr (en_store en) s2"
    by (rule programs_sound_unchanged [OF s1 put_description_files [OF d]]) simp_all
  have "programs_sound co cr (en_store en) s'" if "finish cr tw (he_serde env) io en header s2 z = (s', r)" for header z
    by (rule programs_sound_unchanged [OF s2 finish_files [OF that]]) simp_all
  with f s1 s2 show ?thesis by blast
qed

lemma execute_keeps_but:
  assumes exec: "execute co cr tw io env en tid who req (s, w) = ((s', w'), r)"
  shows "keeps_but (\<lambda>q. io_stat io q \<and> key_path (st_traces (en_store en)) tid ''json'' = Inr q) s s'"
    (is "keeps_but ?bad s s'")
proof (cases "compile_program co (td_prelude (build cr (allowed_schemas en who))) (rq_program req)")
  case (Inl f)
  with execute_not_compiled [OF Inl, of tw io env tid s w] exec show ?thesis by (simp add: keeps_but_refl)
next
  case (Inr program)
  from Inr exec obtain s1 r1 s2 r2 where
    p: "put_program io (en_store en) s (hex_encode cr (core_program_hash co program))
       (td_prelude (build cr (allowed_schemas en who)) @ rq_program req) = (s1, r1)"
    and d: "put_description io (en_store en) s1 (hex_encode cr (td_hash (build cr (allowed_schemas en who))))
       (td_text (build cr (allowed_schemas en who))) = (s2, r2)"
    and f: "s' = s1 \<or> s' = s2 \<or> (\<exists>header z. trace_id header = tid \<and> finish cr tw (he_serde env) io en header s2 z = (s', r))"
    by (rule execute_states)
  have "keeps_but ?bad s s1" "keeps_but ?bad s1 s2"
    using put_program_keeps [OF p] put_description_keeps [OF d] by (blast intro: keeps_keeps_but)+
  moreover have "keeps_but ?bad s2 s'" if "trace_id header = tid" "finish cr tw (he_serde env) io en header s2 z = (s', r)"
    for header z
    using finish_keeps_but [OF that(2)] that(1) by simp
  ultimately show ?thesis using f by (blast intro: keeps_but_trans)
qed

lemma keeps_but_never: "keeps_but bad s s' \<Longrightarrow> (\<And>q. \<not> bad q) \<Longrightarrow> keeps s s'"
  unfolding keeps_but_def keeps_def by blast

lemma execute_keeps:
  assumes "execute co cr tw io env en tid who req (s, w) = ((s', w'), r)" and "\<And>p. \<not> io_stat io p"
  shows "keeps s s'"
  by (rule keeps_but_never [OF execute_keeps_but [OF assms(1)]]) (simp add: assms(2))

section \<open>Replaying later\<close>

lemma hex_encode_inj: "crypto_laws cr \<Longrightarrow> hex_encode cr a = hex_encode cr b \<Longrightarrow> a = b"
proof -
  assume laws: "crypto_laws cr" and eq: "hex_encode cr a = hex_encode cr b"
  have len: "2 * length a = 2 * length b"
    using laws eq unfolding crypto_laws_def by metis
  then have "Some a = Some b"
    using laws eq unfolding crypto_laws_def by (metis mult_left_cancel zero_neq_numeral)
  then show ?thesis by simp
qed

lemma put_program_present:
  assumes "put_program io st s k v = (s', r)" "r = Inr () \<or> (\<exists>a b. r = Inl (Conflict a b))"
  shows "\<exists>p c. key_path (st_programs st) k ''lua'' = Inr p \<and> fs_files s' p = Some c"
  using put_program_holds [OF assms] by blast

text \<open>A recorded run whose trace is stored replays, with whatever program is stored under its hash.\<close>

lemma stored_run_replays:
  assumes run: "run_recorded co en pl program z"
    and header: "th_vm_config header = en_vm en" "program_hash header = hex_encode cr (core_program_hash co program)"
    and trace: "key_path (st_traces (en_store en)) tid ''json'' = Inr q"
      "fs_files s q = Some (trace_text tw (make_trace cr tw en header z))"
    and stored: "key_path (st_programs (en_store en)) (program_hash header) ''lua'' = Inr p" "fs_files s p = Some c"
    and sound: "utf8_valid c" "compile_program co [] c = Inr program'"
      "hex_encode cr (core_program_hash co program') = program_hash header"
    and reads: "\<And>p. io_read io p = None"
    and laws: "crypto_laws cr" and json: "\<forall>t. from_slice (trace_text tw t) = Inr t"
    and hash: "hash_covers_bytecode co"
    and tape: "tape_laws co at" "\<forall>cfg p. tape_serves co at (core_execute co cfg p)"
    and key: "secret_resolve ienv (signing_key (gc_server config)) = Inr hex"
      "signing_key_from_hex cr hex = Inr (en_signing_key en)"
    and store: "store_open io s (store_dir (gc_store config)) = (s', Inr (en_store en))"
  shows "\<exists>rep. replay co cr tw io ienv from_slice config tid s = (s', Inr rep) \<and> rr_matched rep \<and> rr_mismatches rep = []"
proof -
  let ?t = "make_trace cr tw en header z"
  have files: "fs_files s' = fs_files s" by (rule store_open_files [OF store])
  have found: "get_trace io from_slice (en_store en) s' tid = Inr ?t"
    using get_trace_stored [OF trace(1), of s' "trace_text tw ?t" io from_slice] files trace(2) reads json by simp
  have prog: "get_program io (en_store en) s' (program_hash header) = Inr c"
    unfolding get_program_Inr files using stored reads sound(1) by blast
  have compiled: "recompile co (program_hash header) c = Inr program'" using sound(2) by (simp add: recompile_Inr)
  have verified: "trace_verify cr tw (ed_verifying_key cr (en_signing_key en)) ?t = Inr ()"
    by (rule make_trace_verifies [OF laws])
  have "runs_alike co (core_execute co (vm_config_of (en_vm en)) program) (core_execute co (vm_config_of (en_vm en)) program')"
    using hash hex_encode_inj [OF laws sound(3) [unfolded header(2)]] by (simp add: hash_covers_bytecode_def)
  from replay_run_of_recorded [OF run refl header(1) sound(3) [symmetric] this tape(1) tape(2) [rule_format]]
  obtain rep where "replay_run co cr tid ?t program' = Inr rep" "rr_mismatches rep = []" "rr_matched rep" by blast
  with key store found verified prog compiled show ?thesis by (simp add: replay_def)
qed

lemma answered_run_replays:
  assumes exec: "execute co cr tw io env en tid who req (s, w) = ((s', w'), Inr resp)"
    and quiet: "\<And>p. \<not> io_stat io p" and reads: "\<And>p. io_read io' p = None"
    and laws: "crypto_laws cr" and json: "\<forall>t. from_slice (trace_text tw t) = Inr t"
    and hash: "hash_covers_bytecode co"
    and calls: "\<forall>cfg p. records_calls co (core_execute co cfg p)"
    and tape: "tape_laws co at" "\<forall>cfg p. tape_serves co at (core_execute co cfg p)"
    and sound: "programs_sound co cr (en_store en) s"
    and utf8: "utf8_valid (td_prelude (build cr (allowed_schemas en who)) @ rq_program req)"
    and later: "keeps s' s2"
    and key: "secret_resolve ienv (signing_key (gc_server config)) = Inr hex"
      "signing_key_from_hex cr hex = Inr (en_signing_key en)"
    and store: "store_open io' s2 (store_dir (gc_store config)) = (s3, Inr (en_store en))"
  shows "\<exists>rep. replay co cr tw io' ienv from_slice config tid s2 = (s3, Inr rep) \<and> rr_matched rep \<and> rr_mismatches rep = []"
proof -
  let ?D = "build cr (allowed_schemas en who)"
  obtain program s1 r1 s1' z where
    compile: "compile_program co (td_prelude ?D) (rq_program req) = Inr program"
    and p1: "put_program io (en_store en) s (hex_encode cr (core_program_hash co program))
       (td_prelude ?D @ rq_program req) = (s1, r1)"
    and r1: "r1 = Inr () \<or> (\<exists>k c. r1 = Inl (Conflict k c))"
    and run: "run_program co env en who (allowed_schemas en who)
       (word_of_nat (count_char NL (td_prelude ?D))) program w = (w', Inr z)"
    and p2: "put_description io (en_store en) s1 (hex_encode cr (td_hash ?D)) (td_text ?D) = (s1', Inr ())"
    and fin: "finish cr tw (he_serde env) io en
       (make_header cr (he_serde env) en who req tid (hex_encode cr (core_program_hash co program))
          (hex_encode cr (td_hash ?D))) s1' z = (s', Inr resp)"
    using exec by (rule execute_Inr) blast
  let ?header = "make_header cr (he_serde env) en who req tid (hex_encode cr (core_program_hash co program))
          (hex_encode cr (td_hash ?D))"
  let ?t = "make_trace cr tw en ?header z"
  have header: "trace_id ?header = tid" "program_hash ?header = hex_encode cr (core_program_hash co program)"
    "th_vm_config ?header = en_vm en" by (simp_all add: make_header_def)
  from finish_Inr [OF fin] have put: "put_trace io tw (en_store en) s1' ?t = (s', Inr ())" by blast
  obtain tp where tp: "key_path (st_traces (en_store en)) tid ''json'' = Inr tp"
      "fs_files s' = (fs_files s1')(tp \<mapsto> trace_text tw ?t)"
    using put_trace_Inr [OF put] unfolding make_trace_parts header(1) by blast
  have trace: "fs_files s2 tp = Some (trace_text tw ?t)"
    by (rule keeps_key [OF later tp(1)]) (simp_all add: tp(2))
  obtain p c where p: "key_path (st_programs (en_store en)) (program_hash ?header) ''lua'' = Inr p" "fs_files s1 p = Some c"
    using put_program_present [OF p1 r1] unfolding header(2) by blast
  from programs_sound_put [OF sound p1 utf8 compile_stored_source [OF compile]] p
  obtain program' where c: "utf8_valid c" "compile_program co [] c = Inr program'"
    "hex_encode cr (core_program_hash co program') = program_hash ?header"
    unfolding programs_sound_def by blast
  have "keeps s1 s2"
    by (rule keeps_trans [OF put_description_keeps [OF p2] keeps_trans [OF finish_keeps [OF fin quiet] later]])
  from keeps_key [OF this p(1) _ p(2)] have prog: "fs_files s2 p = Some c" by simp
  show ?thesis
    by (rule stored_run_replays [OF run_program_recorded [OF run calls [rule_format]] header(3,2) tp(1) trace p(1) prog c
          reads laws json hash tape key store])
qed

section \<open>Histories\<close>

text \<open>A tool call's arguments are text, as Rust strings are.\<close>

definition text_request :: "tool_request \<Rightarrow> bool" where
  "text_request req \<longleftrightarrow>
     (\<forall>a. execute_args (case tq_arguments req of Some m \<Rightarrow> m | None \<Rightarrow> []) = Some a \<longrightarrow> utf8_valid (rq_program a))"

text \<open>A step of the gateway: one tool call over HTTP, or a replay on the same store. Each comes with
  failures of its own; looking up whether a path exists does not fail.\<close>

inductive gateway_step ::
  "('t, 'b, 'p, 'k, 'z) core_scheme \<Rightarrow> crypto \<Rightarrow> trace_writer \<Rightarrow> 'w host_env \<Rightarrow> rmcp \<Rightarrow> (json \<Rightarrow> string) \<Rightarrow> tokens \<Rightarrow> engine
     \<Rightarrow> fs \<times> 'w \<Rightarrow> fs \<times> 'w \<Rightarrow> bool"
  for co cr tw env rm derr tokens en where
  Request: "serve_call co cr tw io env rm derr tokens en tid authorization req (s, w) = ((s', w'), out) \<Longrightarrow>
     (\<And>p. \<not> io_stat io p) \<Longrightarrow> text_request req \<Longrightarrow>
     gateway_step co cr tw env rm derr tokens en (s, w) (s', w')"
| Replaying: "replay co cr tw io ienv from_slice config tid s = (s', report) \<Longrightarrow>
     gateway_step co cr tw env rm derr tokens en (s, w) (s', w)"

text \<open>A permitted request of some principal whose token the gateway knows.\<close>

definition authorized_request :: "'w host_env \<Rightarrow> tokens \<Rightarrow> engine \<Rightarrow> 'w \<Rightarrow> 'w \<Rightarrow> bool" where
  "authorized_request env tokens en w w' \<longleftrightarrow>
     (\<exists>who \<in> fst ` set tokens.
        permitted_request env (host_new who (en_downstreams en) (allowed_schemas en who) (en_policy en)) w w')"

lemma replay_files:
  "replay co cr tw io ienv from_slice config tid s = (s', report) \<Longrightarrow> fs_files s' = fs_files s"
  by (auto simp: replay_def dest: store_open_files split: sum.splits prod.splits)

lemma bearer_known: "bearer_principal cr ts authorization = Some who \<Longrightarrow> who \<in> fst ` set ts"
  by (force simp: bearer_principal_Some principal_for_def Let_def dest: fold_found_in)

lemma gateway_step_cases:
  assumes "gateway_step co cr tw env rm derr tokens en (s, w) (s', w')"
  obtains (same) "fs_files s' = fs_files s" "w' = w"
  | (executed) io tid who a r where "who \<in> fst ` set tokens" "\<And>p. \<not> io_stat io p" "utf8_valid (rq_program a)"
      "execute co cr tw io env en tid who a (s, w) = ((s', w'), r)"
  using assms
proof cases
  case (Request io tid authorization req out)
  from serve_call_state [OF Request(1)] show ?thesis
  proof
    assume "s' = s \<and> w' = w"
    then show ?thesis using same by simp
  next
    assume "\<exists>who a r. bearer_principal cr tokens authorization = Some who \<and> tq_name req = ''execute'' \<and>
        execute_args (case tq_arguments req of Some m \<Rightarrow> m | None \<Rightarrow> []) = Some a \<and>
        execute co cr tw io env en tid who a (s, w) = ((s', w'), r)"
    then obtain who a r where who: "bearer_principal cr tokens authorization = Some who"
      and a: "execute_args (case tq_arguments req of Some m \<Rightarrow> m | None \<Rightarrow> []) = Some a"
      and ex: "execute co cr tw io env en tid who a (s, w) = ((s', w'), r)" by blast
    have "utf8_valid (rq_program a)" using Request(3) a by (simp add: text_request_def)
    from executed [OF bearer_known [OF who] Request(2) this ex] show ?thesis .
  qed
next
  case (Replaying io ienv from_slice config tid report)
  from replay_files [OF Replaying(2)] Replaying(1) same show ?thesis by simp
qed

text \<open>What every step keeps, and so every history.\<close>

lemma gateway_step_keeps:
  "gateway_step co cr tw env rm derr tokens en (s, w) (s', w') \<Longrightarrow> keeps s s'"
  by (erule gateway_step_cases) (simp add: keeps_def, blast intro: execute_keeps)

lemma gateway_step_sound:
  assumes "gateway_step co cr tw env rm derr tokens en (s, w) (s', w')" "programs_sound co cr (en_store en) s"
    and "\<forall>who. utf8_valid (td_prelude (build cr (allowed_schemas en who)))"
  shows "programs_sound co cr (en_store en) s'"
  using assms(1)
proof (cases rule: gateway_step_cases)
  case same
  with assms(2) show ?thesis by (simp add: programs_sound_def)
next
  case (executed io tid who a r)
  with assms(3) have "utf8_valid (td_prelude (build cr (allowed_schemas en who)) @ rq_program a)"
    by (simp add: utf8_valid_append)
  from execute_programs_sound [OF executed(4) assms(2) this] show ?thesis .
qed

lemma gateway_step_world:
  assumes "gateway_step co cr tw env rm derr tokens en (s, w) (s', w')"
  shows "(authorized_request env tokens en)\<^sup>*\<^sup>* w w'"
  using assms
proof (cases rule: gateway_step_cases)
  case (executed io tid who a r)
  have "permitted_request env (host_new who (en_downstreams en) (allowed_schemas en who) (en_policy en))
      \<le> authorized_request env tokens en"
    using executed(1) unfolding authorized_request_def by blast
  from rtranclp_mono [OF this] execute_world [OF executed(4)] show ?thesis by auto
qed simp

lemma gateway_history:
  assumes "(gateway_step co cr tw env rm derr tokens en)\<^sup>*\<^sup>* (s, w) (s', w')"
  shows "keeps s s'" "(authorized_request env tokens en)\<^sup>*\<^sup>* w w'"
    and "\<lbrakk>programs_sound co cr (en_store en) s; \<forall>who. utf8_valid (td_prelude (build cr (allowed_schemas en who)))\<rbrakk>
      \<Longrightarrow> programs_sound co cr (en_store en) s'"
proof -
  have "keeps s s' \<and> (authorized_request env tokens en)\<^sup>*\<^sup>* w w' \<and>
    (programs_sound co cr (en_store en) s \<longrightarrow> (\<forall>who. utf8_valid (td_prelude (build cr (allowed_schemas en who)))) \<longrightarrow>
      programs_sound co cr (en_store en) s')"
    using assms
  proof (induction "(s', w')" arbitrary: s' w')
    case base
    then show ?case by simp
  next
    case (step b)
    obtain s1 w1 where b: "b = (s1, w1)" by fastforce
    note IH = step.hyps(3) [OF b] and last = step.hyps(2) [unfolded b]
    from IH gateway_step_keeps [OF last] gateway_step_world [OF last] gateway_step_sound [OF last]
    show ?case by (auto intro: keeps_trans rtranclp_trans)
  qed
  then show "keeps s s'" "(authorized_request env tokens en)\<^sup>*\<^sup>* w w'"
    "\<lbrakk>programs_sound co cr (en_store en) s; \<forall>who. utf8_valid (td_prelude (build cr (allowed_schemas en who)))\<rbrakk>
      \<Longrightarrow> programs_sound co cr (en_store en) s'" by blast+
qed

section \<open>Histories in which anything fails\<close>

text \<open>A step of the gateway with failures out of a given set, look-ups included, and any request.\<close>

inductive served_step ::
  "('t, 'b, 'p, 'k, 'z) core_scheme \<Rightarrow> crypto \<Rightarrow> trace_writer \<Rightarrow> 'w host_env \<Rightarrow> rmcp \<Rightarrow> (json \<Rightarrow> string) \<Rightarrow> tokens \<Rightarrow> engine
     \<Rightarrow> io_env set \<Rightarrow> fs \<times> 'w \<Rightarrow> fs \<times> 'w \<Rightarrow> bool"
  for co cr tw env rm derr tokens en ios where
  Request: "serve_call co cr tw io env rm derr tokens en tid authorization req (s, w) = ((s', w'), out) \<Longrightarrow>
     io \<in> ios \<Longrightarrow> served_step co cr tw env rm derr tokens en ios (s, w) (s', w')"
| Replaying: "replay co cr tw io ienv from_slice config tid s = (s', report) \<Longrightarrow>
     served_step co cr tw env rm derr tokens en ios (s, w) (s', w)"

lemma gateway_step_served:
  "gateway_step co cr tw env rm derr tokens en x y \<Longrightarrow>
     served_step co cr tw env rm derr tokens en {io. \<forall>p. \<not> io_stat io p} x y"
  by (erule gateway_step.cases) (blast intro: served_step.intros)+

text \<open>The look-up of a trace failed in one of the environments.\<close>

definition look_up_failed :: "engine \<Rightarrow> io_env set \<Rightarrow> path \<Rightarrow> bool" where
  "look_up_failed en ios q \<longleftrightarrow>
     (\<exists>io \<in> ios. io_stat io q) \<and> (\<exists>tid. key_path (st_traces (en_store en)) tid ''json'' = Inr q)"

lemma served_step_inv:
  assumes "served_step co cr tw env rm derr tokens en ios (s, w) (s', w')"
  shows "keeps_but (look_up_failed en ios) s s' \<and> (authorized_request env tokens en)\<^sup>*\<^sup>* w w'"
  using assms
proof cases
  case (Request io tid authorization req out)
  from serve_call_state [OF Request(1)] show ?thesis
  proof
    assume "s' = s \<and> w' = w"
    then show ?thesis by (simp add: keeps_but_refl)
  next
    assume "\<exists>who a r. bearer_principal cr tokens authorization = Some who \<and> tq_name req = ''execute'' \<and>
        execute_args (case tq_arguments req of Some m \<Rightarrow> m | None \<Rightarrow> []) = Some a \<and>
        execute co cr tw io env en tid who a (s, w) = ((s', w'), r)"
    then obtain who a r where who: "bearer_principal cr tokens authorization = Some who"
      and exec: "execute co cr tw io env en tid who a (s, w) = ((s', w'), r)" by blast
    have "keeps_but (look_up_failed en ios) s s'"
      by (rule keeps_but_mono [OF execute_keeps_but [OF exec]]) (use Request(2) in \<open>auto simp: look_up_failed_def\<close>)
    moreover have "permitted_request env (host_new who (en_downstreams en) (allowed_schemas en who) (en_policy en))
        \<le> authorized_request env tokens en"
      using bearer_known [OF who] unfolding authorized_request_def by blast
    ultimately show ?thesis using rtranclp_mono execute_world [OF exec] by blast
  qed
next
  case (Replaying io ienv from_slice config tid report)
  with replay_files [OF Replaying(2)] show ?thesis by (simp add: keeps_but_def)
qed

lemma served_history:
  assumes "(served_step co cr tw env rm derr tokens en ios)\<^sup>*\<^sup>* (s, w) (s', w')"
  shows "keeps_but (look_up_failed en ios) s s' \<and> (authorized_request env tokens en)\<^sup>*\<^sup>* w w'"
  using assms
proof (induction "(s', w')" arbitrary: s' w')
  case base
  then show ?case by (simp add: keeps_but_refl)
next
  case (step b)
  obtain s1 w1 where b: "b = (s1, w1)" by fastforce
  from step.hyps(3) [OF b] served_step_inv [OF step.hyps(2) [unfolded b]]
  show ?case by (auto intro: keeps_but_trans rtranclp_trans)
qed

end
