(* ===== verification/Sample_Run.thy ===== *)
theory Sample_Run
  imports Sample_Instances Gateway_Cli Gateway_Service
begin

text \<open>
  A stand-in for proveno-core as a whole, whose every program is the run of \<open>Sample_Instances\<close>, and an
  engine, store and configuration to run it with; the parameters of the examples on executing, replaying
  and serving.
\<close>

type_synonym sample_tape = "tool_call_record list \<times> tape_divergence option"

definition sample_gw :: "(sample_table, string, string, sample_tape) core" where
  "sample_gw =
     \<lparr>table_new = STable [],
      table_rawset = (\<lambda>t k v. Inr (STable ((k, v) # table_entries t))),
      table_get = (\<lambda>t k. map_of (table_entries t) k),
      canonical_serialize = (\<lambda>v. Inr ''1''),
      canonical_serialize_table = (\<lambda>t. Inr ''1''),
      lua_debug = scalar_text,
      core_parse = (\<lambda>source. Inr source),
      core_compile = (\<lambda>block. Inr block),
      core_verify = (\<lambda>p. Inr ()),
      core_program_hash = (\<lambda>p. pad_to 32 []),
      core_execute = (\<lambda>cfg p. sample_run),
      tape_strict = (\<lambda>rs. (rs, None)),
      tape_call = (\<lambda>tp name args. case tp of
           (r # rs, d) \<Rightarrow> ((rs, d), if rec_status r = CallOk then Inr (STable []) else Inl (error_message r))
         | ([], d) \<Rightarrow> (([], Some \<lparr>td_seq = 0, td_expected = None,
                           td_actual = \<lparr>tc_tool_name = name, tc_args_canonical = []\<rparr>\<rparr>), Inl ''diverged'')),
      tape_take = (\<lambda>tp. (tp, None)),
      tape_diverged = snd,
      tape_remaining = (\<lambda>tp. length (fst tp))\<rparr>"

definition sample_at :: "sample_tape \<Rightarrow> tool_call_record list \<Rightarrow> bool" where
  "sample_at tp rs \<longleftrightarrow> tp = (rs, None)"

definition sample_key :: "u8 list" where
  "sample_key = pad_to 32 [1, 2]"

definition sample_engine :: engine where
  "sample_engine =
     \<lparr>en_vm = sample_settings, en_policy = sample_policy, en_downstreams = sample_downstreams,
      en_store = sample_store, en_signing_key = sample_key\<rparr>"

definition empty_fs :: fs where
  "empty_fs = \<lparr>fs_files = Map.empty,
     fs_dirs = [[''d''], [''d'', ''traces''], [''d'', ''programs''], [''d'', ''descriptions'']], fs_counter = 0\<rparr>"

definition sample_request :: execute_request where
  "sample_request = \<lparr>rq_program = ''return 1'', rq_session = None, rq_request = Some ''pay''\<rparr>"

definition sample_rmcp :: rmcp where
  "sample_rmcp =
     \<lparr>rm_success = (\<lambda>c. \<lparr>mr_content = c, mr_structured = None, mr_is_error = Some False\<rparr>),
      rm_error = (\<lambda>c. \<lparr>mr_content = c, mr_structured = None, mr_is_error = Some True\<rparr>),
      rm_structured = (\<lambda>v. \<lparr>mr_content = [enc_json v], mr_structured = Some v, mr_is_error = Some False\<rparr>),
      rm_structured_error = (\<lambda>v. \<lparr>mr_content = [enc_json v], mr_structured = Some v, mr_is_error = Some True\<rparr>)\<rparr>"

lemma rmcp_laws_sample: "rmcp_laws sample_rmcp"
  by (simp add: rmcp_laws_def sample_rmcp_def)

lemma sample_gw_run: "core_execute sample_gw cfg p = sample_run"
  by (simp add: sample_gw_def)

lemma records_calls_gw: "records_calls sample_gw (core_execute sample_gw cfg p)"
  by (simp add: sample_gw_run) (simp add: sample_run_def sample_record_def)

lemma outputs_json_gw: "outputs_json sample_gw sample_serde"
proof -
  have "utf8_valid ''1''" by code_simp
  then show ?thesis by (simp add: outputs_json_def sample_gw_def sample_serde_def)
qed

lemma tape_laws_gw: "tape_laws sample_gw sample_at"
  by (simp add: tape_laws_def sample_gw_def sample_at_def)

lemma tape_serves_gw: "tape_serves sample_gw sample_at (core_execute sample_gw cfg p)"
  by (simp add: sample_gw_run)
    (auto simp: sample_run_def sample_gw_def sample_at_def split: prod.splits sum.splits if_splits)

lemma io_quiet_sample: "io_quiet sample_io"
  by (simp add: io_quiet_def sample_io_def)

lemma store_ready_sample: "store_ready (en_store sample_engine) empty_fs"
  by (simp add: store_ready_def sample_engine_def sample_store_def empty_fs_def)

lemma compile_sample:
  "compile_program sample_gw (td_prelude (build cr (allowed_schemas en who))) p =
     Inr (td_prelude (build cr (allowed_schemas en who)) @ p)"
  by (simp add: compile_program_Inr) (simp add: sample_gw_def)

text \<open>The sample engine runs the sample request.\<close>

lemma sample_executes:
  "\<exists>s' w' resp. execute sample_gw sample_crypto sample_writer sample_io sample_env sample_engine ''0a'' ''alice''
     sample_request (empty_fs, 0) = ((s', w'), Inr resp)"
proof (rule execute_succeeds [OF crypto_laws_sample io_quiet_sample store_ready_sample compile_sample])
  show "core_program_hash sample_gw (td_prelude (build sample_crypto (allowed_schemas sample_engine ''alice'')) @ rq_program sample_request) \<noteq> []"
    by (simp add: sample_gw_def pad_to_def)
  show "outputs_json sample_gw (he_serde sample_env)" by (simp add: sample_env_def outputs_json_gw)
  show "valid_key ''0a''" by code_simp
qed (simp_all add: records_calls_gw empty_fs_def sample_engine_def sample_store_def)

lemma sample_allowed: "allowed_schemas sample_engine ''alice'' = [sample_tool]"
  by code_simp

lemma sample_prelude: "td_prelude (build cr [sample_tool]) = prelude_of [sample_tool]"
  by (simp add: build_def Let_def)

text \<open>The other laws, for replaying.\<close>

lemma runs_alike_refl: "runs_alike co run run"
proof (induction run)
  case (Finish r g m)
  have "results_alike co r r" by (cases r) simp_all
  then show ?case by (rule runs_alike.Finish)
qed (blast intro: runs_alike.Call)

lemma hash_covers_bytecode_gw: "hash_covers_bytecode sample_gw"
  by (simp add: hash_covers_bytecode_def sample_gw_run runs_alike_refl)

lemma sample_text_inverse: "inv (trace_text sample_writer) (trace_text sample_writer t) = t"
  by (rule inv_f_f) (simp add: inj_def trace_text_inj [OF writer_faithful_sample])

lemma programs_sound_empty: "programs_sound co cr st empty_fs"
  by (simp add: programs_sound_def empty_fs_def)

lemma sample_store_opens: "\<exists>s3. store_open sample_io s [''d''] = (s3, Inr sample_store)"
  by (simp add: store_open_def Let_def then_fs_def fs_create_dir_all_def sample_io_def sample_store_def path_join_single)

lemma sample_prelude_utf8: "utf8_valid (td_prelude (build cr (allowed_schemas sample_engine who)))"
proof -
  have "allowed_schemas sample_engine who = [] \<or> allowed_schemas sample_engine who = [sample_tool]"
    by (simp add: allowed_schemas_def sample_engine_def sample_downstreams_def)
  moreover have "utf8_valid (prelude_of [])" "utf8_valid (prelude_of [sample_tool])" by code_simp+
  ultimately show ?thesis by (auto simp: build_def Let_def)
qed

lemma sample_key_reads: "signing_key_from_hex sample_crypto (hex_enc sample_key) = Inr sample_key"
proof -
  have "\<forall>bs. hex_dec_slice (length bs) (hex_enc bs) = Some bs"
    using crypto_laws_sample by (simp add: crypto_laws_def sample_crypto_def)
  from spec [OF this, of sample_key] have "hex_dec_slice 32 (hex_enc sample_key) = Some sample_key"
    by (simp add: sample_key_def)
  then show ?thesis by (simp add: signing_key_from_hex_def sample_crypto_def)
qed

lemma sample_request_utf8: "utf8_valid (rq_program sample_request)"
  by code_simp

lemmas sample_laws = crypto_laws_sample hash_covers_bytecode_gw records_calls_gw sample_text_inverse
  programs_sound_empty sample_prelude_utf8 sample_key_reads sample_request_utf8

text \<open>A configuration that reads the store of the sample engine, and the reader of its traces.\<close>

definition replay_config :: gateway_config where
  "replay_config = sample_config\<lparr>gc_store := \<lparr>store_dir = [''d'']\<rparr>\<rparr>"

definition replay_env :: "string \<Rightarrow> string option" where
  "replay_env = [''SIGNING_KEY'' \<mapsto> hex_enc sample_key]"

definition sample_from_slice :: "string \<Rightarrow> string + trace" where
  "sample_from_slice b = Inr (inv (trace_text sample_writer) b)"

lemma sample_from_slice_text: "sample_from_slice (trace_text sample_writer t) = Inr t"
  by (simp add: sample_from_slice_def sample_text_inverse)

lemma replay_key:
  "secret_resolve replay_env (signing_key (gc_server replay_config)) = Inr (hex_enc sample_key)"
  "signing_key_from_hex sample_crypto (hex_enc sample_key) = Inr (en_signing_key sample_engine)"
  by (simp_all add: secret_resolve_def replay_env_def replay_config_def sample_config_def sample_key_reads
      sample_engine_def)

lemma replay_store_opens:
  "\<exists>s3. store_open sample_io s (store_dir (gc_store replay_config)) = (s3, Inr (en_store sample_engine))"
  using sample_store_opens [of s] by (simp add: replay_config_def sample_engine_def)

lemma sample_io_quiet: "\<not> io_stat sample_io p" "io_read sample_io p = None"
  by (simp_all add: sample_io_def)

lemmas replay_laws = sample_laws sample_from_slice_text replay_key sample_io_quiet tape_serves_gw

lemma sample_replays:
  "\<exists>s s3 rep. replay sample_gw sample_crypto sample_writer sample_io replay_env sample_from_slice replay_config
     ''0a'' s = (s3, Inr rep) \<and> rr_matched rep"
proof -
  obtain s' w' resp where run: "execute sample_gw sample_crypto sample_writer sample_io sample_env sample_engine ''0a''
      ''alice'' sample_request (empty_fs, 0) = ((s', w'), Inr resp)"
    using sample_executes by blast
  obtain s3 where store: "store_open sample_io s' (store_dir (gc_store replay_config)) = (s3, Inr (en_store sample_engine))"
    using replay_store_opens by blast
  have "\<exists>rep. replay sample_gw sample_crypto sample_writer sample_io replay_env sample_from_slice replay_config
      ''0a'' s' = (s3, Inr rep) \<and> rr_matched rep \<and> rr_mismatches rep = []"
    by (rule answered_run_replays [OF run _ _ _ _ _ _ tape_laws_gw _ _ _ keeps_refl replay_key store])
      (simp_all add: replay_laws utf8_valid_append)
  then show ?thesis by blast
qed

text \<open>What an engine starts from: a policy file that reads as \<open>sample_policy_file\<close>, a server with two
  tools, and an environment with the two secrets of \<open>sample_config\<close>.\<close>

definition sample_start :: start_env where
  "sample_start =
     \<lparr>se_toml = (\<lambda>_. Inr sample_policy_file), se_read = (\<lambda>_. Inr ''text''), se_serve = (\<lambda>_. Inr sample_listing),
      se_env = [''SIGNING_KEY'' \<mapsto> hex_enc sample_key, ''ALICE'' \<mapsto> ''token''], se_osenv = (\<lambda>_. None)\<rparr>"

text \<open>The same with the server named \<open>decimal\<close>.\<close>

definition decimal_config :: gateway_config where
  "decimal_config = sample_config\<lparr>gc_downstream :=
     [\<lparr>dc_name = ''decimal'', dc_transport = Http ''http://localhost'', dc_credential = None\<rparr>]\<rparr>"

definition decimal_start :: start_env where
  "decimal_start = sample_start\<lparr>se_toml := (\<lambda>_. Inr
     \<lparr>pf_principals = [(''alice'', \<lparr>pf_allow = [''decimal.transfer'']\<rparr>)], pf_constraints = []\<rparr>)\<rparr>"

lemma replay_config_loads:
  "config_load (\<lambda>_. Inr replay_config) (\<lambda>_. Inr []) [''gateway.toml''] = Inr replay_config"
  by (simp add: config_load_def config_parse_def result_simps replay_config_def sample_config_def path_parent_def
      path_join_def is_absolute_def)

lemma sample_replay_exits:
  "\<exists>s s' lines. replay_command sample_gw sample_crypto sample_writer sample_io replay_env sample_from_slice
     (\<lambda>_. Inr replay_config) (\<lambda>_. Inr []) [''gateway.toml''] ''0a'' s = (s', Exit 0 lines)"
  using sample_replays unfolding replay_command_success replay_config_loads by blast

text \<open>The tokens of that configuration, and a request served for its principal.\<close>

definition sample_tokens :: tokens where
  "sample_tokens = [(''alice'', sha256 sample_crypto ''token'')]"

lemma sample_tokens_resolve: "tokens_resolve sample_crypto (se_env sample_start) sample_config = Inr sample_tokens"
  by code_simp

definition sample_call :: tool_request where
  "sample_call = \<lparr>tq_name = ''execute'',
     tq_arguments = Some [(''program'', JString ''return 1''), (''request'', JString ''pay'')]\<rparr>"

lemma sample_run_world:
  "fst (run_program sample_gw sample_env sample_engine ''alice'' [sample_tool] pl program 0) = 1"
proof -
  have "snd (fst (run_vm (host_call_tool sample_gw sample_env) host_take_attestation sample_run
      (host_new ''alice'' (en_downstreams sample_engine) [sample_tool] (en_policy sample_engine), 0) [])) = 1"
    by code_simp
  then show ?thesis by (auto simp: run_program_def sample_gw_run split: prod.splits)
qed

lemma sample_execute_world:
  assumes "execute sample_gw sample_crypto sample_writer sample_io sample_env sample_engine ''0a'' ''alice''
     sample_request (empty_fs, 0) = ((s', w'), Inr resp)"
  shows "w' = 1"
  using assms
proof (rule execute_Inr)
  fix program s1 r1 s2 z
  assume "run_program sample_gw sample_env sample_engine ''alice'' (allowed_schemas sample_engine ''alice'')
      (word_of_nat (count_char NL (td_prelude (build sample_crypto (allowed_schemas sample_engine ''alice''))))) program 0
      = (w', Inr z)"
  then show "w' = 1" using sample_run_world unfolding sample_allowed by (metis fst_conv)
qed

lemma sample_step:
  "\<exists>s'. gateway_step sample_gw sample_crypto sample_writer sample_env sample_rmcp derr sample_tokens sample_engine
     (empty_fs, 0) (s', 1)"
proof -
  obtain s' w' resp where run: "execute sample_gw sample_crypto sample_writer sample_io sample_env sample_engine ''0a''
      ''alice'' sample_request (empty_fs, 0) = ((s', w'), Inr resp)"
    using sample_executes by blast
  have bearer: "bearer_principal sample_crypto sample_tokens (Some ''Bearer token'') = Some ''alice''" by code_simp
  have args: "execute_args (case tq_arguments sample_call of Some m \<Rightarrow> m | None \<Rightarrow> []) = Some sample_request"
    by code_simp
  have "tq_name sample_call = ''execute''" by (simp add: sample_call_def)
  with run args bearer obtain out where
    "serve_call sample_gw sample_crypto sample_writer sample_io sample_env sample_rmcp derr sample_tokens sample_engine
       ''0a'' (Some ''Bearer token'') sample_call (empty_fs, 0) = ((s', w'), out)"
    by (auto simp: serve_call_def require_bearer_def call_tool_def request_principal_def gateway_execute_def Let_def
        split: prod.splits)
  moreover have "text_request sample_call" using args sample_request_utf8 by (simp add: text_request_def)
  ultimately have "gateway_step sample_gw sample_crypto sample_writer sample_env sample_rmcp derr sample_tokens
      sample_engine (empty_fs, 0) (s', w')"
    by (rule gateway_step.Request [OF _ sample_io_quiet(1)])
  with sample_execute_world [OF run] show ?thesis by blast
qed

end
