(* ===== verification/Gateway_Tasks.thy ===== *)
theory Gateway_Tasks
  imports Gateway_Service
begin

text \<open>
  Requests in flight at the same time. \<open>Engine::execute\<close> runs for several requests concurrently; they meet
  in the store and in the world. Here an execution is a task that moves from one point of contact to the
  next: storing the program, storing the description, one tool call at a time, storing the trace. One
  task on its own is \<open>execute\<close>; any number of them interleave step by step. (The steps inside one write
  are the subject of \<open>Store_Writers\<close>.)
\<close>

section \<open>A task\<close>

abbreviation prelude_rows :: "crypto \<Rightarrow> engine \<Rightarrow> string \<Rightarrow> u32" where
  "prelude_rows cr en who \<equiv> word_of_nat (count_char NL (td_prelude (build cr (allowed_schemas en who))))"

datatype ('t, 'p) phase =
    Arrived
  | ProgramStored 'p
  | Running 'p gateway_host "'t vm_run" "tool_call_record list"
  | Ran 'p "trace_entry list \<times> string option \<times> run_status \<times> u64 \<times> u64"
  | Answered "execute_error + execute_response"

definition arrive_step ::
  "('t, 'b, 'p, 'k, 'z) core_scheme \<Rightarrow> crypto \<Rightarrow> io_env \<Rightarrow> engine \<Rightarrow> string \<Rightarrow> execute_request \<Rightarrow> fs \<Rightarrow> fs \<times> ('t, 'p) phase" where
  "arrive_step co cr io en who req s =
     (let description = build cr (allowed_schemas en who)
      in case compile_program co (td_prelude description) (rq_program req) of
           Inl (Lint e) \<Rightarrow> (s, Answered (Inl (LintE e)))
         | Inl (LintPanic m) \<Rightarrow> (s, Answered (Inl (PanicE m)))
         | Inr program \<Rightarrow>
             (case put_program io (en_store en) s (hex_encode cr (core_program_hash co program))
                     (td_prelude description @ rq_program req) of
                (s1, r1) \<Rightarrow>
                  (s1, case (case r1 of Inl (Conflict k c) \<Rightarrow> Inr () | other \<Rightarrow> other) of
                         Inl e \<Rightarrow> Answered (Inl (StoreE e))
                       | Inr _ \<Rightarrow> ProgramStored program)))"

definition describe_step ::
  "('t, 'b, 'p, 'k, 'z) core_scheme \<Rightarrow> crypto \<Rightarrow> io_env \<Rightarrow> engine \<Rightarrow> string \<Rightarrow> 'p \<Rightarrow> fs \<Rightarrow> fs \<times> ('t, 'p) phase" where
  "describe_step co cr io en who program s =
     (let description = build cr (allowed_schemas en who)
      in case put_description io (en_store en) s (hex_encode cr (td_hash description)) (td_text description) of
           (s', Inl e) \<Rightarrow> (s', Answered (Inl (StoreE e)))
         | (s', Inr _) \<Rightarrow>
             (s', Running program (host_new who (en_downstreams en) (allowed_schemas en who) (en_policy en))
                    (core_execute co (vm_config_of (en_vm en)) program) []))"

fun run_step ::
  "('t, 'b, 'p, 'k, 'z) core_scheme \<Rightarrow> crypto \<Rightarrow> 'w host_env \<Rightarrow> engine \<Rightarrow> string \<Rightarrow> 'p \<Rightarrow> gateway_host \<Rightarrow> 't vm_run
     \<Rightarrow> tool_call_record list \<Rightarrow> 'w \<Rightarrow> 'w \<times> ('t, 'p) phase" where
  "run_step co cr env en who program h (CallTool name args recf k) tr w =
     (case host_call_tool co env (h, w) name args of
        ((h1, w1), res) \<Rightarrow>
          (case (case res of Inl _ \<Rightarrow> ((h1, w1), None) | Inr _ \<Rightarrow> host_take_attestation (h1, w1)) of
             ((h2, w2), att) \<Rightarrow>
               (w2, Running program h2 (k res) (tr @ (case recf res att of None \<Rightarrow> [] | Some r \<Rightarrow> [r])))))"
| "run_step co cr env en who program h (Finish res gas mem) tr w =
     (w, case run_outcome co (max_output_bytes (en_vm en))
                (prelude_rows cr en who) res of
           Inl p \<Rightarrow> Answered (Inl (PanicE p))
         | Inr (out, status) \<Rightarrow>
             if length tr \<noteq> length (gh_log h)
             then Answered (Inl (PanicE (log_assertion (length tr) (length (gh_log h)))))
             else Ran program (zip_entries tr (gh_log h), out, status, gas, mem))"

definition finish_step ::
  "('t, 'b, 'p, 'k, 'z) core_scheme \<Rightarrow> crypto \<Rightarrow> trace_writer \<Rightarrow> io_env \<Rightarrow> 'w host_env \<Rightarrow> engine \<Rightarrow> string \<Rightarrow> string
     \<Rightarrow> execute_request \<Rightarrow> 'p \<Rightarrow> trace_entry list \<times> string option \<times> run_status \<times> u64 \<times> u64 \<Rightarrow> fs \<Rightarrow> fs \<times> ('t, 'p) phase" where
  "finish_step co cr tw io env en tid who req program z s =
     (case finish cr tw (he_serde env) io en
             (make_header cr (he_serde env) en who req tid (hex_encode cr (core_program_hash co program))
                (hex_encode cr (td_hash (build cr (allowed_schemas en who))))) s z of
        (s', r) \<Rightarrow> (s', Answered r))"

fun task_step ::
  "('t, 'b, 'p, 'k, 'z) core_scheme \<Rightarrow> crypto \<Rightarrow> trace_writer \<Rightarrow> io_env \<Rightarrow> 'w host_env \<Rightarrow> engine \<Rightarrow> string \<Rightarrow> string
     \<Rightarrow> execute_request \<Rightarrow> fs \<times> 'w \<times> ('t, 'p) phase \<Rightarrow> fs \<times> 'w \<times> ('t, 'p) phase" where
  "task_step co cr tw io env en tid who req (s, w, Arrived) =
     (case arrive_step co cr io en who req s of (s', ph) \<Rightarrow> (s', w, ph))"
| "task_step co cr tw io env en tid who req (s, w, ProgramStored program) =
     (case describe_step co cr io en who program s of (s', ph) \<Rightarrow> (s', w, ph))"
| "task_step co cr tw io env en tid who req (s, w, Running program h run tr) =
     (case run_step co cr env en who program h run tr w of (w', ph) \<Rightarrow> (s, w', ph))"
| "task_step co cr tw io env en tid who req (s, w, Ran program z) =
     (case finish_step co cr tw io env en tid who req program z s of (s', ph) \<Rightarrow> (s', w, ph))"
| "task_step co cr tw io env en tid who req (s, w, Answered r) = (s, w, Answered r)"

section \<open>A task on its own\<close>

definition task_reaches ::
  "('t, 'b, 'p, 'k, 'z) core_scheme \<Rightarrow> crypto \<Rightarrow> trace_writer \<Rightarrow> io_env \<Rightarrow> 'w host_env \<Rightarrow> engine \<Rightarrow> string \<Rightarrow> string
     \<Rightarrow> execute_request \<Rightarrow> fs \<times> 'w \<times> ('t, 'p) phase \<Rightarrow> fs \<times> 'w \<times> ('t, 'p) phase \<Rightarrow> bool" where
  "task_reaches co cr tw io env en tid who req x y \<longleftrightarrow> (\<exists>n. (task_step co cr tw io env en tid who req ^^ n) x = y)"

lemma task_reaches_refl: "task_reaches co cr tw io env en tid who req x x"
  unfolding task_reaches_def by (rule exI [of _ 0]) simp

lemma task_reaches_step:
  "task_reaches co cr tw io env en tid who req (task_step co cr tw io env en tid who req x) y \<Longrightarrow>
     task_reaches co cr tw io env en tid who req x y"
  unfolding task_reaches_def by (metis funpow_Suc_right o_apply)

text \<open>The run of the machine, call by call.\<close>

lemma run_reaches:
  assumes "run_vm (host_call_tool co env) host_take_attestation run (h, w) tr = ((h', w'), tr', res, gas, mem)"
  shows "task_reaches co cr tw io env en tid who req (s, w, Running program h run tr)
     (s, w', Running program h' (Finish res gas mem) tr')"
  using assms
proof (induction run arbitrary: h w tr)
  case (Finish r g m)
  then show ?case by (simp add: task_reaches_refl)
next
  case (CallTool name args recf k)
  obtain h1 w1 x where c: "host_call_tool co env (h, w) name args = ((h1, w1), x)" by (metis prod.collapse)
  obtain h2 w2 att where
    t: "(case x of Inl _ \<Rightarrow> ((h1, w1), None) | Inr _ \<Rightarrow> host_take_attestation (h1, w1)) = ((h2, w2), att)"
    by (metis prod.collapse)
  let ?tr = "tr @ (case recf x att of None \<Rightarrow> [] | Some r \<Rightarrow> [r])"
  from CallTool.prems c t have
    "run_vm (host_call_tool co env) host_take_attestation (k x) (h2, w2) ?tr = ((h', w'), tr', res, gas, mem)"
    by (simp add: Let_def)
  from CallTool.IH [OF rangeI this] have
    "task_reaches co cr tw io env en tid who req (s, w2, Running program h2 (k x) ?tr)
       (s, w', Running program h' (Finish res gas mem) tr')" .
  moreover have "task_step co cr tw io env en tid who req (s, w, Running program h (CallTool name args recf k) tr) =
      (s, w2, Running program h2 (k x) ?tr)"
    using c t by simp
  ultimately show ?case by (metis task_reaches_step)
qed

lemma task_reaches_trans:
  assumes "task_reaches co cr tw io env en tid who req x y" "task_reaches co cr tw io env en tid who req y z"
  shows "task_reaches co cr tw io env en tid who req x z"
proof -
  from assms obtain m n where "(task_step co cr tw io env en tid who req ^^ m) x = y"
    "(task_step co cr tw io env en tid who req ^^ n) y = z"
    unfolding task_reaches_def by blast
  then have "(task_step co cr tw io env en tid who req ^^ (n + m)) x = z" by (simp add: funpow_add)
  then show ?thesis unfolding task_reaches_def by blast
qed

lemma task_reaches_Arrived:
  assumes "arrive_step co cr io en who req s = (s1, ph)"
    and "task_reaches co cr tw io env en tid who req (s1, w, ph) y"
  shows "task_reaches co cr tw io env en tid who req (s, w, Arrived) y"
  by (rule task_reaches_step) (use assms in simp)

lemma task_reaches_ProgramStored:
  assumes "describe_step co cr io en who program s = (s1, ph)"
    and "task_reaches co cr tw io env en tid who req (s1, w, ph) y"
  shows "task_reaches co cr tw io env en tid who req (s, w, ProgramStored program) y"
  by (rule task_reaches_step) (use assms in simp)

lemma task_reaches_Finish:
  assumes "run_step co cr env en who program h (Finish res gas mem) tr w = (w, ph)"
    and "task_reaches co cr tw io env en tid who req (s, w, ph) y"
  shows "task_reaches co cr tw io env en tid who req (s, w, Running program h (Finish res gas mem) tr) y"
  by (rule task_reaches_step) (use assms in simp)

lemma task_reaches_Ran:
  assumes "finish_step co cr tw io env en tid who req program z s = (s1, Answered r)"
  shows "task_reaches co cr tw io env en tid who req (s, w, Ran program z) (s1, w, Answered r)"
  by (rule task_reaches_step) (use assms in \<open>simp add: task_reaches_refl\<close>)

text \<open>The run phase as a whole.\<close>

lemma run_program_reaches:
  assumes "run_program co env en who (allowed_schemas en who)
      (prelude_rows cr en who) program w = (w', q)"
  shows "task_reaches co cr tw io env en tid who req
     (s, w, Running program (host_new who (en_downstreams en) (allowed_schemas en who) (en_policy en))
              (core_execute co (vm_config_of (en_vm en)) program) [])
     (s, w', case q of Inl p \<Rightarrow> Answered (Inl (PanicE p)) | Inr z \<Rightarrow> Ran program z)"
proof -
  obtain h' w1 tr res gas mem where run: "run_vm (host_call_tool co env) host_take_attestation
      (core_execute co (vm_config_of (en_vm en)) program)
      (host_new who (en_downstreams en) (allowed_schemas en who) (en_policy en), w) [] = ((h', w1), tr, res, gas, mem)"
    by (metis prod.collapse)
  have w1: "w1 = w'" using assms run by (simp add: run_program_def)
  have "run_step co cr env en who program h' (Finish res gas mem) tr w' =
      (w', case q of Inl p \<Rightarrow> Answered (Inl (PanicE p)) | Inr z \<Rightarrow> Ran program z)"
    using assms run by (auto simp: run_program_def bind_r_def split: sum.splits)
  from task_reaches_trans [OF run_reaches [OF run] task_reaches_Finish [OF this [folded w1] task_reaches_refl]]
  show ?thesis unfolding w1 .
qed

lemma execute_by_steps:
  assumes "execute co cr tw io env en tid who req (s, w) = ((s', w'), r)"
  shows "task_reaches co cr tw io env en tid who req (s, w, Arrived) (s', w', Answered r)"
proof (cases "compile_program co (td_prelude (build cr (allowed_schemas en who))) (rq_program req)")
  case (Inl f)
  have "arrive_step co cr io en who req s = (s', Answered r)" "w' = w"
    using assms execute_not_compiled [OF Inl, of tw io env tid s w] Inl
    by (auto simp: arrive_step_def Let_def split: lint_failure.splits)
  then show ?thesis by (simp add: task_reaches_Arrived task_reaches_refl)
next
  case (Inr program)
  let ?D = "build cr (allowed_schemas en who)"
  let ?pl = "word_of_nat (count_char NL (td_prelude ?D))"
  obtain s1 r1 where p1: "put_program io (en_store en) s (hex_encode cr (core_program_hash co program))
      (td_prelude ?D @ rq_program req) = (s1, r1)" by fastforce
  obtain s2 r2 where p2: "put_description io (en_store en) s1 (hex_encode cr (td_hash ?D)) (td_text ?D) = (s2, r2)"
    by fastforce
  obtain w2 q where p3: "run_program co env en who (allowed_schemas en who) ?pl program w = (w2, q)" by fastforce
  define ok where "ok = (case r1 of Inl (Conflict k c) \<Rightarrow> Inr () | other \<Rightarrow> other)"
  show ?thesis
  proof (cases ok)
    case (Inl e)
    then have "arrive_step co cr io en who req s = (s1, Answered (Inl (StoreE e)))"
      using p1 Inr by (simp add: arrive_step_def ok_def)
    moreover have "s' = s1" "w' = w" "r = Inl (StoreE e)"
      using assms p1 Inr Inl by (simp_all add: execute_def ok_def)
    ultimately show ?thesis by (simp add: task_reaches_Arrived task_reaches_refl)
  next
    case stored: (Inr u)
    then have a: "arrive_step co cr io en who req s = (s1, ProgramStored program)"
      using p1 Inr by (simp add: arrive_step_def ok_def)
    show ?thesis
    proof (cases r2)
      case (Inl e)
      then have "describe_step co cr io en who program s1 = (s2, Answered (Inl (StoreE e)))"
        using p2 by (simp add: describe_step_def)
      moreover have "s' = s2" "w' = w" "r = Inl (StoreE e)"
        using assms p1 p2 Inr Inl stored by (simp_all add: execute_def ok_def)
      ultimately show ?thesis
        by (auto intro: task_reaches_Arrived [OF a] task_reaches_ProgramStored task_reaches_refl)
    next
      case described: (Inr v)
      then have d: "describe_step co cr io en who program s1 =
          (s2, Running program (host_new who (en_downstreams en) (allowed_schemas en who) (en_policy en))
                 (core_execute co (vm_config_of (en_vm en)) program) [])"
        using p2 by (simp add: describe_step_def)
      have "task_reaches co cr tw io env en tid who req
          (s2, w2, case q of Inl p \<Rightarrow> Answered (Inl (PanicE p)) | Inr z \<Rightarrow> Ran program z) (s', w', Answered r)"
      proof (cases q)
        case (Inl p)
        then have "s' = s2" "w' = w2" "r = Inl (PanicE p)"
          using assms p1 p2 p3 Inr stored described by (simp_all add: execute_def ok_def)
        with Inl show ?thesis by (simp add: task_reaches_refl)
      next
        case (Inr z)
        have "finish_step co cr tw io env en tid who req program z s2 = (s', Answered r)" "w' = w2"
          using assms p1 p2 p3 \<open>compile_program co _ _ = Inr program\<close> Inr stored described
          by (auto simp: execute_def ok_def finish_step_def split: prod.splits)
        with Inr show ?thesis by (simp add: task_reaches_Ran)
      qed
      with run_program_reaches [OF p3] show ?thesis
        by (blast intro: task_reaches_Arrived [OF a] task_reaches_ProgramStored [OF d] task_reaches_trans)
    qed
  qed
qed

lemma funpow_fixed: "f a = a \<Longrightarrow> (f ^^ n) a = a"
  by (induction n) simp_all

lemma funpow_meet:
  assumes "(f ^^ m) x = a" "f a = a" "(f ^^ n) x = b" "f b = b"
  shows "a = b"
proof -
  have "(f ^^ (n + m)) x = a" using assms(1,2) by (simp add: funpow_add funpow_fixed)
  moreover have "(f ^^ (m + n)) x = b" using assms(3,4) by (simp add: funpow_add funpow_fixed)
  ultimately show ?thesis by (simp add: add.commute)
qed

lemma task_alone:
  "task_reaches co cr tw io env en tid who req (s, w, Arrived) (s', w', Answered r) \<longleftrightarrow>
     execute co cr tw io env en tid who req (s, w) = ((s', w'), r)"
proof
  assume reached: "task_reaches co cr tw io env en tid who req (s, w, Arrived) (s', w', Answered r)"
  obtain s1 w1 r1 where ex: "execute co cr tw io env en tid who req (s, w) = ((s1, w1), r1)" by (metis prod.collapse)
  let ?f = "task_step co cr tw io env en tid who req"
  from execute_by_steps [OF ex] reached obtain m n where
    meet: "(?f ^^ m) (s, w, Arrived) = (s1, w1, Answered r1)" "(?f ^^ n) (s, w, Arrived) = (s', w', Answered r)"
    unfolding task_reaches_def by blast
  from funpow_meet [OF meet(1) _ meet(2)] have "s1 = s' \<and> w1 = w' \<and> r1 = r" by simp
  with ex show "execute co cr tw io env en tid who req (s, w) = ((s', w'), r)" by simp
qed (rule execute_by_steps)

section \<open>Tasks side by side\<close>

text \<open>What is known of a task: its trace id, its principal and its request.\<close>

type_synonym ('t, 'p) tasks = "nat \<rightharpoonup> string \<times> string \<times> execute_request \<times> ('t, 'p) phase"

text \<open>A step of the whole: a request arrives under a free number, or one of the tasks moves on.\<close>

inductive tasks_step ::
  "('t, 'b, 'p, 'k, 'z) core_scheme \<Rightarrow> crypto \<Rightarrow> trace_writer \<Rightarrow> 'w host_env \<Rightarrow> tokens \<Rightarrow> engine
     \<Rightarrow> fs \<times> 'w \<times> ('t, 'p) tasks \<Rightarrow> fs \<times> 'w \<times> ('t, 'p) tasks \<Rightarrow> bool"
  for co cr tw env tokens en where
  Arrive: "ts i = None \<Longrightarrow> who \<in> fst ` set tokens \<Longrightarrow>
     utf8_valid (td_prelude (build cr (allowed_schemas en who)) @ rq_program req) \<Longrightarrow>
     tasks_step co cr tw env tokens en (s, w, ts) (s, w, ts(i \<mapsto> (tid, who, req, Arrived)))"
| Move: "ts i = Some (tid, who, req, ph) \<Longrightarrow> (\<And>p. \<not> io_stat io p) \<Longrightarrow>
     task_step co cr tw io env en tid who req (s, w, ph) = (s', w', ph') \<Longrightarrow>
     tasks_step co cr tw env tokens en (s, w, ts) (s', w', ts(i \<mapsto> (tid, who, req, ph')))"

text \<open>A task that runs while the others wait.\<close>

lemma task_reaches_tasks:
  assumes "task_reaches co cr tw io env en tid who req (s, w, ph) (s', w', ph')" "\<And>p. \<not> io_stat io p"
  shows "(tasks_step co cr tw env tokens en)\<^sup>*\<^sup>* (s, w, ts(i \<mapsto> (tid, who, req, ph))) (s', w', ts(i \<mapsto> (tid, who, req, ph')))"
proof -
  from assms(1) obtain n where "(task_step co cr tw io env en tid who req ^^ n) (s, w, ph) = (s', w', ph')"
    unfolding task_reaches_def by blast
  then show ?thesis
  proof (induction n arbitrary: s' w' ph')
    case 0
    then show ?case by simp
  next
    case (Suc n)
    obtain s1 w1 ph1 where n: "(task_step co cr tw io env en tid who req ^^ n) (s, w, ph) = (s1, w1, ph1)"
      by (metis prod.collapse)
    with Suc.prems have "task_step co cr tw io env en tid who req (s1, w1, ph1) = (s', w', ph')" by simp
    from tasks_step.Move [of "ts(i \<mapsto> (tid, who, req, ph1))" i, OF _ assms(2) this, of tokens]
    have "tasks_step co cr tw env tokens en (s1, w1, ts(i \<mapsto> (tid, who, req, ph1))) (s', w', ts(i \<mapsto> (tid, who, req, ph')))"
      by simp
    with Suc.IH [OF n] show ?case by (rule rtranclp.rtrancl_into_rtrancl)
  qed
qed

section \<open>The invariant\<close>

text \<open>The program of a task compiles and something is stored under its hash.\<close>

definition program_ready ::
  "('t, 'b, 'p, 'k, 'z) core_scheme \<Rightarrow> crypto \<Rightarrow> engine \<Rightarrow> string \<Rightarrow> execute_request \<Rightarrow> fs \<Rightarrow> 'p \<Rightarrow> bool" where
  "program_ready co cr en who req s program \<longleftrightarrow>
     compile_program co (td_prelude (build cr (allowed_schemas en who))) (rq_program req) = Inr program \<and>
     (\<exists>p c. key_path (st_programs (en_store en)) (hex_encode cr (core_program_hash co program)) ''lua'' = Inr p \<and>
        fs_files s p = Some c)"

definition task_trace ::
  "('t, 'b, 'p, 'k, 'z) core_scheme \<Rightarrow> crypto \<Rightarrow> trace_writer \<Rightarrow> 'w host_env \<Rightarrow> engine \<Rightarrow> string \<Rightarrow> string \<Rightarrow> execute_request
     \<Rightarrow> 'p \<Rightarrow> trace_entry list \<times> string option \<times> run_status \<times> u64 \<times> u64 \<Rightarrow> trace" where
  "task_trace co cr tw env en tid who req program z =
     make_trace cr tw en
       (make_header cr (he_serde env) en who req tid (hex_encode cr (core_program_hash co program))
          (hex_encode cr (td_hash (build cr (allowed_schemas en who))))) z"

fun task_ok ::
  "('t, 'b, 'p, 'k, 'z) core_scheme \<Rightarrow> crypto \<Rightarrow> trace_writer \<Rightarrow> 'w host_env \<Rightarrow> engine \<Rightarrow> fs
     \<Rightarrow> string \<times> string \<times> execute_request \<times> ('t, 'p) phase \<Rightarrow> bool" where
  "task_ok co cr tw env en s (tid, who, req, Arrived) \<longleftrightarrow>
     utf8_valid (td_prelude (build cr (allowed_schemas en who)) @ rq_program req)"
| "task_ok co cr tw env en s (tid, who, req, ProgramStored program) \<longleftrightarrow> program_ready co cr en who req s program"
| "task_ok co cr tw env en s (tid, who, req, Running program h run tr) \<longleftrightarrow>
     program_ready co cr en who req s program \<and>
     reached_after (core_execute co (vm_config_of (en_vm en)) program) tr run \<and> length tr = length (gh_log h) \<and>
     same_rules (host_new who (en_downstreams en) (allowed_schemas en who) (en_policy en)) h"
| "task_ok co cr tw env en s (tid, who, req, Ran program z) \<longleftrightarrow>
     program_ready co cr en who req s program \<and> run_recorded co en (prelude_rows cr en who) program z"
| "task_ok co cr tw env en s (tid, who, req, Answered (Inr resp)) \<longleftrightarrow>
     (\<exists>program z p. program_ready co cr en who req s program \<and> run_recorded co en (prelude_rows cr en who) program z \<and>
        key_path (st_traces (en_store en)) tid ''json'' = Inr p \<and>
        fs_files s p = Some (trace_text tw (task_trace co cr tw env en tid who req program z)))"
| "task_ok co cr tw env en s (tid, who, req, Answered (Inl e)) \<longleftrightarrow> True"

lemma program_ready_keeps:
  "keeps s s' \<Longrightarrow> program_ready co cr en who req s program \<Longrightarrow> program_ready co cr en who req s' program"
  unfolding program_ready_def using keeps_key [of s s'] by fastforce

lemma task_ok_keeps:
  assumes "keeps s s'" "task_ok co cr tw env en s x"
  shows "task_ok co cr tw env en s' x"
proof -
  have "task_ok co cr tw env en s' (tid, who, req, Answered (Inr resp))"
    if "task_ok co cr tw env en s (tid, who, req, Answered (Inr resp))" for tid who req resp
    using that program_ready_keeps [OF assms(1)] keeps_key [OF assms(1)] by fastforce
  then show ?thesis
    using assms(2) program_ready_keeps [OF assms(1)]
    by (cases "(co, cr, tw, env, en, s, x)" rule: task_ok.cases) auto
qed

section \<open>What a step of a task keeps\<close>

lemma task_step_keeps:
  assumes "task_step co cr tw io env en tid who req (s, w, ph) = (s', w', ph')" "\<And>p. \<not> io_stat io p"
  shows "keeps s s'"
proof (cases ph)
  case Arrived
  with assms(1) show ?thesis
    by (auto simp: arrive_step_def Let_def dest: put_program_keeps split: sum.splits lint_failure.splits prod.splits)
next
  case (ProgramStored program)
  with assms(1) show ?thesis
    by (auto simp: describe_step_def Let_def dest: put_description_keeps split: sum.splits prod.splits)
next
  case (Ran program z)
  with assms show ?thesis by (auto simp: finish_step_def intro: finish_keeps split: prod.splits)
qed (use assms in \<open>auto split: prod.splits\<close>)

lemma task_step_sound:
  assumes step: "task_step co cr tw io env en tid who req (s, w, ph) = (s', w', ph')"
    and sound: "programs_sound co cr (en_store en) s" and ok: "task_ok co cr tw env en s (tid, who, req, ph)"
  shows "programs_sound co cr (en_store en) s'"
proof (cases ph)
  case Arrived
  let ?pre = "td_prelude (build cr (allowed_schemas en who))"
  show ?thesis
  proof (cases "compile_program co ?pre (rq_program req)")
    case (Inl f)
    with step sound Arrived show ?thesis
      by (auto simp: arrive_step_def Let_def split: lint_failure.splits)
  next
    case (Inr program)
    obtain s1 r1 where p: "put_program io (en_store en) s (hex_encode cr (core_program_hash co program))
        (?pre @ rq_program req) = (s1, r1)" by fastforce
    have "s' = s1" using step Arrived Inr p by (simp add: arrive_step_def Let_def)
    with programs_sound_put [OF sound p _ compile_stored_source [OF Inr]] ok Arrived show ?thesis by simp
  qed
next
  case (ProgramStored program)
  then obtain r where "put_description io (en_store en) s (hex_encode cr (td_hash (build cr (allowed_schemas en who))))
      (td_text (build cr (allowed_schemas en who))) = (s', r)"
    using step by (auto simp: describe_step_def Let_def split: sum.splits prod.splits)
  from programs_sound_unchanged [OF sound put_description_files [OF this]] show ?thesis by simp
next
  case (Ran program z)
  then obtain header r where "finish cr tw (he_serde env) io en header s z = (s', r)"
    using step by (auto simp: finish_step_def split: prod.splits)
  from programs_sound_unchanged [OF sound finish_files [OF this]] show ?thesis by simp
qed (use step sound in \<open>auto split: prod.splits\<close>)

text \<open>One call of a running task.\<close>

lemma run_step_call:
  assumes "run_step co cr env en who program h (CallTool name args recf k) tr w = (w', ph)"
  obtains h1 w1 res h2 att where
    "host_call_tool co env (h, w) name args = ((h1, w1), res)" "host_step env (h, w) (h1, w1)"
    "host_step env (h1, w1) (h2, w')" "gh_log h2 = gh_log h1"
    "ph = Running program h2 (k res) (tr @ (case recf res att of None \<Rightarrow> [] | Some r \<Rightarrow> [r]))"
proof -
  obtain h1 w1 res where c: "host_call_tool co env (h, w) name args = ((h1, w1), res)" by (metis prod.collapse)
  obtain h2 w2 att where
    t: "(case res of Inl _ \<Rightarrow> ((h1, w1), None) | Inr _ \<Rightarrow> host_take_attestation (h1, w1)) = ((h2, w2), att)"
    by (metis prod.collapse)
  have "host_step env (h1, w1) (h2, w2) \<and> gh_log h2 = gh_log h1"
    using t by (auto simp: host_take_attestation_def host_step_def same_rules_def split: sum.splits)
  moreover have "host_step env (h, w) (h1, w1)"
    using c same_rules_call [OF c] host_call_world [OF c] by (auto simp: host_step_def)
  moreover have "w' = w2" "ph = Running program h2 (k res) (tr @ (case recf res att of None \<Rightarrow> [] | Some r \<Rightarrow> [r]))"
    using assms c t by simp_all
  ultimately show ?thesis using that c by blast
qed

lemma same_rules_trans: "same_rules a b \<Longrightarrow> same_rules b c \<Longrightarrow> same_rules a c"
  by (simp add: same_rules_def)

lemma running_step_ok:
  assumes step: "run_step co cr env en who program h run tr w = (w', ph)"
    and ok: "task_ok co cr tw env en s (tid, who, req, Running program h run tr)"
    and calls: "\<forall>cfg p. records_calls co (core_execute co cfg p)"
  shows "task_ok co cr tw env en s (tid, who, req, ph)"
proof (cases run)
  case (Finish res gas mem)
  with step ok show ?thesis
    by (auto simp: run_recorded_def zip_entries_parts(1) split: sum.splits if_splits prod.splits)
next
  case (CallTool name args recf k)
  from step [unfolded CallTool] obtain h1 w1 res h2 att where
    c: "host_call_tool co env (h, w) name args = ((h1, w1), res)" and hs: "host_step env (h, w) (h1, w1)"
      "host_step env (h1, w1) (h2, w')" "gh_log h2 = gh_log h1"
    and ph: "ph = Running program h2 (k res) (tr @ (case recf res att of None \<Rightarrow> [] | Some r \<Rightarrow> [r]))"
    by (rule run_step_call)
  have reached: "reached_after (core_execute co (vm_config_of (en_vm en)) program) tr (CallTool name args recf k)"
    using ok CallTool by simp
  have "records_calls co (CallTool name args recf k)" by (rule reached_records_calls [OF reached calls [rule_format]])
  moreover have "case res of Inl _ \<Rightarrow> True | Inr t \<Rightarrow> is_ok (canonical_serialize_table co t)"
    using c host_call_recordable by (cases res) auto
  ultimately obtain r where r: "recf res att = Some r" by fastforce
  have "length (gh_log h2) = Suc (length (gh_log h))" using host_call_log [OF c] hs(3) by auto
  moreover have "same_rules h h2" using hs same_rules_trans by (auto simp: host_step_def)
  ultimately show ?thesis
    using ok reached_after.Recorded [OF reached r] unfolding ph r by (auto intro: same_rules_trans)
qed

lemma task_step_ok:
  assumes step: "task_step co cr tw io env en tid who req (s, w, ph) = (s', w', ph')"
    and quiet: "\<And>p. \<not> io_stat io p" and ok: "task_ok co cr tw env en s (tid, who, req, ph)"
    and calls: "\<forall>cfg p. records_calls co (core_execute co cfg p)"
  shows "task_ok co cr tw env en s' (tid, who, req, ph')"
proof (cases ph)
  case Arrived
  let ?pre = "td_prelude (build cr (allowed_schemas en who))"
  show ?thesis
  proof (cases "compile_program co ?pre (rq_program req)")
    case (Inl f)
    with step Arrived show ?thesis
      by (auto simp: arrive_step_def Let_def split: lint_failure.splits)
  next
    case (Inr program)
    obtain s1 r1 where p: "put_program io (en_store en) s (hex_encode cr (core_program_hash co program))
        (?pre @ rq_program req) = (s1, r1)" by fastforce
    show ?thesis
    proof (cases "r1 = Inr () \<or> (\<exists>a b. r1 = Inl (Conflict a b))")
      case True
      then have "s' = s1" "ph' = ProgramStored program"
        using step Arrived Inr p by (auto simp: arrive_step_def Let_def)
      with put_program_present [OF p True] Inr show ?thesis by (auto simp: program_ready_def)
    next
      case False
      then obtain e where "r1 = Inl e" "\<forall>a b. e \<noteq> Conflict a b" by (cases r1) auto
      then have "ph' = Answered (Inl (StoreE e))"
        using step Arrived Inr p by (auto simp: arrive_step_def Let_def split: store_error.splits)
      then show ?thesis by simp
    qed
  qed
next
  case (ProgramStored program)
  have keep: "keeps s s'" by (rule task_step_keeps [OF step quiet])
  from step ok program_ready_keeps [OF keep] ProgramStored show ?thesis
    by (auto simp: describe_step_def Let_def reached_after.Start host_new_def same_rules_def split: sum.splits prod.splits)
next
  case (Running program h run tr)
  obtain ph'' w'' where r: "run_step co cr env en who program h run tr w = (w'', ph'')" by fastforce
  with step Running have "s' = s" "ph' = ph''" by simp_all
  with running_step_ok [OF r ok [unfolded Running] calls] show ?thesis by simp
next
  case (Ran program z)
  let ?header = "make_header cr (he_serde env) en who req tid (hex_encode cr (core_program_hash co program))
      (hex_encode cr (td_hash (build cr (allowed_schemas en who))))"
  obtain r where fin: "finish cr tw (he_serde env) io en ?header s z = (s', r)" and ph': "ph' = Answered r"
    using step Ran by (auto simp: finish_step_def split: prod.splits)
  show ?thesis
  proof (cases r)
    case (Inl e)
    then show ?thesis unfolding ph' by simp
  next
    case (Inr resp)
    from finish_Inr [OF fin [unfolded Inr]]
    have put: "put_trace io tw (en_store en) s (make_trace cr tw en ?header z) = (s', Inr ())" by blast
    have tid: "trace_id (tr_header (make_trace cr tw en ?header z)) = tid" by (simp add: make_header_def)
    from put_trace_Inr [OF put] obtain p where "key_path (st_traces (en_store en)) tid ''json'' = Inr p"
      "fs_files s' p = Some (trace_text tw (make_trace cr tw en ?header z))" unfolding tid by auto
    moreover have "run_recorded co en (prelude_rows cr en who) program z" "program_ready co cr en who req s' program"
      using ok Ran program_ready_keeps [OF task_step_keeps [OF step quiet], of co cr en who req program] by simp_all
    ultimately show ?thesis unfolding ph' Inr task_ok.simps task_trace_def by blast
  qed
next
  case (Answered r)
  with step ok show ?thesis by simp
qed

lemma task_step_world:
  assumes step: "task_step co cr tw io env en tid who req (s, w, ph) = (s', w', ph')"
    and ok: "task_ok co cr tw env en s (tid, who, req, ph)"
  shows "(permitted_request env (host_new who (en_downstreams en) (allowed_schemas en who) (en_policy en)))\<^sup>*\<^sup>* w w'"
proof (cases "\<exists>program h name args recf k tr. ph = Running program h (CallTool name args recf k) tr")
  case True
  then obtain program h name args recf k tr where ph: "ph = Running program h (CallTool name args recf k) tr" by blast
  obtain ph'' where run: "run_step co cr env en who program h (CallTool name args recf k) tr w = (w', ph'')"
    using step unfolding ph task_step.simps by (auto simp del: run_step.simps split: prod.splits)
  obtain h1 w1 h2 where "host_step env (h, w) (h1, w1)" "host_step env (h1, w1) (h2, w')"
    using run by (rule run_step_call) blast
  then have "(host_step env)\<^sup>*\<^sup>* (h, w) (h2, w')" by (rule converse_rtranclp_into_rtranclp [OF _ r_into_rtranclp])
  from host_steps_world [OF this] have "(permitted_request env h)\<^sup>*\<^sup>* w w'" ..
  moreover have "same_rules (host_new who (en_downstreams en) (allowed_schemas en who) (en_policy en)) h"
    using ok by (simp add: ph)
  ultimately show ?thesis by (simp only: permitted_request_cong)
next
  case False
  have "w' = w"
  proof (cases ph)
    case (Running program h run tr)
    with False obtain res gas mem where "run = Finish res gas mem" by (cases run) auto
    with step Running show ?thesis by simp
  qed (use step in \<open>auto split: prod.splits\<close>)
  then show ?thesis by simp
qed

section \<open>Any interleaving\<close>

definition tasks_ok ::
  "('t, 'b, 'p, 'k, 'z) core_scheme \<Rightarrow> crypto \<Rightarrow> trace_writer \<Rightarrow> 'w host_env \<Rightarrow> tokens \<Rightarrow> engine \<Rightarrow> fs \<Rightarrow> ('t, 'p) tasks \<Rightarrow> bool" where
  "tasks_ok co cr tw env tokens en s ts \<longleftrightarrow>
     (\<forall>i tid who req ph. ts i = Some (tid, who, req, ph) \<longrightarrow>
        who \<in> fst ` set tokens \<and> task_ok co cr tw env en s (tid, who, req, ph))"

lemma tasks_ok_update:
  assumes "tasks_ok co cr tw env tokens en s ts" "keeps s s'"
    and "who \<in> fst ` set tokens" "task_ok co cr tw env en s' (tid, who, req, ph)"
  shows "tasks_ok co cr tw env tokens en s' (ts(i \<mapsto> (tid, who, req, ph)))"
  using assms(1,3,4) unfolding tasks_ok_def
  by (auto split: if_splits intro: task_ok_keeps [OF assms(2)])

lemma tasks_step_inv:
  assumes "tasks_step co cr tw env tokens en (s, w, ts) (s', w', ts')"
    and ok: "tasks_ok co cr tw env tokens en s ts" and sound: "programs_sound co cr (en_store en) s"
    and calls: "\<forall>cfg p. records_calls co (core_execute co cfg p)"
  shows "tasks_ok co cr tw env tokens en s' ts' \<and> programs_sound co cr (en_store en) s' \<and> keeps s s' \<and>
    (authorized_request env tokens en)\<^sup>*\<^sup>* w w'"
  using assms(1)
proof cases
  case (Arrive i who req tid)
  then show ?thesis using tasks_ok_update [OF ok keeps_refl, of who tid req Arrived i] sound by simp
next
  case (Move i tid who req ph io ph')
  from ok Move(2) have who: "who \<in> fst ` set tokens" and task: "task_ok co cr tw env en s (tid, who, req, ph)"
    by (auto simp: tasks_ok_def)
  note step = Move(4)
  have keep: "keeps s s'" by (rule task_step_keeps [OF step Move(3)])
  have "permitted_request env (host_new who (en_downstreams en) (allowed_schemas en who) (en_policy en))
      \<le> authorized_request env tokens en"
    using who unfolding authorized_request_def by blast
  from rtranclp_mono [OF this] task_step_world [OF step task] have "(authorized_request env tokens en)\<^sup>*\<^sup>* w w'" by auto
  with keep task_step_sound [OF step sound task] tasks_ok_update [OF ok keep who task_step_ok [OF step Move(3) task calls]]
  show ?thesis unfolding Move(1) by blast
qed

lemma tasks_history:
  assumes "(tasks_step co cr tw env tokens en)\<^sup>*\<^sup>* (s, w, ts) (s', w', ts')"
    and "tasks_ok co cr tw env tokens en s ts" "programs_sound co cr (en_store en) s"
    and "\<forall>cfg p. records_calls co (core_execute co cfg p)"
  shows "tasks_ok co cr tw env tokens en s' ts' \<and> programs_sound co cr (en_store en) s' \<and> keeps s s' \<and>
    (authorized_request env tokens en)\<^sup>*\<^sup>* w w'"
  using assms
proof (induction "(s', w', ts')" arbitrary: s' w' ts')
  case base
  then show ?case by simp
next
  case (step b)
  obtain s1 w1 ts1 where b: "b = (s1, w1, ts1)" by (cases b)
  from step.hyps(3) [OF b step.prems] tasks_step_inv [OF step.hyps(2) [unfolded b] _ _ step.prems(3)]
  show ?case by (auto intro: keeps_trans rtranclp_trans)
qed

lemma tasks_ok_none: "tasks_ok co cr tw env tokens en s (\<lambda>_. None)"
  by (simp add: tasks_ok_def)

text \<open>What an answered task left behind replays.\<close>

lemma answered_task_replays:
  assumes ok: "task_ok co cr tw env en s (tid, who, req, Answered (Inr resp))"
    and sound: "programs_sound co cr (en_store en) s"
    and reads: "\<And>p. io_read io p = None"
    and laws: "crypto_laws cr" and json: "\<forall>t. from_slice (trace_text tw t) = Inr t"
    and hash: "hash_covers_bytecode co"
    and tape: "tape_laws co at" "\<forall>cfg p. tape_serves co at (core_execute co cfg p)"
    and key: "secret_resolve ienv (signing_key (gc_server config)) = Inr hex"
      "signing_key_from_hex cr hex = Inr (en_signing_key en)"
    and store: "store_open io s (store_dir (gc_store config)) = (s', Inr (en_store en))"
  shows "\<exists>rep. replay co cr tw io ienv from_slice config tid s = (s', Inr rep) \<and> rr_matched rep \<and> rr_mismatches rep = []"
proof -
  obtain program z q where ready: "program_ready co cr en who req s program"
    and run: "run_recorded co en (prelude_rows cr en who) program z"
    and trace: "key_path (st_traces (en_store en)) tid ''json'' = Inr q"
      "fs_files s q = Some (trace_text tw (task_trace co cr tw env en tid who req program z))"
    using ok by auto
  let ?header = "make_header cr (he_serde env) en who req tid (hex_encode cr (core_program_hash co program))
      (hex_encode cr (td_hash (build cr (allowed_schemas en who))))"
  have header: "th_vm_config ?header = en_vm en" "program_hash ?header = hex_encode cr (core_program_hash co program)"
    by (simp_all add: make_header_def)
  from ready obtain p c where p: "key_path (st_programs (en_store en)) (program_hash ?header) ''lua'' = Inr p"
    "fs_files s p = Some c" unfolding program_ready_def header(2) by blast
  with sound obtain program' where c: "utf8_valid c" "compile_program co [] c = Inr program'"
    "hex_encode cr (core_program_hash co program') = program_hash ?header"
    unfolding programs_sound_def by blast
  show ?thesis
    by (rule stored_run_replays [OF run header trace [unfolded task_trace_def] p c reads laws json hash tape key store])
qed

end
