(* ===== verification/Store_Steps.thy ===== *)
theory Store_Steps
  imports Trace_Store
begin

text \<open>
  \<open>src/store.rs\<close>, one system call at a time: the look-up before a write, the drawing of a temporary name,
  open, write, sync, rename, and the removal after a failure, as an executable step function with the
  failures of each step its own. The steps of one put, taken together, are the operation of
  \<open>Trace_Store\<close>; between them other operations can come.
\<close>

section \<open>A put step by step\<close>

text \<open>What the look-up asks for: a trace must not exist, content must not differ.\<close>

datatype put_kind = AppendOnly string | ContentAddressed string string

record put_job =
  pj_path :: path
  pj_kind :: put_kind
  pj_bytes :: string

datatype put_stage =
    LookingUp
  | Drawing
  | OpeningTmp path
  | WritingTmp path
  | SyncingTmp path
  | RenamingTmp path
  | RemovingTmp path io_error
  | PutDone "store_error + unit"

definition look_up :: "io_env \<Rightarrow> put_job \<Rightarrow> fs \<Rightarrow> put_stage" where
  "look_up io j s =
     (case pj_kind j of
        AppendOnly tid \<Rightarrow> if fs_exists io s (pj_path j) then PutDone (Inl (TraceExists tid)) else Drawing
      | ContentAddressed kind key \<Rightarrow>
          (case fs_read io s (pj_path j) of
             Inr existing \<Rightarrow> PutDone (if existing = pj_bytes j then Inr () else Inl (Conflict kind key))
           | Inl NotFound \<Rightarrow> Drawing
           | Inl e \<Rightarrow> PutDone (Inl (Io e))))"

definition then_stage :: "path \<Rightarrow> fs \<times> (io_error + unit) \<Rightarrow> put_stage \<Rightarrow> fs \<times> put_stage" where
  "then_stage tmp r st = (case r of (s, Inl e) \<Rightarrow> (s, RemovingTmp tmp e) | (s, Inr _) \<Rightarrow> (s, st))"

fun put_step :: "io_env \<Rightarrow> put_job \<Rightarrow> fs \<times> put_stage \<Rightarrow> fs \<times> put_stage" where
  "put_step io j (s, LookingUp) = (s, look_up io j s)"
| "put_step io j (s, Drawing) =
     (case path_parent (pj_path j) of
        None \<Rightarrow> (s, PutDone (Inl (StorePanic ''store paths always have a parent'')))
      | Some dir \<Rightarrow>
          (s\<lparr>fs_counter := fs_counter s + 1\<rparr>, OpeningTmp (path_join dir [tmp_name (io_pid io) (fs_counter s)])))"
| "put_step io j (s, OpeningTmp tmp) = then_stage tmp (fs_create_new io s tmp) (WritingTmp tmp)"
| "put_step io j (s, WritingTmp tmp) = then_stage tmp (fs_write_all io s tmp (pj_bytes j)) (SyncingTmp tmp)"
| "put_step io j (s, SyncingTmp tmp) = then_stage tmp (fs_sync_all io s tmp) (RenamingTmp tmp)"
| "put_step io j (s, RenamingTmp tmp) = then_stage tmp (fs_rename io s tmp (pj_path j)) (PutDone (Inr ()))"
| "put_step io j (s, RemovingTmp tmp e) = (fs_remove_file io s tmp, PutDone (Inl (Io e)))"
| "put_step io j (s, PutDone r) = (s, PutDone r)"

text \<open>The jobs of the store's operations.\<close>

definition program_job :: "trace_store \<Rightarrow> string \<Rightarrow> string \<Rightarrow> store_error + put_job" where
  "program_job st key source =
     (case key_path (st_programs st) key ''lua'' of
        Inl e \<Rightarrow> Inl e
      | Inr p \<Rightarrow> Inr \<lparr>pj_path = p, pj_kind = ContentAddressed ''program'' key, pj_bytes = source\<rparr>)"

definition description_job :: "trace_store \<Rightarrow> string \<Rightarrow> string \<Rightarrow> store_error + put_job" where
  "description_job st key content =
     (case key_path (st_descriptions st) key ''txt'' of
        Inl e \<Rightarrow> Inl e
      | Inr p \<Rightarrow> Inr \<lparr>pj_path = p, pj_kind = ContentAddressed ''description'' key, pj_bytes = content\<rparr>)"

definition trace_job :: "trace_writer \<Rightarrow> trace_store \<Rightarrow> trace \<Rightarrow> store_error + put_job" where
  "trace_job w st t =
     (case key_path (st_traces st) (trace_id (tr_header t)) ''json'' of
        Inl e \<Rightarrow> Inl e
      | Inr p \<Rightarrow> Inr \<lparr>pj_path = p, pj_kind = AppendOnly (trace_id (tr_header t)), pj_bytes = trace_text w t\<rparr>)"

section \<open>All steps of a put\<close>

definition put_whole :: "io_env \<Rightarrow> put_job \<Rightarrow> fs \<Rightarrow> fs \<times> (store_error + unit)" where
  "put_whole io j s =
     (case look_up io j s of PutDone r \<Rightarrow> (s, r) | _ \<Rightarrow> write_atomic io s (pj_path j) (pj_bytes j))"

definition put_via :: "io_env \<Rightarrow> fs \<Rightarrow> store_error + put_job \<Rightarrow> fs \<times> (store_error + unit)" where
  "put_via io s job = (case job of Inl e \<Rightarrow> (s, Inl e) | Inr j \<Rightarrow> put_whole io j s)"

lemma put_program_via: "put_program io st s key source = put_via io s (program_job st key source)"
  by (auto simp: put_program_def put_via_def program_job_def put_whole_def look_up_def put_content_addressed_def
      split: sum.splits io_error.splits)

lemma put_description_via: "put_description io st s key content = put_via io s (description_job st key content)"
  by (auto simp: put_description_def put_via_def description_job_def put_whole_def look_up_def
      put_content_addressed_def split: sum.splits io_error.splits)

lemma put_trace_via: "put_trace io w st s t = put_via io s (trace_job w st t)"
  by (auto simp: put_trace_def put_via_def trace_job_def put_whole_def look_up_def split: sum.splits)

definition op_job :: "trace_writer \<Rightarrow> trace_store \<Rightarrow> store_op \<Rightarrow> store_error + put_job" where
  "op_job w st op =
     (case op of
        PutTrace t \<Rightarrow> trace_job w st t
      | PutProgram k src \<Rightarrow> program_job st k src
      | PutDescription k txt \<Rightarrow> description_job st k txt)"

lemma run_op_via: "run_op w st (io, op) s = put_via io s (op_job w st op)"
  by (cases op) (simp_all add: op_job_def put_trace_via put_program_via put_description_via)

lemma op_job_path: "op_job w st op = Inr j \<Longrightarrow> store_path (pj_path j)"
  by (auto simp: op_job_def trace_job_def program_job_def description_job_def key_path_store
      split: store_op.splits sum.splits)

text \<open>A put takes at most seven steps.\<close>

lemma write_atomic_by_steps:
  "(put_step io j ^^ 6) (s, Drawing) =
     (case write_atomic io s (pj_path j) (pj_bytes j) of (s', r) \<Rightarrow> (s', PutDone r))"
  by (simp add: eval_nat_numeral write_atomic_def Let_def then_fs_def then_stage_def fs_create_new_def
      fs_write_all_def fs_sync_all_def fs_rename_def fs_remove_file_def split: option.splits)

lemma look_up_cases: "look_up io j s = Drawing \<or> (\<exists>r. look_up io j s = PutDone r)"
  by (auto simp: look_up_def split: put_kind.splits sum.splits io_error.splits)

lemma put_done_stays: "(put_step io j ^^ n) (s, PutDone r) = (s, PutDone r)"
  by (induction n) simp_all

lemma put_by_steps:
  "(put_step io j ^^ 7) (s, LookingUp) = (case put_whole io j s of (s', r) \<Rightarrow> (s', PutDone r))"
proof -
  have "(put_step io j ^^ 7) (s, LookingUp) = (put_step io j ^^ 6) (s, look_up io j s)"
    using funpow_Suc_right [of 6 "put_step io j"] by simp
  with look_up_cases [of io j s] show ?thesis
    by (auto simp: put_whole_def write_atomic_by_steps put_done_stays)
qed

lemma run_op_by_steps:
  "op_job w st op = Inr j \<Longrightarrow>
     (put_step io j ^^ 7) (s, LookingUp) = (case run_op w st (io, op) s of (s', r) \<Rightarrow> (s', PutDone r))"
  by (simp add: run_op_via put_via_def put_by_steps)

section \<open>What one step touches\<close>

fun stage_tmp :: "put_stage \<Rightarrow> path option" where
  "stage_tmp (OpeningTmp tmp) = Some tmp"
| "stage_tmp (WritingTmp tmp) = Some tmp"
| "stage_tmp (SyncingTmp tmp) = Some tmp"
| "stage_tmp (RenamingTmp tmp) = Some tmp"
| "stage_tmp (RemovingTmp tmp e) = Some tmp"
| "stage_tmp _ = None"

text \<open>What a put relies on between its steps: that what it has written is still there.\<close>

fun stage_ok :: "fs \<Rightarrow> put_job \<Rightarrow> put_stage \<Rightarrow> bool" where
  "stage_ok s j (SyncingTmp tmp) \<longleftrightarrow> fs_files s tmp = Some (pj_bytes j)"
| "stage_ok s j (RenamingTmp tmp) \<longleftrightarrow> fs_files s tmp = Some (pj_bytes j)"
| "stage_ok s j _ \<longleftrightarrow> True"

lemma stage_ok_other:
  "stage_ok s j st \<Longrightarrow> (\<And>tmp. stage_tmp st = Some tmp \<Longrightarrow> fs_files s' tmp = fs_files s tmp) \<Longrightarrow> stage_ok s' j st"
  by (cases st) simp_all

lemmas put_step_defs = then_stage_def fs_create_new_def fs_write_all_def fs_sync_all_def fs_rename_def fs_remove_file_def

lemma put_step_ok: "put_step io j (s, st) = (s', st') \<Longrightarrow> stage_ok s j st \<Longrightarrow> stage_ok s' j st'"
  using look_up_cases [of io j s]
  by (cases st) (auto simp: put_step_defs split: option.splits if_splits)

text \<open>It changes its temporary file, and its target only to the whole content.\<close>

lemma put_step_frame:
  "put_step io j (s, st) = (s', st') \<Longrightarrow> stage_ok s j st \<Longrightarrow> fs_files s' q \<noteq> fs_files s q \<Longrightarrow>
     stage_tmp st = Some q \<or> q = pj_path j \<and> fs_files s' q = Some (pj_bytes j)"
  by (cases st) (auto simp: put_step_defs split: option.splits if_splits)

text \<open>The step that changes its target is the last one.\<close>

lemma put_step_target:
  "put_step io j (s, st) = (s', st') \<Longrightarrow> stage_ok s j st \<Longrightarrow> stage_tmp st \<noteq> Some q \<Longrightarrow> fs_files s' q \<noteq> fs_files s q \<Longrightarrow>
     q = pj_path j \<and> fs_files s' q = Some (pj_bytes j) \<and> st' = PutDone (Inr ())"
  by (cases st) (auto simp: put_step_defs split: option.splits if_splits)

text \<open>The temporary name stays the one that was drawn.\<close>

lemma put_step_tmp:
  assumes "put_step io j (s, st) = (s', st')" "stage_tmp st' = Some tmp" "store_path (pj_path j)"
  shows "stage_tmp st = Some tmp \<and> fs_counter s' = fs_counter s \<or>
     tmp = butlast (pj_path j) @ [tmp_name (io_pid io) (fs_counter s)] \<and> fs_counter s' = fs_counter s + 1"
  using assms look_up_cases [of io j s]
  by (cases st)
    (auto simp: put_step_defs path_parent_def store_path_def path_join_single tmp_name_chars
      split: option.splits if_splits)

lemma put_step_counter:
  "put_step io j (s, st) = (s', st') \<Longrightarrow>
     fs_counter s' = fs_counter s \<or> st = Drawing \<and> fs_counter s' = fs_counter s + 1"
  by (cases st) (auto simp: put_step_defs split: option.splits if_splits)

text \<open>What a finished put has left behind.\<close>

lemma put_step_done:
  assumes "put_step io j (s, st) = (s', PutDone r)" "stage_ok s j st" "\<And>r. st \<noteq> PutDone r"
  shows "(r = Inr () \<longrightarrow> fs_files s' (pj_path j) = Some (pj_bytes j)) \<and>
     (\<forall>a b. r = Inl (Conflict a b) \<longrightarrow> fs_files s' (pj_path j) \<noteq> None)"
  using assms
  by (cases st)
    (auto simp: put_step_defs look_up_def fs_read_Inr
      split: option.splits if_splits put_kind.splits sum.splits io_error.splits)

end
