(* ===== verification/Fine_Tasks.thy ===== *)
theory Fine_Tasks
  imports Gateway_Tasks Store_Steps
begin

text \<open>
  \<open>Engine::execute\<close> one system call at a time: the tasks of \<open>Gateway_Tasks\<close> with every put of the store
  taken apart into the steps of \<open>Store_Steps\<close>. A task that is left alone is \<open>execute\<close> exactly.
\<close>

section \<open>Tasks in small steps\<close>

datatype ('t, 'p) fine_phase =
    Between "('t, 'p) phase"
  | StoringProgram 'p put_job put_stage
  | StoringDescription 'p put_job put_stage
  | StoringTrace "trace_entry list \<times> string option \<times> run_status \<times> u64 \<times> u64" 'p put_job put_stage

definition task_program_job ::
  "('t, 'b, 'p, 'k, 'z) core_scheme \<Rightarrow> crypto \<Rightarrow> engine \<Rightarrow> string \<Rightarrow> execute_request \<Rightarrow> 'p \<Rightarrow> store_error + put_job" where
  "task_program_job co cr en who req program =
     program_job (en_store en) (hex_encode cr (core_program_hash co program))
       (td_prelude (build cr (allowed_schemas en who)) @ rq_program req)"

definition task_description_job :: "crypto \<Rightarrow> engine \<Rightarrow> string \<Rightarrow> store_error + put_job" where
  "task_description_job cr en who =
     (let description = build cr (allowed_schemas en who)
      in description_job (en_store en) (hex_encode cr (td_hash description)) (td_text description))"

definition task_trace_job ::
  "('t, 'b, 'p, 'k, 'z) core_scheme \<Rightarrow> crypto \<Rightarrow> trace_writer \<Rightarrow> 'w host_env \<Rightarrow> engine \<Rightarrow> string \<Rightarrow> string
     \<Rightarrow> execute_request \<Rightarrow> 'p \<Rightarrow> trace_entry list \<times> string option \<times> run_status \<times> u64 \<times> u64 \<Rightarrow> store_error + put_job" where
  "task_trace_job co cr tw env en tid who req program z =
     trace_job tw (en_store en) (task_trace co cr tw env en tid who req program z)"

text \<open>How an execution goes on after each put.\<close>

fun after_program :: "'p \<Rightarrow> store_error + unit \<Rightarrow> ('t, 'p) phase" where
  "after_program program (Inl (Conflict k c)) = ProgramStored program"
| "after_program program (Inl e) = Answered (Inl (StoreE e))"
| "after_program program (Inr _) = ProgramStored program"

definition after_description ::
  "('t, 'b, 'p, 'k, 'z) core_scheme \<Rightarrow> engine \<Rightarrow> string \<Rightarrow> 'p \<Rightarrow> store_error + unit \<Rightarrow> ('t, 'p) phase" where
  "after_description co en who program r =
     (case r of
        Inl e \<Rightarrow> Answered (Inl (StoreE e))
      | Inr _ \<Rightarrow> Running program (host_new who (en_downstreams en) (allowed_schemas en who) (en_policy en))
                   (core_execute co (vm_config_of (en_vm en)) program) [])"

definition after_trace ::
  "serde \<Rightarrow> string \<Rightarrow> trace_entry list \<times> string option \<times> run_status \<times> u64 \<times> u64 \<Rightarrow> store_error + unit
     \<Rightarrow> ('t, 'p) phase" where
  "after_trace sd tid z r =
     (case r of
        Inl e \<Rightarrow> Answered (Inl (StoreE e))
      | Inr _ \<Rightarrow>
          (case z of (entries, out, status, gas, mem) \<Rightarrow>
             (case out of
                None \<Rightarrow> Answered (Inr \<lparr>rs_result = None, rs_trace_id = tid, rs_status = status\<rparr>)
              | Some json \<Rightarrow>
                  (case json_parse sd json of
                     Inl e \<Rightarrow> Answered (Inl (PanicE (''canonical output is valid JSON: '' @ e)))
                   | Inr v \<Rightarrow> Answered (Inr \<lparr>rs_result = Some v, rs_trace_id = tid, rs_status = status\<rparr>)))))"

text \<open>Beginning a put: an invalid key ends it at once. Continuing one: until it is done.\<close>

definition begin_put :: "store_error + put_job \<Rightarrow> (put_job \<Rightarrow> ('t, 'p) fine_phase) \<Rightarrow> ('t, 'p) fine_phase" where
  "begin_put job storing = (case job of Inl e \<Rightarrow> Between (Answered (Inl (StoreE e))) | Inr j \<Rightarrow> storing j)"

definition go_on ::
  "fs \<times> put_stage \<Rightarrow> (put_stage \<Rightarrow> ('t, 'p) fine_phase) \<Rightarrow> (store_error + unit \<Rightarrow> ('t, 'p) phase) \<Rightarrow> fs \<times> ('t, 'p) fine_phase" where
  "go_on r storing after =
     (case r of (s, PutDone x) \<Rightarrow> (s, Between (after x)) | (s, st) \<Rightarrow> (s, storing st))"

fun fine_step ::
  "('t, 'b, 'p, 'k, 'z) core_scheme \<Rightarrow> crypto \<Rightarrow> trace_writer \<Rightarrow> io_env \<Rightarrow> 'w host_env \<Rightarrow> engine \<Rightarrow> string \<Rightarrow> string
     \<Rightarrow> execute_request \<Rightarrow> fs \<times> 'w \<times> ('t, 'p) fine_phase \<Rightarrow> fs \<times> 'w \<times> ('t, 'p) fine_phase" where
  "fine_step co cr tw io env en tid who req (s, w, Between Arrived) =
     (s, w, case compile_program co (td_prelude (build cr (allowed_schemas en who))) (rq_program req) of
              Inl (Lint e) \<Rightarrow> Between (Answered (Inl (LintE e)))
            | Inl (LintPanic m) \<Rightarrow> Between (Answered (Inl (PanicE m)))
            | Inr program \<Rightarrow>
                begin_put (task_program_job co cr en who req program) (\<lambda>j. StoringProgram program j LookingUp))"
| "fine_step co cr tw io env en tid who req (s, w, Between (ProgramStored program)) =
     (s, w, begin_put (task_description_job cr en who) (\<lambda>j. StoringDescription program j LookingUp))"
| "fine_step co cr tw io env en tid who req (s, w, Between (Running program h run tr)) =
     (case run_step co cr env en who program h run tr w of (w', ph) \<Rightarrow> (s, w', Between ph))"
| "fine_step co cr tw io env en tid who req (s, w, Between (Ran program z)) =
     (s, w, begin_put (task_trace_job co cr tw env en tid who req program z) (\<lambda>j. StoringTrace z program j LookingUp))"
| "fine_step co cr tw io env en tid who req (s, w, Between (Answered r)) = (s, w, Between (Answered r))"
| "fine_step co cr tw io env en tid who req (s, w, StoringProgram program j st) =
     (case go_on (put_step io j (s, st)) (StoringProgram program j) (after_program program) of (s', ph) \<Rightarrow> (s', w, ph))"
| "fine_step co cr tw io env en tid who req (s, w, StoringDescription program j st) =
     (case go_on (put_step io j (s, st)) (StoringDescription program j) (after_description co en who program) of
        (s', ph) \<Rightarrow> (s', w, ph))"
| "fine_step co cr tw io env en tid who req (s, w, StoringTrace z program j st) =
     (case go_on (put_step io j (s, st)) (StoringTrace z program j) (after_trace (he_serde env) tid z) of
        (s', ph) \<Rightarrow> (s', w, ph))"

section \<open>A task on its own\<close>

text \<open>A put that starts in a task comes to its end there.\<close>

lemma put_in_task:
  assumes step: "\<And>s st. (\<And>r. st \<noteq> PutDone r) \<Longrightarrow>
      f (s, w, storing st) = (case go_on (put_step io j (s, st)) storing after of (s', ph) \<Rightarrow> (s', w, ph))"
    and "(put_step io j ^^ n) (s, st) = (s', PutDone r)" "\<And>r. st \<noteq> PutDone r"
  shows "\<exists>m. (f ^^ m) (s, w, storing st) = (s', w, Between (after r))"
  using assms(2,3)
proof (induction n arbitrary: s st)
  case 0
  then show ?case by simp
next
  case (Suc n)
  obtain s1 st1 where one: "put_step io j (s, st) = (s1, st1)" by fastforce
  then have rest: "(put_step io j ^^ n) (s1, st1) = (s', PutDone r)"
    using Suc.prems(1) by (simp add: funpow_Suc_right del: funpow.simps)
  show ?case
  proof (cases "\<exists>x. st1 = PutDone x")
    case True
    then obtain x where x: "st1 = PutDone x" by blast
    with rest have "s1 = s'" "x = r" by (simp_all add: put_done_stays)
    with step [OF Suc.prems(2), of s] one x have "(f ^^ 1) (s, w, storing st) = (s', w, Between (after r))"
      by (simp add: go_on_def)
    then show ?thesis by blast
  next
    case False
    then have "f (s, w, storing st) = (s1, w, storing st1)"
      using step [OF Suc.prems(2), of s] one by (cases st1) (auto simp: go_on_def)
    moreover from Suc.IH [OF rest] False obtain m where "(f ^^ m) (s1, w, storing st1) = (s', w, Between (after r))"
      by blast
    ultimately have "(f ^^ Suc m) (s, w, storing st) = (s', w, Between (after r))"
      by (simp add: funpow_Suc_right del: funpow.simps)
    then show ?thesis by blast
  qed
qed

lemma put_via_in_task:
  assumes "\<And>j s st. (\<And>r. st \<noteq> PutDone r) \<Longrightarrow>
      f (s, w, storing j st) = (case go_on (put_step io j (s, st)) (storing j) after of (s', ph) \<Rightarrow> (s', w, ph))"
    and "f (s, w, ph) = (s, w, begin_put job (\<lambda>j. storing j LookingUp))"
    and "put_via io s job = (s', r)" and "\<And>e. job = Inl e \<Longrightarrow> after (Inl e) = Answered (Inl (StoreE e))"
  shows "\<exists>m. (f ^^ m) (s, w, ph) = (s', w, Between (after r))"
proof (cases job)
  case (Inl e)
  with assms(2-4) have "(f ^^ 1) (s, w, ph) = (s', w, Between (after r))"
    by (auto simp: put_via_def begin_put_def)
  then show ?thesis by blast
next
  case (Inr j)
  with assms(3) have whole: "put_whole io j s = (s', r)" by (simp add: put_via_def)
  have "(put_step io j ^^ 7) (s, LookingUp) = (s', PutDone r)" by (simp add: put_by_steps whole)
  from put_in_task [OF assms(1) this] obtain m where "(f ^^ m) (s, w, storing j LookingUp) = (s', w, Between (after r))"
    by blast
  then have "(f ^^ Suc m) (s, w, ph) = (s', w, Between (after r))"
    using assms(2) Inr by (simp add: begin_put_def funpow_Suc_right del: funpow.simps)
  then show ?thesis by blast
qed

text \<open>Every step of \<open>Gateway_Tasks\<close> is some of these steps.\<close>

lemma task_step_fine:
  assumes "task_step co cr tw io env en tid who req (s, w, ph) = (s', w', ph')"
  shows "\<exists>m. (fine_step co cr tw io env en tid who req ^^ m) (s, w, Between ph) = (s', w', Between ph')"
proof -
  let ?f = "fine_step co cr tw io env en tid who req"
  have one: "?f (s, w, Between ph) = (s', w', Between ph') \<Longrightarrow> ?thesis"
    by (rule exI [of _ 1]) simp
  show ?thesis
  proof (cases ph)
    case Arrived
    show ?thesis
    proof (cases "compile_program co (td_prelude (build cr (allowed_schemas en who))) (rq_program req)")
      case (Inl e)
      with assms Arrived show ?thesis
        by (intro one) (auto simp: arrive_step_def split: lint_failure.splits)
    next
      case (Inr program)
      obtain s1 r1 where put: "put_via io s (task_program_job co cr en who req program) = (s1, r1)" by fastforce
      have "s' = s1" "w' = w" "ph' = after_program program r1"
        using assms Arrived Inr put
        by (auto simp: arrive_step_def put_program_via task_program_job_def Let_def
            split: sum.splits store_error.splits)
      moreover have "\<exists>m. (?f ^^ m) (s, w, Between Arrived) = (s1, w, Between (after_program program r1))"
        by (rule put_via_in_task [where storing = "StoringProgram program" and after = "after_program program", OF _ _ put])
          (auto simp: Inr task_program_job_def program_job_def key_path_Inl split: sum.splits)
      ultimately show ?thesis using Arrived by simp
    qed
  next
    case (ProgramStored program)
    obtain s1 r1 where put: "put_via io s (task_description_job cr en who) = (s1, r1)" by fastforce
    have "s' = s1" "w' = w" "ph' = after_description co en who program r1"
      using assms ProgramStored put
      by (auto simp: describe_step_def put_description_via task_description_job_def after_description_def Let_def
          split: sum.splits)
    moreover have "\<exists>m. (?f ^^ m) (s, w, Between (ProgramStored program)) =
        (s1, w, Between (after_description co en who program r1))"
      by (rule put_via_in_task [where storing = "StoringDescription program" and after = "after_description co en who program",
            OF _ _ put]) (simp_all add: after_description_def [of co en who program "Inl e" for e])
    ultimately show ?thesis using ProgramStored by simp
  next
    case (Running program h run tr)
    with assms show ?thesis by (intro one) (auto split: prod.splits)
  next
    case (Ran program z)
    obtain s1 r1 where put: "put_via io s (task_trace_job co cr tw env en tid who req program z) = (s1, r1)" by fastforce
    have "s' = s1" "w' = w" "ph' = after_trace (he_serde env) tid z r1"
      using assms Ran put
      by (auto simp: finish_step_def finish_def put_trace_via task_trace_job_def task_trace_def after_trace_def
          make_header_def make_trace_parts Let_def split: sum.splits prod.splits option.splits)
    moreover have "\<exists>m. (?f ^^ m) (s, w, Between (Ran program z)) = (s1, w, Between (after_trace (he_serde env) tid z r1))"
      by (rule put_via_in_task [where storing = "StoringTrace z program" and after = "after_trace (he_serde env) tid z",
            OF _ _ put]) (simp_all add: after_trace_def [of "he_serde env" tid z "Inl e" for e])
    ultimately show ?thesis using Ran by simp
  next
    case (Answered r)
    with assms show ?thesis by (intro one) auto
  qed
qed

lemma task_reaches_fine:
  assumes "task_reaches co cr tw io env en tid who req (s, w, ph) (s', w', ph')"
  shows "\<exists>m. (fine_step co cr tw io env en tid who req ^^ m) (s, w, Between ph) = (s', w', Between ph')"
proof -
  from assms obtain n where "(task_step co cr tw io env en tid who req ^^ n) (s, w, ph) = (s', w', ph')"
    unfolding task_reaches_def by blast
  then show ?thesis
  proof (induction n arbitrary: s' w' ph')
    case 0
    then show ?case by (intro exI [of _ 0]) simp
  next
    case (Suc n)
    obtain s1 w1 ph1 where n: "(task_step co cr tw io env en tid who req ^^ n) (s, w, ph) = (s1, w1, ph1)"
      by (metis prod.collapse)
    with Suc.prems have "task_step co cr tw io env en tid who req (s1, w1, ph1) = (s', w', ph')" by simp
    from task_step_fine [OF this] Suc.IH [OF n] obtain k m where
      "(fine_step co cr tw io env en tid who req ^^ m) (s, w, Between ph) = (s1, w1, Between ph1)"
      "(fine_step co cr tw io env en tid who req ^^ k) (s1, w1, Between ph1) = (s', w', Between ph')" by blast
    then have "(fine_step co cr tw io env en tid who req ^^ (k + m)) (s, w, Between ph) = (s', w', Between ph')"
      by (simp add: funpow_add)
    then show ?case by blast
  qed
qed

lemma fine_alone:
  "(\<exists>n. (fine_step co cr tw io env en tid who req ^^ n) (s, w, Between Arrived) = (s', w', Between (Answered r))) \<longleftrightarrow>
     execute co cr tw io env en tid who req (s, w) = ((s', w'), r)"
proof
  let ?f = "fine_step co cr tw io env en tid who req"
  assume "\<exists>n. (?f ^^ n) (s, w, Between Arrived) = (s', w', Between (Answered r))"
  then obtain n where n: "(?f ^^ n) (s, w, Between Arrived) = (s', w', Between (Answered r))" ..
  obtain s1 w1 r1 where ex: "execute co cr tw io env en tid who req (s, w) = ((s1, w1), r1)" by (metis prod.collapse)
  from task_reaches_fine [OF execute_by_steps [OF ex]] obtain m where
    m: "(?f ^^ m) (s, w, Between Arrived) = (s1, w1, Between (Answered r1))" by blast
  from funpow_meet [OF m _ n] have "s1 = s' \<and> w1 = w' \<and> r1 = r" by simp
  with ex show "execute co cr tw io env en tid who req (s, w) = ((s', w'), r)" by simp
next
  assume "execute co cr tw io env en tid who req (s, w) = ((s', w'), r)"
  from task_reaches_fine [OF execute_by_steps [OF this]]
  show "\<exists>n. (fine_step co cr tw io env en tid who req ^^ n) (s, w, Between Arrived) = (s', w', Between (Answered r))" .
qed

end
