(* ===== verification/Racing_Tasks.thy ===== *)
theory Racing_Tasks
  imports Fine_Tasks
begin

text \<open>
  Concurrent executions one system call at a time. Two tasks can both find a program missing, or one can
  look up what another is about to rename into place. An invariant of all interleavings, from what a step
  changes (its temporary file, and its target only to the whole content) and what the others rely on
  (their temporary file, the trace of their id, and that files of the store stay there).
\<close>

section \<open>Tasks that race\<close>

type_synonym ('t, 'p) fine_tasks = "nat \<rightharpoonup> string \<times> string \<times> execute_request \<times> ('t, 'p) fine_phase"

text \<open>A request arrives with a trace id that no other has, or a task makes its next step, with failures of
  its own, in the one process \<open>pid\<close>. The counter of temporary names does not wrap around (that would
  take \<open>2 ^ 64\<close> writes).\<close>

inductive racing_step ::
  "('t, 'b, 'p, 'k, 'z) core_scheme \<Rightarrow> crypto \<Rightarrow> trace_writer \<Rightarrow> 'w host_env \<Rightarrow> tokens \<Rightarrow> engine \<Rightarrow> nat
     \<Rightarrow> fs \<times> 'w \<times> ('t, 'p) fine_tasks \<Rightarrow> fs \<times> 'w \<times> ('t, 'p) fine_tasks \<Rightarrow> bool"
  for co cr tw env tokens en pid where
  Arrive: "ts i = None \<Longrightarrow> who \<in> fst ` set tokens \<Longrightarrow> (\<And>j x. ts j = Some x \<Longrightarrow> fst x \<noteq> tid) \<Longrightarrow>
     utf8_valid (td_prelude (build cr (allowed_schemas en who)) @ rq_program req) \<Longrightarrow>
     racing_step co cr tw env tokens en pid (s, w, ts) (s, w, ts(i \<mapsto> (tid, who, req, Between Arrived)))"
| Move: "ts i = Some (tid, who, req, ph) \<Longrightarrow> io_pid io = pid \<Longrightarrow>
     fine_step co cr tw io env en tid who req (s, w, ph) = (s', w', ph') \<Longrightarrow> fs_counter s \<le> fs_counter s' \<Longrightarrow>
     racing_step co cr tw env tokens en pid (s, w, ts) (s', w', ts(i \<mapsto> (tid, who, req, ph')))"

section \<open>What holds of each task\<close>

fun phase_put :: "('t, 'p) fine_phase \<Rightarrow> (put_job \<times> put_stage) option" where
  "phase_put (Between ph) = None"
| "phase_put (StoringProgram program j st) = Some (j, st)"
| "phase_put (StoringDescription program j st) = Some (j, st)"
| "phase_put (StoringTrace z program j st) = Some (j, st)"

definition phase_tmp :: "('t, 'p) fine_phase \<Rightarrow> path option" where
  "phase_tmp ph = Option.bind (phase_put ph) (\<lambda>(j, st). stage_tmp st)"

fun fine_ok ::
  "('t, 'b, 'p, 'k, 'z) core_scheme \<Rightarrow> crypto \<Rightarrow> trace_writer \<Rightarrow> 'w host_env \<Rightarrow> engine \<Rightarrow> fs
     \<Rightarrow> string \<times> string \<times> execute_request \<times> ('t, 'p) fine_phase \<Rightarrow> bool" where
  "fine_ok co cr tw env en s (tid, who, req, Between ph) \<longleftrightarrow> task_ok co cr tw env en s (tid, who, req, ph)"
| "fine_ok co cr tw env en s (tid, who, req, StoringProgram program j st) \<longleftrightarrow>
     compile_program co (td_prelude (build cr (allowed_schemas en who))) (rq_program req) = Inr program \<and>
     utf8_valid (td_prelude (build cr (allowed_schemas en who)) @ rq_program req) \<and>
     task_program_job co cr en who req program = Inr j \<and> stage_ok s j st \<and> (\<forall>r. st \<noteq> PutDone r)"
| "fine_ok co cr tw env en s (tid, who, req, StoringDescription program j st) \<longleftrightarrow>
     program_ready co cr en who req s program \<and>
     task_description_job cr en who = Inr j \<and> stage_ok s j st \<and> (\<forall>r. st \<noteq> PutDone r)"
| "fine_ok co cr tw env en s (tid, who, req, StoringTrace z program j st) \<longleftrightarrow>
     program_ready co cr en who req s program \<and> run_recorded co en (prelude_rows cr en who) program z \<and>
     task_trace_job co cr tw env en tid who req program z = Inr j \<and> stage_ok s j st \<and> (\<forall>r. st \<noteq> PutDone r)"

lemma fine_ok_put:
  "fine_ok co cr tw env en s (tid, who, req, ph) \<Longrightarrow> phase_put ph = Some (j, st) \<Longrightarrow>
     stage_ok s j st \<and> (\<forall>r. st \<noteq> PutDone r)"
  by (cases ph) simp_all

text \<open>Where a task's put goes: to a program, to a description, or to the trace of the task's own id.\<close>

lemma program_job_Inr:
  "program_job st key source = Inr j \<longleftrightarrow>
     key_path (st_programs st) key ''lua'' = Inr (pj_path j) \<and> pj_kind j = ContentAddressed ''program'' key \<and>
     pj_bytes j = source"
  by (cases j) (auto simp: program_job_def split: sum.splits)

lemma description_job_Inr:
  "description_job st key content = Inr j \<longleftrightarrow>
     key_path (st_descriptions st) key ''txt'' = Inr (pj_path j) \<and>
     pj_kind j = ContentAddressed ''description'' key \<and> pj_bytes j = content"
  by (cases j) (auto simp: description_job_def split: sum.splits)

lemma trace_job_Inr:
  "trace_job tw st t = Inr j \<longleftrightarrow>
     key_path (st_traces st) (trace_id (tr_header t)) ''json'' = Inr (pj_path j) \<and>
     pj_kind j = AppendOnly (trace_id (tr_header t)) \<and> pj_bytes j = trace_text tw t"
  by (cases j) (auto simp: trace_job_def split: sum.splits)

lemma task_trace_id: "trace_id (tr_header (task_trace co cr tw env en tid who req program z)) = tid"
  by (simp add: task_trace_def make_header_def make_trace_parts)

lemmas task_jobs = task_program_job_def program_job_Inr task_description_job_def description_job_Inr Let_def
  task_trace_job_def trace_job_Inr task_trace_id

lemma fine_ok_path:
  assumes "fine_ok co cr tw env en s (tid, who, req, ph)" "phase_put ph = Some (j, st)"
  obtains (program) program where "ph = StoringProgram program j st"
      "key_path (st_programs (en_store en)) (hex_encode cr (core_program_hash co program)) ''lua'' = Inr (pj_path j)"
  | (description) key where "key_path (st_descriptions (en_store en)) key ''txt'' = Inr (pj_path j)"
  | (trace) "key_path (st_traces (en_store en)) tid ''json'' = Inr (pj_path j)"
  using assms by (cases ph) (auto simp: task_jobs)

lemma fine_ok_store_path:
  assumes "fine_ok co cr tw env en s (tid, who, req, ph)" "phase_put ph = Some (j, st)"
  shows "store_path (pj_path j)"
  using assms by (rule fine_ok_path) (auto dest: key_path_store)

section \<open>What a step changes\<close>

text \<open>A step of a task can change its temporary file, and its target only to the whole content.\<close>

lemma fine_step_frame:
  assumes "fine_step co cr tw io env en tid who req (s, w, ph) = (s', w', ph')"
    and "fine_ok co cr tw env en s (tid, who, req, ph)" and "fs_files s' q \<noteq> fs_files s q"
  obtains (tmp) "phase_tmp ph = Some q"
  | (target) j st where "phase_put ph = Some (j, st)" "q = pj_path j" "fs_files s' q = Some (pj_bytes j)"
proof -
  have "\<exists>j st st'. phase_put ph = Some (j, st) \<and> put_step io j (s, st) = (s', st')"
  proof (cases ph)
    case (Between x)
    with assms(1,3) show ?thesis by (cases x) (auto split: prod.splits)
  qed (use assms(1) in \<open>auto simp: go_on_def split: prod.splits put_stage.splits\<close>)
  then obtain j st st' where put: "phase_put ph = Some (j, st)" and step: "put_step io j (s, st) = (s', st')" by blast
  from put_step_frame [OF step _ assms(3)] fine_ok_put [OF assms(2) put] put tmp target show ?thesis
    by (auto simp: phase_tmp_def)
qed

text \<open>What every task can rely on: the files of the store stay there.\<close>

definition stays :: "fs \<Rightarrow> fs \<Rightarrow> bool" where
  "stays s s' \<longleftrightarrow> (\<forall>q. \<not> is_tmp q \<longrightarrow> fs_files s q \<noteq> None \<longrightarrow> fs_files s' q \<noteq> None)"

lemma stays_refl: "stays s s"
  by (simp add: stays_def)

lemma stays_trans: "stays s s' \<Longrightarrow> stays s' s'' \<Longrightarrow> stays s s''"
  by (simp add: stays_def)

lemma program_ready_stays:
  assumes "stays s s'" "program_ready co cr en who req s program"
  shows "program_ready co cr en who req s' program"
proof -
  from assms(2) obtain p c where p: "key_path (st_programs (en_store en)) (hex_encode cr (core_program_hash co program)) ''lua'' = Inr p"
    "fs_files s p = Some c" unfolding program_ready_def by blast
  from key_path_store [OF p(1)] have "\<not> is_tmp p" by (simp add: store_path_def)
  with assms(1) p(2) have "\<exists>c'. fs_files s' p = Some c'" unfolding stays_def by blast
  with assms(2) p(1) show ?thesis unfolding program_ready_def by blast
qed

text \<open>A task stays all right while others move, if its temporary file and its trace are left alone.\<close>

lemma fine_ok_others:
  assumes ok: "fine_ok co cr tw env en s (tid, who, req, ph)" and "stays s s'"
    and tmp: "\<And>q. phase_tmp ph = Some q \<Longrightarrow> fs_files s' q = fs_files s q"
    and trace: "\<And>q. key_path (st_traces (en_store en)) tid ''json'' = Inr q \<Longrightarrow> fs_files s' q = fs_files s q"
  shows "fine_ok co cr tw env en s' (tid, who, req, ph)"
proof -
  note ready = program_ready_stays [OF assms(2)]
  have stage: "stage_ok s' j st" if "phase_put ph = Some (j, st)" for j st
    by (rule stage_ok_other [of s]) (use fine_ok_put [OF ok that] tmp that in \<open>auto simp: phase_tmp_def\<close>)
  show ?thesis
  proof (cases ph)
    case (Between x)
    have "task_ok co cr tw env en s' (tid, who, req, Answered (Inr resp))" if "x = Answered (Inr resp)" for resp
    proof -
      from ok Between that obtain program z p where "program_ready co cr en who req s program"
        "run_recorded co en (prelude_rows cr en who) program z" "key_path (st_traces (en_store en)) tid ''json'' = Inr p"
        "fs_files s p = Some (trace_text tw (task_trace co cr tw env en tid who req program z))" by auto
      with ready trace show ?thesis unfolding task_ok.simps by metis
    qed
    with ok Between ready show ?thesis
      by (cases "(co, cr, tw, env, en, s, (tid, who, req, x))" rule: task_ok.cases) auto
  qed (use ok stage ready in auto)
qed

section \<open>What a step achieves\<close>

lemma fine_step_stays:
  assumes "fine_step co cr tw io env en tid who req (s, w, ph) = (s', w', ph')"
    and "fine_ok co cr tw env en s (tid, who, req, ph)" and "\<And>q. phase_tmp ph = Some q \<Longrightarrow> is_tmp q"
  shows "stays s s'"
  unfolding stays_def
proof (intro allI impI)
  fix q
  assume q: "\<not> is_tmp q" "fs_files s q \<noteq> None"
  show "fs_files s' q \<noteq> None"
  proof (cases "fs_files s' q = fs_files s q")
    case False
    from assms(1,2) this show ?thesis by (rule fine_step_frame) (use assms(3) q(1) in auto)
  qed (use q in simp)
qed

lemma after_program_cases:
  "after_program program r = x \<Longrightarrow>
     x = ProgramStored program \<and> (r = Inr () \<or> (\<exists>a b. r = Inl (Conflict a b))) \<or> (\<exists>e. x = Answered (Inl (StoreE e)))"
  by (cases "(program, r)" rule: after_program.cases) auto

lemma after_trace_cases:
  "after_trace sd tid z r = x \<Longrightarrow> (\<exists>resp. x = Answered (Inr resp) \<and> r = Inr ()) \<or> (\<exists>e. x = Answered (Inl e))"
  by (cases r; cases z) (auto simp: after_trace_def split: option.splits sum.splits)

text \<open>A step of a put, and where the task is after it.\<close>

lemma go_on_cases:
  assumes "go_on (put_step io j (s, st)) storing after = (s', ph')"
  obtains (done_) r where "put_step io j (s, st) = (s', PutDone r)" "ph' = Between (after r)"
  | (more) st' where "put_step io j (s, st) = (s', st')" "\<forall>r. st' \<noteq> PutDone r" "ph' = storing st'"
  using assms by (auto simp: go_on_def split: prod.splits put_stage.splits)

lemma fine_step_ok:
  assumes step: "fine_step co cr tw io env en tid who req (s, w, ph) = (s', w', ph')"
    and ok: "fine_ok co cr tw env en s (tid, who, req, ph)" and "\<And>q. phase_tmp ph = Some q \<Longrightarrow> is_tmp q"
    and calls: "\<forall>cfg p. records_calls co (core_execute co cfg p)"
  shows "fine_ok co cr tw env en s' (tid, who, req, ph')"
proof -
  have ready: "program_ready co cr en who req s program \<Longrightarrow> program_ready co cr en who req s' program" for program
    by (rule program_ready_stays [OF fine_step_stays [OF assms(1-3)]])
  show ?thesis
  proof (cases ph)
    case (Between x)
    show ?thesis
    proof (cases x)
      case Arrived
      with step ok Between show ?thesis
        by (auto simp: begin_put_def split: sum.splits lint_failure.splits)
    next
      case (Running program h run tr)
      with step obtain y where y: "run_step co cr env en who program h run tr w = (w', y)" "s' = s" "ph' = Between y"
        using Between by (auto split: prod.splits)
      from running_step_ok [OF y(1) _ calls] ok Between Running y show ?thesis by simp
    qed (use step ok Between in \<open>auto simp: begin_put_def split: sum.splits\<close>)
  next
    case (StoringProgram program j st)
    with step have g: "go_on (put_step io j (s, st)) (StoringProgram program j) (after_program program) = (s', ph')"
      by (auto split: prod.splits)
    from ok StoringProgram have stage: "stage_ok s j st" "\<And>r. st \<noteq> PutDone r" by auto
    from g show ?thesis
    proof (cases rule: go_on_cases)
      case (done_ r)
      have "program_ready co cr en who req s' program" if "r = Inr () \<or> (\<exists>a b. r = Inl (Conflict a b))"
      proof -
        have "fs_files s' (pj_path j) \<noteq> None" using put_step_done [OF done_(1) stage] that by auto
        with ok StoringProgram show ?thesis by (auto simp: program_ready_def task_jobs)
      qed
      moreover obtain x where "after_program program r = x" "ph' = Between x" using done_(2) by simp
      ultimately show ?thesis using after_program_cases [of program r x] by auto
    next
      case (more st')
      with put_step_ok [OF more(1) stage(1)] ok StoringProgram show ?thesis by simp
    qed
  next
    case (StoringDescription program j st)
    with step have g: "go_on (put_step io j (s, st)) (StoringDescription program j) (after_description co en who program) = (s', ph')"
      by (auto split: prod.splits)
    from ok StoringDescription have stage: "stage_ok s j st" by auto
    from g show ?thesis
    proof (cases rule: go_on_cases)
      case (done_ r)
      with ok StoringDescription ready show ?thesis
        by (auto simp: after_description_def reached_after.Start host_new_def same_rules_def split: sum.splits)
    next
      case (more st')
      with put_step_ok [OF more(1) stage(1)] ok StoringDescription ready show ?thesis by simp
    qed
  next
    case (StoringTrace z program j st)
    with step have g: "go_on (put_step io j (s, st)) (StoringTrace z program j) (after_trace (he_serde env) tid z) = (s', ph')"
      by (auto split: prod.splits)
    from ok StoringTrace have stage: "stage_ok s j st" "\<And>r. st \<noteq> PutDone r" by auto
    from g show ?thesis
    proof (cases rule: go_on_cases)
      case (done_ r)
      have "task_ok co cr tw env en s' (tid, who, req, Answered (Inr resp))" if "r = Inr ()" for resp
      proof -
        have "fs_files s' (pj_path j) = Some (trace_text tw (task_trace co cr tw env en tid who req program z))"
          using put_step_done [OF done_(1) stage] that ok StoringTrace by (simp add: task_jobs)
        moreover have "key_path (st_traces (en_store en)) tid ''json'' = Inr (pj_path j)"
          using ok StoringTrace by (simp add: task_jobs)
        moreover have "program_ready co cr en who req s' program" "run_recorded co en (prelude_rows cr en who) program z"
          using ok StoringTrace ready by auto
        ultimately show ?thesis unfolding task_ok.simps by blast
      qed
      moreover obtain x where "after_trace (he_serde env) tid z r = x" "ph' = Between x" using done_(2) by simp
      ultimately show ?thesis using after_trace_cases [of "he_serde env" tid z r x] by auto
    next
      case (more st')
      with put_step_ok [OF more(1) stage(1)] ok StoringTrace ready show ?thesis by simp
    qed
  qed
qed

text \<open>Stored programs stay sound: what is renamed into place is a source that compiles to its hash.\<close>

lemma fine_step_sound:
  assumes step: "fine_step co cr tw io env en tid who req (s, w, ph) = (s', w', ph')"
    and ok: "fine_ok co cr tw env en s (tid, who, req, ph)" and tmp: "\<And>q. phase_tmp ph = Some q \<Longrightarrow> is_tmp q"
    and sound: "programs_sound co cr (en_store en) s"
  shows "programs_sound co cr (en_store en) s'"
  unfolding programs_sound_def
proof (intro allI impI)
  fix key p c
  assume p: "key_path (st_programs (en_store en)) key ''lua'' = Inr p" and c: "fs_files s' p = Some c"
  show "utf8_valid c \<and> (\<exists>program. compile_program co [] c = Inr program \<and> hex_encode cr (core_program_hash co program) = key)"
  proof (cases "fs_files s' p = fs_files s p")
    case True
    with sound p c show ?thesis unfolding programs_sound_def by metis
  next
    case False
    from step ok this show ?thesis
    proof (rule fine_step_frame)
      assume "phase_tmp ph = Some p"
      with tmp key_path_store [OF p] show ?thesis by (auto simp: store_path_def)
    next
      fix j st
      assume put: "phase_put ph = Some (j, st)" and target: "p = pj_path j" "fs_files s' p = Some (pj_bytes j)"
      from ok put show ?thesis
      proof (rule fine_ok_path)
        fix program
        assume ph: "ph = StoringProgram program j st"
          and "key_path (st_programs (en_store en)) (hex_encode cr (core_program_hash co program)) ''lua'' = Inr (pj_path j)"
        with p target(1) have "key = hex_encode cr (core_program_hash co program)" by (auto simp: key_path_Inr)
        moreover have "pj_bytes j = td_prelude (build cr (allowed_schemas en who)) @ rq_program req"
          using ok ph by (simp add: task_jobs)
        moreover have "compile_program co [] (td_prelude (build cr (allowed_schemas en who)) @ rq_program req) = Inr program"
          by (rule compile_stored_source) (use ok ph in simp)
        ultimately show ?thesis using ok ph c target(2) by auto
      qed (use program_path_apart [OF p] target(1) in auto)
    qed
  qed
qed

text \<open>A step of a task reaches the world only by a tool call.\<close>

lemma fine_step_world:
  assumes step: "fine_step co cr tw io env en tid who req (s, w, ph) = (s', w', ph')"
    and ok: "fine_ok co cr tw env en s (tid, who, req, ph)"
  shows "(permitted_request env (host_new who (en_downstreams en) (allowed_schemas en who) (en_policy en)))\<^sup>*\<^sup>* w w'"
proof (cases "\<exists>program h run tr. ph = Between (Running program h run tr)")
  case True
  then obtain program h run tr where ph: "ph = Between (Running program h run tr)" by blast
  with step obtain y where "task_step co cr tw io env en tid who req (s, w, Running program h run tr) = (s, w', y)"
    by (auto split: prod.splits)
  with ok ph show ?thesis by (blast intro: task_step_world dest: fine_ok.simps(1) [THEN iffD1])
next
  case False
  have "w' = w"
  proof (cases ph)
    case (Between x)
    with False step show ?thesis by (cases x) auto
  qed (use step in \<open>auto split: prod.splits\<close>)
  then show ?thesis by simp
qed

section \<open>The invariant of a race\<close>

lemma fine_step_tmp:
  assumes step: "fine_step co cr tw io env en tid who req (s, w, ph) = (s', w', ph')"
    and ok: "fine_ok co cr tw env en s (tid, who, req, ph)" and "phase_tmp ph' = Some q"
  shows "phase_tmp ph = Some q \<and> fs_counter s' = fs_counter s \<or>
    (\<exists>d. q = d @ [tmp_name (io_pid io) (fs_counter s)]) \<and> fs_counter s' = fs_counter s + 1"
proof -
  have put: "\<exists>j st st'. phase_put ph = Some (j, st) \<and> put_step io j (s, st) = (s', st') \<and> stage_tmp st' = Some q"
  proof (cases ph)
    case (Between x)
    with step assms(3) show ?thesis
      by (cases x) (auto simp: phase_tmp_def begin_put_def split: prod.splits sum.splits lint_failure.splits)
  qed (use step assms(3) in \<open>auto simp: phase_tmp_def elim!: go_on_cases split: prod.splits\<close>)
  then obtain j st st' where "phase_put ph = Some (j, st)" "put_step io j (s, st) = (s', st')" "stage_tmp st' = Some q"
    by blast
  with put_step_tmp [OF this(2,3) fine_ok_store_path [OF ok this(1)]] show ?thesis by (auto simp: phase_tmp_def)
qed

definition tasks_fine ::
  "('t, 'b, 'p, 'k, 'z) core_scheme \<Rightarrow> crypto \<Rightarrow> trace_writer \<Rightarrow> 'w host_env \<Rightarrow> tokens \<Rightarrow> engine \<Rightarrow> fs
     \<Rightarrow> ('t, 'p) fine_tasks \<Rightarrow> bool" where
  "tasks_fine co cr tw env tokens en s ts \<longleftrightarrow>
     (\<forall>i tid who req ph. ts i = Some (tid, who, req, ph) \<longrightarrow>
        who \<in> fst ` set tokens \<and> fine_ok co cr tw env en s (tid, who, req, ph))"

text \<open>No two tasks have one trace id or one temporary file, and every temporary name was drawn.\<close>

definition ids_apart :: "('t, 'p) fine_tasks \<Rightarrow> bool" where
  "ids_apart ts \<longleftrightarrow> (\<forall>i j x y. ts i = Some x \<longrightarrow> ts j = Some y \<longrightarrow> fst x = fst y \<longrightarrow> i = j)"

definition names_drawn :: "nat \<Rightarrow> fs \<Rightarrow> ('t, 'p) fine_tasks \<Rightarrow> bool" where
  "names_drawn pid s ts \<longleftrightarrow>
     (\<forall>i tid who req ph q. ts i = Some (tid, who, req, ph) \<longrightarrow> phase_tmp ph = Some q \<longrightarrow>
        (\<exists>d n. q = d @ [tmp_name pid n] \<and> n < fs_counter s) \<and>
        (\<forall>j tid' who' req' ph'. ts j = Some (tid', who', req', ph') \<longrightarrow> phase_tmp ph' = Some q \<longrightarrow> i = j))"

definition racing_ok ::
  "('t, 'b, 'p, 'k, 'z) core_scheme \<Rightarrow> crypto \<Rightarrow> trace_writer \<Rightarrow> 'w host_env \<Rightarrow> tokens \<Rightarrow> engine \<Rightarrow> nat \<Rightarrow> fs
     \<Rightarrow> ('t, 'p) fine_tasks \<Rightarrow> bool" where
  "racing_ok co cr tw env tokens en pid s ts \<longleftrightarrow>
     tasks_fine co cr tw env tokens en s ts \<and> ids_apart ts \<and> names_drawn pid s ts \<and>
     programs_sound co cr (en_store en) s"

lemma names_drawn_tmp:
  "names_drawn pid s ts \<Longrightarrow> ts i = Some (tid, who, req, ph) \<Longrightarrow> phase_tmp ph = Some q \<Longrightarrow> is_tmp q"
  unfolding names_drawn_def using is_tmp_tmp_name by blast

text \<open>One task moves and the others stay all right.\<close>

lemma move_others:
  assumes step: "fine_step co cr tw io env en tid who req (s, w, ph) = (s', w', ph')"
    and i: "ts i = Some (tid, who, req, ph)" and j: "ts j = Some (tid', who', req', ph2)" and "j \<noteq> i"
    and fine: "tasks_fine co cr tw env tokens en s ts" and ids: "ids_apart ts" and names: "names_drawn pid s ts"
  shows "fine_ok co cr tw env en s' (tid', who', req', ph2)"
proof (rule fine_ok_others)
  have ok: "fine_ok co cr tw env en s (tid, who, req, ph)" "fine_ok co cr tw env en s (tid', who', req', ph2)"
    using fine i j unfolding tasks_fine_def by blast+
  show "fine_ok co cr tw env en s (tid', who', req', ph2)" by (rule ok)
  note is_tmp = names_drawn_tmp [OF names i]
  show "stays s s'" by (rule fine_step_stays [OF step ok(1) is_tmp])
  have target: "store_path (pj_path job)" if "phase_put ph = Some (job, st)" for job st
    by (rule fine_ok_store_path [OF ok(1) that])
  show "fs_files s' q = fs_files s q" if "phase_tmp ph2 = Some q" for q
  proof (rule ccontr)
    assume "fs_files s' q \<noteq> fs_files s q"
    from step ok(1) this show False
    proof (rule fine_step_frame)
      assume "phase_tmp ph = Some q"
      with names i j that \<open>j \<noteq> i\<close> show False unfolding names_drawn_def by blast
    next
      fix job st
      assume "phase_put ph = Some (job, st)" "q = pj_path job"
      with target names_drawn_tmp [OF names j that] show False by (auto simp: store_path_def)
    qed
  qed
  show "fs_files s' q = fs_files s q" if q: "key_path (st_traces (en_store en)) tid' ''json'' = Inr q" for q
  proof (rule ccontr)
    assume "fs_files s' q \<noteq> fs_files s q"
    from step ok(1) this show False
    proof (rule fine_step_frame)
      assume "phase_tmp ph = Some q"
      with is_tmp key_path_store [OF q] show False by (auto simp: store_path_def)
    next
      fix job st
      assume put: "phase_put ph = Some (job, st)" and path: "q = pj_path job"
      have "tid' \<noteq> tid" using ids i j \<open>j \<noteq> i\<close> unfolding ids_apart_def by fastforce
      with put path q show False
        by (elim fine_ok_path [OF ok(1)]) (auto simp: key_path_Inr)
    qed
  qed
qed

lemma move_names:
  assumes step: "fine_step co cr tw io env en tid who req (s, w, ph) = (s', w', ph')"
    and i: "ts i = Some (tid, who, req, ph)" and ok: "fine_ok co cr tw env en s (tid, who, req, ph)"
    and names: "names_drawn (io_pid io) s ts" and counter: "fs_counter s \<le> fs_counter s'"
  shows "names_drawn (io_pid io) s' (ts(i \<mapsto> (tid, who, req, ph')))"
proof -
  have old: "\<exists>d n. q = d @ [tmp_name (io_pid io) n] \<and> n < fs_counter s" "j = k"
    if "ts j = Some (a, b, c, p)" "phase_tmp p = Some q" "ts k = Some (a', b', c', p')" "phase_tmp p' = Some q"
    for j k a b c p a' b' c' p' q
    using names that unfolding names_drawn_def by blast+
  have new: "(\<exists>d n. q = d @ [tmp_name (io_pid io) n] \<and> n < fs_counter s') \<and>
      (\<forall>j a b c p. j \<noteq> i \<longrightarrow> ts j = Some (a, b, c, p) \<longrightarrow> phase_tmp p \<noteq> Some q)" if q: "phase_tmp ph' = Some q" for q
    using fine_step_tmp [OF step ok q]
  proof
    assume "phase_tmp ph = Some q \<and> fs_counter s' = fs_counter s"
    with old [OF i _ i] old(2) [OF i] show ?thesis by metis
  next
    assume drawn: "(\<exists>d. q = d @ [tmp_name (io_pid io) (fs_counter s)]) \<and> fs_counter s' = fs_counter s + 1"
    have "fs_counter s \<noteq> fs_counter s + 1" by simp
    with counter drawn have less: "fs_counter s < fs_counter s'" by (metis order_le_less)
    have "phase_tmp p \<noteq> Some q" if "ts j = Some (a, b, c, p)" for j a b c p
    proof
      assume "phase_tmp p = Some q"
      from old(1) [OF that this that this] drawn show False by (auto simp: tmp_name_inj)
    qed
    with drawn less show ?thesis by blast
  qed
  show ?thesis
    unfolding names_drawn_def
  proof (intro allI impI)
    fix j a b c p q
    assume j: "(ts(i \<mapsto> (tid, who, req, ph'))) j = Some (a, b, c, p)" and q: "phase_tmp p = Some q"
    show "(\<exists>d n. q = d @ [tmp_name (io_pid io) n] \<and> n < fs_counter s') \<and>
      (\<forall>k a' b' c' p'. (ts(i \<mapsto> (tid, who, req, ph'))) k = Some (a', b', c', p') \<longrightarrow> phase_tmp p' = Some q \<longrightarrow> j = k)"
    proof (cases "j = i")
      case True
      with j q new show ?thesis by auto
    next
      case False
      with j have j': "ts j = Some (a, b, c, p)" by simp
      from old(1) [OF j' q j' q] counter have "\<exists>d n. q = d @ [tmp_name (io_pid io) n] \<and> n < fs_counter s'"
        by (metis order_less_le_trans)
      moreover have "j = k" if "(ts(i \<mapsto> (tid, who, req, ph'))) k = Some (a', b', c', p')" "phase_tmp p' = Some q"
        for k a' b' c' p'
      proof (cases "k = i")
        case True
        with that have "phase_tmp ph' = Some q" by simp
        from new [OF this] False j' q show ?thesis by blast
      next
        case False
        with that have "ts k = Some (a', b', c', p')" by simp
        with that(2) old(2) [OF j' q] show ?thesis by blast
      qed
      ultimately show ?thesis by blast
    qed
  qed
qed

text \<open>What no step of a race undoes: files of the store stay, and a trace changes only through the task
  of its id.\<close>

definition task_ids :: "('t, 'p) fine_tasks \<Rightarrow> string set" where
  "task_ids ts = {tid. \<exists>i who req ph. ts i = Some (tid, who, req, ph)}"

lemma task_ids_update:
  assumes "\<And>a b c p. ts i = Some (a, b, c, p) \<Longrightarrow> a = tid"
  shows "insert tid (task_ids ts) \<subseteq> task_ids (ts(i \<mapsto> (tid, who, req, ph)))"
proof -
  have "a \<in> task_ids (ts(i \<mapsto> (tid, who, req, ph)))" if "ts j = Some (a, b, c, p)" for a b c p j
    using that assms unfolding task_ids_def
    by (cases "j = i") (rule CollectI, rule exI [of _ i], simp, rule CollectI, rule exI [of _ j], simp)
  moreover have "tid \<in> task_ids (ts(i \<mapsto> (tid, who, req, ph)))"
    unfolding task_ids_def by (rule CollectI, rule exI [of _ i]) simp
  moreover have "\<exists>j b c p. ts j = Some (a, b, c, p)" if "a \<in> task_ids ts" for a
    using that by (simp add: task_ids_def)
  ultimately show ?thesis by blast
qed

definition race_keeps :: "engine \<Rightarrow> fs \<Rightarrow> fs \<Rightarrow> ('t, 'p) fine_tasks \<Rightarrow> bool" where
  "race_keeps en s s' ts \<longleftrightarrow> stays s s' \<and>
     (\<forall>key q. key_path (st_traces (en_store en)) key ''json'' = Inr q \<longrightarrow> key \<notin> task_ids ts \<longrightarrow>
        fs_files s' q = fs_files s q)"

lemma race_keeps_trans:
  "race_keeps en s s1 ts \<Longrightarrow> race_keeps en s1 s' ts' \<Longrightarrow> task_ids ts \<subseteq> task_ids ts' \<Longrightarrow> race_keeps en s s' ts'"
  unfolding race_keeps_def by (auto intro: stays_trans dest: subsetD)

lemma move_keeps:
  assumes step: "fine_step co cr tw io env en tid who req (s, w, ph) = (s', w', ph')"
    and i: "ts i = Some (tid, who, req, ph)" and ok: "fine_ok co cr tw env en s (tid, who, req, ph)"
    and names: "names_drawn pid s ts"
  shows "race_keeps en s s' (ts(i \<mapsto> (tid, who, req, ph')))"
  unfolding race_keeps_def
proof (intro conjI allI impI)
  show "stays s s'" by (rule fine_step_stays [OF step ok names_drawn_tmp [OF names i]])
  fix key q
  assume q: "key_path (st_traces (en_store en)) key ''json'' = Inr q"
    and notin: "key \<notin> task_ids (ts(i \<mapsto> (tid, who, req, ph')))"
  have "tid \<in> task_ids (ts(i \<mapsto> (tid, who, req, ph')))"
    using task_ids_update [of ts i tid who req ph'] i by simp
  with notin have key: "key \<noteq> tid" by blast
  show "fs_files s' q = fs_files s q"
  proof (rule ccontr)
    assume "fs_files s' q \<noteq> fs_files s q"
    from step ok this show False
    proof (rule fine_step_frame)
      assume "phase_tmp ph = Some q"
      with names_drawn_tmp [OF names i] key_path_store [OF q] show False by (auto simp: store_path_def)
    next
      fix j st
      assume "phase_put ph = Some (j, st)" "q = pj_path j"
      with ok q key show False by (elim fine_ok_path [OF ok]) (auto simp: key_path_Inr)
    qed
  qed
qed

lemma racing_step_inv:
  assumes step: "racing_step co cr tw env tokens en pid (s, w, ts) (s', w', ts')"
    and inv: "racing_ok co cr tw env tokens en pid s ts"
    and calls: "\<forall>cfg p. records_calls co (core_execute co cfg p)"
  shows "racing_ok co cr tw env tokens en pid s' ts' \<and> race_keeps en s s' ts' \<and> task_ids ts \<subseteq> task_ids ts' \<and>
    (authorized_request env tokens en)\<^sup>*\<^sup>* w w'"
proof -
  have fine: "tasks_fine co cr tw env tokens en s ts" and ids: "ids_apart ts" and names: "names_drawn pid s ts"
    and sound: "programs_sound co cr (en_store en) s"
    using inv by (simp_all add: racing_ok_def)
  from step show ?thesis
  proof cases
    case (Arrive i who tid req)
    let ?x = "(tid, who, req, Between Arrived)"
    have "tasks_fine co cr tw env tokens en s (ts(i \<mapsto> ?x))"
      using fine Arrive(5,7) unfolding tasks_fine_def by (auto split: if_splits)
    moreover have "ids_apart (ts(i \<mapsto> ?x))"
      using ids unfolding ids_apart_def by (auto split: if_splits dest: Arrive(6))
    moreover have "names_drawn pid s (ts(i \<mapsto> ?x))"
      using names unfolding names_drawn_def by (auto simp: phase_tmp_def split: if_splits)
    moreover have "task_ids ts \<subseteq> task_ids (ts(i \<mapsto> ?x))" 
      using task_ids_update [of ts i tid who req "Between Arrived"] Arrive(4) by auto
    ultimately show ?thesis using Arrive sound by (simp add: racing_ok_def race_keeps_def stays_refl)
  next
    case (Move i tid who req ph io ph')
    note m = Move(4)
    have ok: "fine_ok co cr tw env en s (tid, who, req, ph)" and who: "who \<in> fst ` set tokens"
      using fine Move(2) unfolding tasks_fine_def by blast+
    note is_tmp = names_drawn_tmp [OF names Move(2)]
    have "tasks_fine co cr tw env tokens en s' ts'"
      unfolding tasks_fine_def
    proof (intro allI impI)
      fix j a b c p
      assume j: "ts' j = Some (a, b, c, p)"
      show "b \<in> fst ` set tokens \<and> fine_ok co cr tw env en s' (a, b, c, p)"
      proof (cases "j = i")
        case True
        with j Move(1) who fine_step_ok [OF m ok is_tmp calls] show ?thesis by simp
      next
        case False
        with j Move(1) have j: "ts j = Some (a, b, c, p)" by simp
        with fine move_others [OF m Move(2) j False fine ids names] show ?thesis unfolding tasks_fine_def by blast
      qed
    qed
    moreover have "ids_apart ts'"
      using ids Move(1,2) unfolding ids_apart_def by (auto split: if_splits)
    moreover have "names_drawn pid s' ts'"
      unfolding Move(1) Move(3) [symmetric]
      by (rule move_names [OF m Move(2) ok names [folded Move(3)] Move(5)])
    moreover have "task_ids ts \<subseteq> task_ids ts'"
      using task_ids_update [of ts i tid who req ph'] Move(1,2) by auto
    moreover have "permitted_request env (host_new who (en_downstreams en) (allowed_schemas en who) (en_policy en))
        \<le> authorized_request env tokens en"
      using who unfolding authorized_request_def by blast
    ultimately show ?thesis
      using fine_step_sound [OF m ok is_tmp sound] move_keeps [OF m Move(2) ok names] Move(1)
        rtranclp_mono fine_step_world [OF m ok] unfolding racing_ok_def by blast
  qed
qed

lemma racing_history:
  assumes "(racing_step co cr tw env tokens en pid)\<^sup>*\<^sup>* (s, w, ts) (s', w', ts')"
    and "racing_ok co cr tw env tokens en pid s ts"
    and "\<forall>cfg p. records_calls co (core_execute co cfg p)"
  shows "racing_ok co cr tw env tokens en pid s' ts' \<and> race_keeps en s s' ts' \<and> task_ids ts \<subseteq> task_ids ts' \<and>
    (authorized_request env tokens en)\<^sup>*\<^sup>* w w'"
  using assms
proof (induction "(s', w', ts')" arbitrary: s' w' ts')
  case base
  then show ?case by (simp add: race_keeps_def stays_refl)
next
  case (step b)
  obtain s1 w1 ts1 where b: "b = (s1, w1, ts1)" by (cases b)
  note IH = step.hyps(3) [OF b step.prems]
  from racing_step_inv [OF step.hyps(2) [unfolded b] _ step.prems(2)] IH
  show ?case by (blast intro: race_keeps_trans rtranclp_trans)
qed

lemma racing_ok_none:
  "programs_sound co cr (en_store en) s \<Longrightarrow> racing_ok co cr tw env tokens en pid s (\<lambda>_. None)"
  by (simp add: racing_ok_def tasks_fine_def ids_apart_def names_drawn_def)

section \<open>One task among the others\<close>

text \<open>How many temporary names a task may still draw.\<close>

fun stage_draws :: "put_stage \<Rightarrow> nat" where
  "stage_draws LookingUp = 1"
| "stage_draws Drawing = 1"
| "stage_draws _ = 0"

fun draws_left :: "('t, 'p) fine_phase \<Rightarrow> nat" where
  "draws_left (Between Arrived) = 3"
| "draws_left (StoringProgram program j st) = 2 + stage_draws st"
| "draws_left (Between (ProgramStored program)) = 2"
| "draws_left (StoringDescription program j st) = 1 + stage_draws st"
| "draws_left (Between (Running program h run tr)) = 1"
| "draws_left (Between (Ran program z)) = 1"
| "draws_left (StoringTrace z program j st) = stage_draws st"
| "draws_left (Between (Answered r)) = 0"

lemma put_step_draws:
  assumes "put_step io j (s, st) = (s', st')" "unat (fs_counter s) + stage_draws st < 2 ^ 64"
  shows "fs_counter s \<le> fs_counter s'" "unat (fs_counter s') + stage_draws st' \<le> unat (fs_counter s) + stage_draws st"
proof -
  have less: "stage_draws st' \<le> stage_draws st" "st = Drawing \<Longrightarrow> fs_counter s' = fs_counter s + 1 \<Longrightarrow> stage_draws st' = 0"
    using assms(1) look_up_cases [of io j s]
    by (cases st; auto simp: put_step_defs split: option.splits if_splits)+
  from put_step_counter [OF assms(1)]
  have "fs_counter s \<le> fs_counter s' \<and> unat (fs_counter s') + stage_draws st' \<le> unat (fs_counter s) + stage_draws st"
  proof
    assume "st = Drawing \<and> fs_counter s' = fs_counter s + 1"
    moreover from this have "unat (fs_counter s + 1) = unat (fs_counter s) + 1"
      using assms(2) by (simp add: unat_word_ariths)
    ultimately show ?thesis using less by (simp add: word_le_nat_alt)
  qed (use less in simp)
  then show "fs_counter s \<le> fs_counter s'" "unat (fs_counter s') + stage_draws st' \<le> unat (fs_counter s) + stage_draws st"
    by blast+
qed

lemma draws_after:
  "draws_left (Between (after_program program r)) \<le> 2"
  "draws_left (Between (after_description co en who program r)) \<le> 1"
  "draws_left (Between (after_trace sd tid z r)) \<le> 0"
  by (cases "(program, r)" rule: after_program.cases; simp)
    (auto simp: after_description_def after_trace_def split: sum.splits prod.splits option.splits)

lemma go_on_draws:
  assumes "go_on (put_step io j (s, st)) storing after = (s', ph')"
    and "unat (fs_counter s) + (k + stage_draws st) < 2 ^ 64"
    and "\<And>st. draws_left (storing st) = k + stage_draws st" "\<And>r. draws_left (Between (after r)) \<le> k"
  shows "fs_counter s \<le> fs_counter s' \<and> unat (fs_counter s') + draws_left ph' \<le> unat (fs_counter s) + (k + stage_draws st)"
  using assms(1)
proof (cases rule: go_on_cases)
  case (done_ r)
  from put_step_draws [OF done_(1)] assms(2) assms(4) [of r] done_(2) show ?thesis by simp
next
  case (more st')
  from put_step_draws [OF more(1)] assms(2) assms(3) [of st'] more(3) show ?thesis by simp
qed

lemma run_step_draws:
  "run_step co cr env en who program h run tr w = (w', ph) \<Longrightarrow> draws_left (Between ph) \<le> 1"
  by (cases run) (auto split: prod.splits sum.splits if_splits)

lemma fine_step_draws:
  assumes "fine_step co cr tw io env en tid who req (s, w, ph) = (s', w', ph')"
    and "unat (fs_counter s) + draws_left ph < 2 ^ 64"
  shows "fs_counter s \<le> fs_counter s' \<and> unat (fs_counter s') + draws_left ph' \<le> unat (fs_counter s) + draws_left ph"
proof (cases ph)
  case (Between x)
  show ?thesis
  proof (cases x)
    case (Running program h run tr)
    with Between assms(1) obtain y where "run_step co cr env en who program h run tr w = (w', y)" "s' = s" "ph' = Between y"
      by (auto split: prod.splits)
    with run_step_draws Between Running show ?thesis by auto
  qed (use assms(1) Between in \<open>auto simp: begin_put_def split: sum.splits lint_failure.splits\<close>)
next
  case (StoringProgram program j st)
  with assms(1) have "go_on (put_step io j (s, st)) (StoringProgram program j) (after_program program) = (s', ph')"
    by (auto split: prod.splits)
  from go_on_draws [OF this, of 2, OF _ _ draws_after(1)] assms(2) StoringProgram show ?thesis by simp
next
  case (StoringDescription program j st)
  with assms(1) have "go_on (put_step io j (s, st)) (StoringDescription program j) (after_description co en who program) = (s', ph')"
    by (auto split: prod.splits)
  from go_on_draws [OF this, of 1, OF _ _ draws_after(2)] assms(2) StoringDescription show ?thesis by simp
next
  case (StoringTrace z program j st)
  with assms(1) have "go_on (put_step io j (s, st)) (StoringTrace z program j) (after_trace (he_serde env) tid z) = (s', ph')"
    by (auto split: prod.splits)
  from go_on_draws [OF this, of 0, OF _ _ draws_after(3)] assms(2) StoringTrace show ?thesis by simp
qed

lemma fine_steps_race:
  assumes "(fine_step co cr tw io env en tid who req ^^ n) (s, w, ph) = (s', w', ph')"
    and "io_pid io = pid" "unat (fs_counter s) + draws_left ph < 2 ^ 64"
  shows "(racing_step co cr tw env tokens en pid)\<^sup>*\<^sup>*
     (s, w, ts(i \<mapsto> (tid, who, req, ph))) (s', w', ts(i \<mapsto> (tid, who, req, ph')))"
  using assms(1,3)
proof (induction n arbitrary: s w ph)
  case 0
  then show ?case by simp
next
  case (Suc n)
  obtain s1 w1 ph1 where one: "fine_step co cr tw io env en tid who req (s, w, ph) = (s1, w1, ph1)"
    by (metis prod.collapse)
  then have rest: "(fine_step co cr tw io env en tid who req ^^ n) (s1, w1, ph1) = (s', w', ph')"
    using Suc.prems(1) by (simp add: funpow_Suc_right del: funpow.simps)
  note draws = fine_step_draws [OF one Suc.prems(2)]
  have "racing_step co cr tw env tokens en pid
      (s, w, ts(i \<mapsto> (tid, who, req, ph))) (s1, w1, (ts(i \<mapsto> (tid, who, req, ph)))(i \<mapsto> (tid, who, req, ph1)))"
    by (rule racing_step.Move [OF _ assms(2) one]) (use draws in simp_all)
  then have "racing_step co cr tw env tokens en pid
      (s, w, ts(i \<mapsto> (tid, who, req, ph))) (s1, w1, ts(i \<mapsto> (tid, who, req, ph1)))" by simp
  moreover have "(racing_step co cr tw env tokens en pid)\<^sup>*\<^sup>*
      (s1, w1, ts(i \<mapsto> (tid, who, req, ph1))) (s', w', ts(i \<mapsto> (tid, who, req, ph')))"
    by (rule Suc.IH [OF rest]) (use draws Suc.prems(2) in simp)
  ultimately show ?case by (rule converse_rtranclp_into_rtranclp)
qed

end
