(* ===== verification/Trace_Shape.thy ===== *)
theory Trace_Shape
  imports Execute_Engine
begin

text \<open>
  The shape of the traces \<open>Engine::execute\<close> stores: what the comments on the fields in \<open>src/trace.rs\<close> say
  of them beyond their types, as a predicate on traces, and that every stored trace satisfies it.
\<close>

section \<open>Well-shaped traces\<close>

definition hex_text :: "nat \<Rightarrow> string \<Rightarrow> bool" where
  "hex_text n s \<longleftrightarrow> length s = 2 * n \<and> list_all is_lower_hex s"

text \<open>A call that was not sent has no provider.\<close>

fun logged_ok :: "call_decision \<times> provenance \<Rightarrow> bool" where
  "logged_ok (Allowed, p) \<longleftrightarrow> True"
| "logged_ok (RejectedBySchema r, p) \<longleftrightarrow> p = Unsigned"
| "logged_ok (DeniedByPolicy r, p) \<longleftrightarrow> p = Unsigned"

definition header_shape :: "trace_header \<Rightarrow> bool" where
  "header_shape h \<longleftrightarrow>
     hex_text 32 (program_hash h) \<and> hex_text 32 (gateway_policy_hash h) \<and> hex_text 32 (description_hash h) \<and>
     valid_key (trace_id h) \<and> vm_version h = VM_VERSION"

definition footer_shape :: "vm_settings \<Rightarrow> trace_footer \<Rightarrow> bool" where
  "footer_shape vm f \<longleftrightarrow>
     hex_text 64 (tf_signature f) \<and>
     (case tf_output f of
        None \<Rightarrow> (\<exists>kind message. tf_status f = RunError kind message)
      | Some json \<Rightarrow> tf_status f = RunOk \<and> utf8_valid json \<and> length json \<le> unat (max_output_bytes vm))"

definition trace_shape :: "trace \<Rightarrow> bool" where
  "trace_shape t \<longleftrightarrow>
     header_shape (tr_header t) \<and>
     list_all (\<lambda>e. logged_ok (te_decision e, te_provenance e)) (tr_entries t) \<and>
     footer_shape (th_vm_config (tr_header t)) (tr_footer t)"

section \<open>The log of a host\<close>

definition log_step :: "gateway_host \<times> 'w \<Rightarrow> gateway_host \<times> 'w \<Rightarrow> bool" where
  "log_step a b \<longleftrightarrow> (list_all logged_ok (gh_log (fst a)) \<longrightarrow> list_all logged_ok (gh_log (fst b)))"

lemma refusal_logged_ok: "stage_refusal name who st = Some (d, message) \<Longrightarrow> logged_ok (d, Unsigned)"
  by (cases st) auto

lemma host_call_logged_ok:
  assumes "host_call_tool co env (h, w) name args = ((h', w'), res)"
  shows "log_step (h, w) (h', w')"
proof (rule host_stage_cases [of name h co env args])
  fix d message
  assume "stage_refusal name (gh_principal h) (host_stage co env h name args) = Some (d, message)"
  then show ?thesis using assms by (auto simp: host_call_refused log_step_def dest: refusal_logged_ok)
next
  fix a
  assume "host_stage co env h name args = Dispatched a"
  then show ?thesis using assms
    by (cases res) (auto simp: host_call_dispatched log_step_def dest!: host_dispatch_Inl host_dispatch_Inr)
qed

interpretation logging_well: stepping_host "host_call_tool co env" host_take_attestation log_step
  for co :: "('t, 'z) lua_core_scheme" and env :: "'w host_env"
proof unfold_locales
  show "log_step h h'" if "host_call_tool co env h name args = (h', res)"
    for h h' :: "gateway_host \<times> 'w" and name args and res :: "string + 't"
    using that by (cases h; cases h') (auto dest: host_call_logged_ok)
  show "log_step h h'" if "host_take_attestation h = (h', att)" for h h' :: "gateway_host \<times> 'w" and att
    using that by (cases h) (auto simp: log_step_def host_take_attestation_def)
qed

lemma log_steps: "log_step\<^sup>*\<^sup>* a b \<Longrightarrow> log_step a b"
  by (induction rule: rtranclp_induct) (simp_all add: log_step_def)

section \<open>The trace of a run\<close>

lemma run_program_logged_ok:
  assumes "run_program co env en who allowed pl program w = (w', Inr (entries, out, status, gas, mem))"
  shows "list_all (\<lambda>e. logged_ok (te_decision e, te_provenance e)) entries"
proof -
  obtain h tr res where run: "run_vm (host_call_tool co env) host_take_attestation
      (core_execute co (vm_config_of (en_vm en)) program)
      (host_new who (en_downstreams en) allowed (en_policy en), w) [] = ((h, w'), tr, res, gas, mem)"
    and len: "length tr = length (gh_log h)" and entries: "entries = zip_entries tr (gh_log h)"
    using assms by (rule run_program_Inr)
  from log_steps [OF logging_well.run_steps [OF run]] have "list_all logged_ok (gh_log h)"
    by (simp add: log_step_def host_new_def)
  also have "gh_log h = map (\<lambda>e. (te_decision e, te_provenance e)) entries"
    unfolding entries by (rule zip_entries_parts(2) [OF len, symmetric])
  finally show ?thesis by (simp add: list_all_length)
qed

lemma run_program_footer:
  assumes "run_program co env en who allowed pl program w = (w', Inr (entries, out, status, gas, mem))"
  shows "case out of None \<Rightarrow> (\<exists>kind message. status = RunError kind message)
      | Some json \<Rightarrow> status = RunOk \<and> utf8_valid json \<and> length json \<le> unat (max_output_bytes (en_vm en))"
proof -
  obtain res where outcome: "run_outcome co (max_output_bytes (en_vm en)) pl res = Inr (out, status)"
    using assms by (rule run_program_Inr)
  show ?thesis
  proof (cases out)
    case None
    with outcome error_status_error [of co _ pl] show ?thesis
      by (auto simp: run_outcome_def split: sum.splits)
  next
    case (Some json)
    with run_outcome_Inr [OF outcome, of json] show ?thesis by auto
  qed
qed

lemma hex_text_encode: "crypto_laws cr \<Longrightarrow> length bs = n \<Longrightarrow> hex_text n (hex_encode cr bs)"
  by (auto simp: crypto_laws_def hex_text_def)

lemma trace_sign_hex: "crypto_laws cr \<Longrightarrow> hex_text 64 (tf_signature (tr_footer (trace_sign cr tw k t)))"
  by (auto simp: trace_sign_def Let_def intro!: hex_text_encode) (simp add: crypto_laws_def)

lemma execute_trace_shape:
  assumes "execute co cr tw io env en tid who req (s, w) = ((s', w'), Inr resp)" and "crypto_laws cr"
    and "\<forall>program. length (core_program_hash co program) = 32"
  shows "\<exists>t q. key_path (st_traces (en_store en)) tid ''json'' = Inr q \<and>
     fs_files s' q = Some (trace_text tw t) \<and> trace_shape t"
proof -
  let ?D = "build cr (allowed_schemas en who)"
  obtain program s2 z where
    run: "run_program co env en who (allowed_schemas en who) (word_of_nat (count_char NL (td_prelude ?D))) program w
       = (w', Inr z)" and
    fin: "finish cr tw (he_serde env) io en (make_header cr (he_serde env) en who req tid
            (hex_encode cr (core_program_hash co program)) (hex_encode cr (td_hash ?D))) s2 z = (s', Inr resp)"
    using assms(1) by (rule execute_Inr) blast
  obtain entries out status gas mem where z: "z = (entries, out, status, gas, mem)" by (cases z)
  let ?h = "make_header cr (he_serde env) en who req tid
      (hex_encode cr (core_program_hash co program)) (hex_encode cr (td_hash ?D))"
  let ?t = "make_trace cr tw en ?h z"
  have sha: "\<And>x. length (sha256 cr x) = 32" using assms(2) by (simp add: crypto_laws_def)
  from finish_Inr [OF fin] have "put_trace io tw (en_store en) s2 ?t = (s', Inr ())" by blast
  from put_trace_Inr [OF this] obtain q where
    q: "key_path (st_traces (en_store en)) tid ''json'' = Inr q" "fs_files s' q = Some (trace_text tw ?t)"
    by (auto simp: make_header_def)
  then have "valid_key tid" by (auto simp: key_path_def split: if_splits)
  then have "header_shape (tr_header ?t)"
    using assms(2,3) sha
    by (auto simp: header_shape_def make_header_def policy_hash_def build_def Let_def intro!: hex_text_encode)
  moreover have "hex_text 64 (tf_signature (tr_footer ?t))"
    by (simp add: z make_trace_def trace_sign_hex [OF assms(2)])
  then have "footer_shape (th_vm_config (tr_header ?t)) (tr_footer ?t)"
    using run_program_footer [OF run [unfolded z]] by (cases out) (simp_all add: footer_shape_def z make_header_def)
  moreover have "list_all (\<lambda>e. logged_ok (te_decision e, te_provenance e)) (tr_entries ?t)"
    using run_program_logged_ok [OF run [unfolded z]] by (simp add: z)
  ultimately show ?thesis using q by (intro exI [of _ ?t] exI [of _ q]) (simp add: trace_shape_def)
qed

end
