(* ===== verification/Store_Writers.thy ===== *)
theory Store_Writers
  imports Store_Steps
begin

text \<open>
  \<open>src/store.rs\<close> under concurrency: any number of \<open>put_trace\<close>, \<open>put_program\<close> and \<open>put_description\<close> calls in
  the threads of one process, one system call (\<open>put_step\<close>) at a time, in any order and with failures of
  their own, and each may be stopped for good at any point. That two calls never share a temporary file is
  a consequence of how \<open>tmp_name\<close> draws its names, proved here.
\<close>

section \<open>Calls at the same time\<close>

type_synonym puts = "nat \<rightharpoonup> put_job \<times> put_stage"

text \<open>A call begins, or one that has begun makes its next step. The counter of temporary names does not
  wrap around (that would take \<open>2 ^ 64\<close> writes).\<close>

inductive puts_step :: "trace_writer \<Rightarrow> trace_store \<Rightarrow> nat \<Rightarrow> fs \<times> puts \<Rightarrow> fs \<times> puts \<Rightarrow> bool"
  for w st pid where
  Begin: "ps i = None \<Longrightarrow> op_job w st op = Inr j \<Longrightarrow> puts_step w st pid (s, ps) (s, ps(i \<mapsto> (j, LookingUp)))"
| Move: "ps i = Some (j, sg) \<Longrightarrow> io_pid io = pid \<Longrightarrow> put_step io j (s, sg) = (s', sg') \<Longrightarrow>
     fs_counter s \<le> fs_counter s' \<Longrightarrow> puts_step w st pid (s, ps) (s', ps(i \<mapsto> (j, sg')))"

section \<open>The invariant\<close>

text \<open>A file that a call has written, as it wrote it.\<close>

definition written :: "fs \<Rightarrow> puts \<Rightarrow> path \<Rightarrow> bool" where
  "written s ps q \<longleftrightarrow>
     (\<exists>i j. ps i = Some (j, PutDone (Inr ())) \<and> pj_path j = q \<and> fs_files s q = Some (pj_bytes j))"

definition puts_sane :: "fs \<Rightarrow> puts \<Rightarrow> bool" where
  "puts_sane s ps \<longleftrightarrow> (\<forall>i j sg. ps i = Some (j, sg) \<longrightarrow> store_path (pj_path j) \<and> stage_ok s j sg)"

definition tmps_drawn :: "nat \<Rightarrow> fs \<Rightarrow> puts \<Rightarrow> bool" where
  "tmps_drawn pid s ps \<longleftrightarrow>
     (\<forall>i j sg q. ps i = Some (j, sg) \<longrightarrow> stage_tmp sg = Some q \<longrightarrow>
        (\<exists>d n. q = d @ [tmp_name pid n] \<and> n < fs_counter s) \<and>
        (\<forall>i' j' sg'. ps i' = Some (j', sg') \<longrightarrow> stage_tmp sg' = Some q \<longrightarrow> i' = i))"

definition puts_inv :: "nat \<Rightarrow> fs \<Rightarrow> fs \<times> puts \<Rightarrow> bool" where
  "puts_inv pid s0 x \<longleftrightarrow>
     (case x of (s, ps) \<Rightarrow>
        puts_sane s ps \<and> tmps_drawn pid s ps \<and>
        (\<forall>q. \<not> is_tmp q \<longrightarrow> fs_files s q = fs_files s0 q \<or> written s ps q) \<and>
        (\<forall>i j. ps i = Some (j, PutDone (Inr ())) \<longrightarrow> written s ps (pj_path j)))"

lemma puts_inv_init: "puts_inv pid s (s, \<lambda>_. None)"
  by (simp add: puts_inv_def puts_sane_def tmps_drawn_def)

lemma tmps_drawn_tmp: "tmps_drawn pid s ps \<Longrightarrow> ps i = Some (j, sg) \<Longrightarrow> stage_tmp sg = Some q \<Longrightarrow> is_tmp q"
  unfolding tmps_drawn_def using is_tmp_tmp_name by blast

lemma begin_inv:
  assumes "puts_inv pid s0 (s, ps)" "ps i = None" "store_path (pj_path j)"
  shows "puts_inv pid s0 (s, ps(i \<mapsto> (j, LookingUp)))"
proof -
  have mono: "written s (ps(i \<mapsto> (j, LookingUp))) q" if "written s ps q" for q
    using that assms(2) unfolding written_def by (metis fun_upd_apply option.distinct(1))
  have "tmps_drawn pid s (ps(i \<mapsto> (j, LookingUp)))"
    using assms(1) unfolding puts_inv_def tmps_drawn_def by (auto split: if_splits)
  moreover have "puts_sane s (ps(i \<mapsto> (j, LookingUp)))"
    using assms(1,3) unfolding puts_inv_def puts_sane_def by (auto split: if_splits)
  ultimately show ?thesis
    using assms(1) mono unfolding puts_inv_def by (auto split: if_splits)
qed

lemma move_tmps:
  assumes step: "put_step io j (s, sg) = (s', sg')" and i: "ps i = Some (j, sg)" and "store_path (pj_path j)"
    and drawn: "tmps_drawn (io_pid io) s ps" and counter: "fs_counter s \<le> fs_counter s'"
  shows "tmps_drawn (io_pid io) s' (ps(i \<mapsto> (j, sg')))"
proof -
  have old: "(\<exists>d n. q = d @ [tmp_name (io_pid io) n] \<and> n < fs_counter s)"
    and alone: "\<And>l' k' p'. ps l' = Some (k', p') \<Longrightarrow> stage_tmp p' = Some q \<Longrightarrow> l' = l"
    if "ps l = Some (k, p)" "stage_tmp p = Some q" for l k p q
    using drawn that unfolding tmps_drawn_def by blast+
  have new: "(\<exists>d n. q = d @ [tmp_name (io_pid io) n] \<and> n < fs_counter s') \<and>
      (\<forall>l k p. l \<noteq> i \<longrightarrow> ps l = Some (k, p) \<longrightarrow> stage_tmp p \<noteq> Some q)" if q: "stage_tmp sg' = Some q" for q
    using put_step_tmp [OF step q assms(3)]
  proof
    assume "stage_tmp sg = Some q \<and> fs_counter s' = fs_counter s"
    with old [OF i] alone [OF i] show ?thesis by metis
  next
    assume d: "q = butlast (pj_path j) @ [tmp_name (io_pid io) (fs_counter s)] \<and> fs_counter s' = fs_counter s + 1"
    have "fs_counter s \<noteq> fs_counter s + 1" by simp
    with counter d have less: "fs_counter s < fs_counter s'" by (metis order_le_less)
    have "stage_tmp p \<noteq> Some q" if "ps l = Some (k, p)" for l k p
    proof
      assume "stage_tmp p = Some q"
      from old [OF that this] d show False by (auto simp: tmp_name_inj)
    qed
    with d less show ?thesis by blast
  qed
  have kept: "\<exists>d n. q = d @ [tmp_name (io_pid io) n] \<and> n < fs_counter s'" if "ps l = Some (k, p)" "stage_tmp p = Some q" for l k p q
    using old [OF that] counter by (metis order_less_le_trans)
  show ?thesis
    unfolding tmps_drawn_def
    using new kept alone by (auto split: if_splits)
qed

lemma move_inv:
  assumes step: "put_step io j (s, sg) = (s', sg')" and i: "ps i = Some (j, sg)"
    and inv: "puts_inv (io_pid io) s0 (s, ps)" and counter: "fs_counter s \<le> fs_counter s'"
  shows "puts_inv (io_pid io) s0 (s', ps(i \<mapsto> (j, sg')))"
proof -
  let ?ps = "ps(i \<mapsto> (j, sg'))"
  have sane: "puts_sane s ps" and drawn: "tmps_drawn (io_pid io) s ps"
    and files: "\<And>q. \<not> is_tmp q \<Longrightarrow> fs_files s q = fs_files s0 q \<or> written s ps q"
    and finished: "\<And>i j. ps i = Some (j, PutDone (Inr ())) \<Longrightarrow> written s ps (pj_path j)"
    using inv by (auto simp: puts_inv_def)
  have path: "store_path (pj_path j)" and stage: "stage_ok s j sg"
    using sane i unfolding puts_sane_def by blast+
  have changed: "stage_tmp sg = Some q \<or> q = pj_path j \<and> fs_files s' q = Some (pj_bytes j) \<and> sg' = PutDone (Inr ())"
    if "fs_files s' q \<noteq> fs_files s q" for q
    using put_step_target [OF step stage _ that] by blast
  have kept: "written s' ?ps q" if w: "written s ps q" and "\<not> is_tmp q" for q
  proof (cases "fs_files s' q = fs_files s q")
    case True
    from w obtain l k where l: "ps l = Some (k, PutDone (Inr ()))" "pj_path k = q" "fs_files s q = Some (pj_bytes k)"
      unfolding written_def by blast
    have "?ps l = Some (k, PutDone (Inr ()))"
    proof (cases "l = i")
      case True
      with l(1) i have "sg = PutDone (Inr ())" "k = j" by simp_all
      with step True show ?thesis by simp
    qed (use l(1) in simp)
    with l True show ?thesis unfolding written_def by metis
  next
    case False
    with changed tmps_drawn_tmp [OF drawn i] \<open>\<not> is_tmp q\<close>
    have "q = pj_path j" "fs_files s' q = Some (pj_bytes j)" "sg' = PutDone (Inr ())" by blast+
    then show ?thesis unfolding written_def by (metis fun_upd_same)
  qed
  have "stage_ok s' k p" if l: "ps l = Some (k, p)" "l \<noteq> i" for l k p
  proof (rule stage_ok_other)
    show "stage_ok s k p" using sane l(1) unfolding puts_sane_def by blast
    show "fs_files s' q = fs_files s q" if q: "stage_tmp p = Some q" for q
    proof (rule ccontr)
      assume "fs_files s' q \<noteq> fs_files s q"
      from changed [OF this] show False
      proof
        assume "stage_tmp sg = Some q"
        with drawn i l q show False unfolding tmps_drawn_def by blast
      next
        assume "q = pj_path j \<and> fs_files s' q = Some (pj_bytes j) \<and> sg' = PutDone (Inr ())"
        with path tmps_drawn_tmp [OF drawn l(1) q] show False by (simp add: store_path_def)
      qed
    qed
  qed
  then have "puts_sane s' ?ps"
    using sane path put_step_ok [OF step stage] unfolding puts_sane_def by auto
  moreover have "tmps_drawn (io_pid io) s' ?ps" by (rule move_tmps [OF step i path drawn counter])
  moreover have "fs_files s' q = fs_files s0 q \<or> written s' ?ps q" if q: "\<not> is_tmp q" for q
  proof (cases "fs_files s' q = fs_files s q")
    case True
    with files [OF q] kept q show ?thesis by auto
  next
    case False
    with changed tmps_drawn_tmp [OF drawn i] q
    have "q = pj_path j" "fs_files s' q = Some (pj_bytes j)" "sg' = PutDone (Inr ())" by blast+
    then show ?thesis unfolding written_def by (metis fun_upd_same)
  qed
  moreover have "written s' ?ps (pj_path k)" if l: "?ps l = Some (k, PutDone (Inr ()))" for l k
  proof (cases "l = i \<and> (\<forall>r. sg \<noteq> PutDone r)")
    case True
    with l have "k = j" "sg' = PutDone (Inr ())" by simp_all
    with put_step_done [OF step [unfolded this(2)] stage] True
    have "fs_files s' (pj_path j) = Some (pj_bytes j)" by blast
    with \<open>k = j\<close> l show ?thesis unfolding written_def by blast
  next
    case False
    have "ps l = Some (k, PutDone (Inr ()))"
    proof (cases "l = i")
      case True
      with False obtain r where "sg = PutDone r" by blast
      with True step l i show ?thesis by auto
    qed (use l in simp)
    moreover from this have "\<not> is_tmp (pj_path k)"
      using sane unfolding puts_sane_def by (auto simp: store_path_def)
    ultimately show ?thesis using finished kept by blast
  qed
  ultimately show ?thesis by (simp add: puts_inv_def)
qed

lemma puts_step_inv: "puts_step w st pid x y \<Longrightarrow> puts_inv pid s0 x \<Longrightarrow> puts_inv pid s0 y"
proof (induction rule: puts_step.induct)
  case (Begin ps i op j s)
  then show ?case by (blast intro: begin_inv op_job_path)
next
  case (Move ps i j sg io s s' sg')
  then show ?case using move_inv [of io j s sg s' sg' ps i s0] by simp
qed

lemma puts_history: "(puts_step w st pid)\<^sup>*\<^sup>* (s0, \<lambda>_. None) x \<Longrightarrow> puts_inv pid s0 x"
  by (induction rule: rtranclp_induct) (auto intro: puts_inv_init puts_step_inv)

section \<open>The race of two traces with one id\<close>

lemma put_step_no_draw:
  "put_step io j (s, sg) = (s', sg') \<Longrightarrow> sg \<notin> {LookingUp, Drawing} \<Longrightarrow>
     sg' \<notin> {LookingUp, Drawing} \<and> fs_counter s' = fs_counter s"
  by (cases sg) (auto simp: put_step_defs split: option.splits if_splits)

lemma puts_run:
  assumes "(put_step io j ^^ n) (s, sg) = (s', sg')" "sg \<notin> {LookingUp, Drawing}"
  shows "(puts_step w st (io_pid io))\<^sup>*\<^sup>* (s, ps(i \<mapsto> (j, sg))) (s', ps(i \<mapsto> (j, sg')))"
  using assms
proof (induction n arbitrary: s sg)
  case 0
  then show ?case by simp
next
  case (Suc n)
  obtain s1 g where one: "put_step io j (s, sg) = (s1, g)" by fastforce
  from put_step_no_draw [OF one Suc.prems(2)] have g: "g \<notin> {LookingUp, Drawing}" "fs_counter s1 = fs_counter s" by auto
  have "(put_step io j ^^ n) (s1, g) = (s', sg')" using Suc.prems(1) one by (simp add: funpow_swap1)
  from Suc.IH [OF this g(1)]
  have "(puts_step w st (io_pid io))\<^sup>*\<^sup>* (s1, ps(i \<mapsto> (j, g))) (s', ps(i \<mapsto> (j, sg')))" .
  moreover have "puts_step w st (io_pid io) (s, ps(i \<mapsto> (j, sg))) (s1, (ps(i \<mapsto> (j, sg)))(i \<mapsto> (j, g)))"
    by (rule puts_step.Move [OF _ refl one]) (simp_all add: g(2))
  ultimately show ?case unfolding fun_upd_upd by (rule converse_rtranclp_into_rtranclp [rotated])
qed

lemma puts_write:
  assumes "write_atomic io s (pj_path j) (pj_bytes j) = (s', r)" "unat (fs_counter s) + 1 < 2 ^ 64"
  shows "(puts_step w st (io_pid io))\<^sup>*\<^sup>* (s, ps(i \<mapsto> (j, Drawing))) (s', ps(i \<mapsto> (j, PutDone r)))"
proof -
  obtain s1 g where one: "put_step io j (s, Drawing) = (s1, g)" by fastforce
  have "(put_step io j ^^ 6) (s, Drawing) = (s', PutDone r)" by (simp add: write_atomic_by_steps assms(1))
  then have "(put_step io j ^^ 5) (s1, g) = (s', PutDone r)"
    using funpow_Suc_right [of 5 "put_step io j"] one by simp
  moreover have "g \<notin> {LookingUp, Drawing}" using one by (auto split: option.splits)
  ultimately have "(puts_step w st (io_pid io))\<^sup>*\<^sup>* (s1, ps(i \<mapsto> (j, g))) (s', ps(i \<mapsto> (j, PutDone r)))"
    by (rule puts_run)
  moreover have "fs_counter s \<le> fs_counter s + 1"
    using assms(2) by (simp add: word_le_nat_alt unat_word_ariths)
  then have "fs_counter s \<le> fs_counter s1" using one by (auto split: option.splits)
  then have "puts_step w st (io_pid io) (s, ps(i \<mapsto> (j, Drawing))) (s1, (ps(i \<mapsto> (j, Drawing)))(i \<mapsto> (j, g)))"
    by (intro puts_step.Move [OF _ refl one]) simp_all
  ultimately show ?thesis unfolding fun_upd_upd by (rule converse_rtranclp_into_rtranclp [rotated])
qed

lemma two_puts: "[1 \<mapsto> y](0 \<mapsto> x) = [0 \<mapsto> x, 1 :: nat \<mapsto> y]"
  by (simp add: fun_upd_twist)

lemma both_looked_up:
  assumes "op_job w st a = Inr j" "op_job w st b = Inr k" "look_up io j s = Drawing" "look_up io k s = Drawing"
  shows "(puts_step w st (io_pid io))\<^sup>*\<^sup>* (s, \<lambda>_. None) (s, [0 \<mapsto> (j, Drawing), 1 \<mapsto> (k, Drawing)])"
proof -
  let ?R = "puts_step w st (io_pid io)"
  have "?R (s, \<lambda>_. None) (s, [0 \<mapsto> (j, LookingUp)])" by (rule puts_step.Begin [OF _ assms(1)]) simp
  moreover have "?R (s, [0 \<mapsto> (j, LookingUp)]) (s, [0 \<mapsto> (j, LookingUp), 1 \<mapsto> (k, LookingUp)])"
    by (rule puts_step.Begin [OF _ assms(2)]) simp
  moreover have "?R (s, [0 \<mapsto> (j, LookingUp), 1 \<mapsto> (k, LookingUp)]) (s, [0 \<mapsto> (j, LookingUp), 1 \<mapsto> (k, Drawing)])"
    using puts_step.Move [of "[0 \<mapsto> (j, LookingUp), 1 \<mapsto> (k, LookingUp)]" 1 k LookingUp io _ s s Drawing w st] assms(4)
    by (simp add: fun_upd_upd)
  moreover have "?R (s, [1 \<mapsto> (k, Drawing)](0 \<mapsto> (j, LookingUp))) (s, [1 \<mapsto> (k, Drawing)](0 \<mapsto> (j, LookingUp), 0 \<mapsto> (j, Drawing)))"
    by (rule puts_step.Move [where sg = LookingUp and io = io]) (simp_all add: assms(3))
  note this [unfolded fun_upd_upd, unfolded two_puts]
  ultimately show ?thesis by (meson converse_rtranclp_into_rtranclp r_into_rtranclp)
qed

lemma both_puts_succeed:
  assumes quiet: "io_quiet io" and ready: "store_ready st s" and key: "valid_key tid"
    and ids: "trace_id (tr_header t1) = tid" "trace_id (tr_header t2) = tid"
    and free: "fs_files s (st_traces st @ [tid @ ''.json'']) = None" "st_traces st @ [tid @ ''.json''] \<notin> set (fs_dirs s)"
    and room: "unat (fs_counter s) + 2 < 2 ^ 64"
  shows "\<exists>s1 s' j k. op_job w st (PutTrace t1) = Inr j \<and> op_job w st (PutTrace t2) = Inr k \<and>
     (puts_step w st (io_pid io))\<^sup>*\<^sup>* (s, \<lambda>_. None) (s', [0 \<mapsto> (j, PutDone (Inr ())), 1 \<mapsto> (k, PutDone (Inr ()))]) \<and>
     fs_files s' (st_traces st @ [tid @ ''.json'']) = Some (trace_text w t2) \<and>
     put_trace io w st s t1 = (s1, Inr ()) \<and> put_trace io w st s1 t2 = (s1, Inl (TraceExists tid))"
proof -
  let ?p = "st_traces st @ [tid @ ''.'' @ ''json'']"
  let ?job = "\<lambda>t. \<lparr>pj_path = ?p, pj_kind = AppendOnly tid, pj_bytes = trace_text w t\<rparr>"
  have kp: "key_path (st_traces st) tid ''json'' = Inr ?p" using key by (simp add: key_path_Inr)
  then have jobs: "op_job w st (PutTrace t1) = Inr (?job t1)" "op_job w st (PutTrace t2) = Inr (?job t2)"
    by (simp_all add: op_job_def trace_job_def ids)
  have "\<not> fs_exists io s ?p" using free by (simp add: fs_exists_def)
  then have "look_up io (?job t) s = Drawing" for t by (simp add: look_up_def)
  with jobs have looked: "(puts_step w st (io_pid io))\<^sup>*\<^sup>* (s, \<lambda>_. None) (s, [0 \<mapsto> (?job t1, Drawing), 1 \<mapsto> (?job t2, Drawing)])"
    by (intro both_looked_up)
  obtain s1 where w1: "write_atomic io s ?p (trace_text w t1) = (s1, Inr ())" "fs_files s1 = (fs_files s)(?p \<mapsto> trace_text w t1)"
    "store_ready st s1"
    by (rule write_atomic_ready [OF quiet ready key refl, of "st_traces st" "''json''"]) auto
  obtain s2 where w2: "write_atomic io s1 ?p (trace_text w t2) = (s2, Inr ())" "fs_files s2 = (fs_files s1)(?p \<mapsto> trace_text w t2)"
    by (rule write_atomic_ready [OF quiet w1(3) key refl, of "st_traces st" "''json''"]) auto
  have "fs_counter s1 = fs_counter s + 1"
    using write_atomic_outcome(2) [OF w1(1) key_path_store [OF kp]] by simp
  then have room1: "unat (fs_counter s1) + 1 < 2 ^ 64" using room by (simp add: unat_word_ariths)
  have "(puts_step w st (io_pid io))\<^sup>*\<^sup>* (s, [1 \<mapsto> (?job t2, Drawing)](0 \<mapsto> (?job t1, Drawing)))
      (s1, [1 \<mapsto> (?job t2, Drawing)](0 \<mapsto> (?job t1, PutDone (Inr ()))))"
    by (rule puts_write) (use w1(1) room in simp_all)
  moreover have "(puts_step w st (io_pid io))\<^sup>*\<^sup>* (s1, [0 \<mapsto> (?job t1, PutDone (Inr ()))](1 \<mapsto> (?job t2, Drawing)))
      (s2, [0 \<mapsto> (?job t1, PutDone (Inr ()))](1 \<mapsto> (?job t2, PutDone (Inr ()))))"
    by (rule puts_write) (use w2(1) room1 in simp_all)
  ultimately have "(puts_step w st (io_pid io))\<^sup>*\<^sup>* (s, \<lambda>_. None)
      (s2, [0 \<mapsto> (?job t1, PutDone (Inr ())), 1 \<mapsto> (?job t2, PutDone (Inr ()))])"
    using looked unfolding two_puts by (meson rtranclp_trans)
  moreover have "put_trace io w st s t1 = (s1, Inr ())"
    using \<open>\<not> fs_exists io s ?p\<close> kp w1(1) by (simp add: put_trace_def ids)
  moreover have "put_trace io w st s1 t2 = (s1, Inl (TraceExists tid))"
    using kp w1(2) quiet by (simp add: put_trace_def ids fs_exists_def io_quiet_def)
  ultimately show ?thesis using jobs w2(2) by (intro exI conjI) (assumption | simp)+
qed

end
