(* ===== verification/Demo_Servers.thy ===== *)
theory Demo_Servers
  imports Mcp_Server
begin

text \<open>
  \<open>demo/market/src/main.rs\<close> and \<open>examples/stdio_env_server.rs\<close>: the price server and the server that lists
  its environment. A request is what the handlers read of it; the constructors of rmcp's
  \<open>CallToolResult\<close> are the record \<open>result_ctors\<close>.
\<close>

section \<open>What the servers share\<close>

record result_ctors =
  rc_structured :: "json \<Rightarrow> call_tool_result"
  rc_error :: "string list \<Rightarrow> call_tool_result"

text \<open>Documented behaviour of the constructors, as far as the gateway reads a result.\<close>

definition result_laws :: "result_ctors \<Rightarrow> bool" where
  "result_laws rc \<longleftrightarrow>
     (\<forall>v. cr_structured (rc_structured rc v) = Some v \<and> cr_is_error (rc_structured rc v) \<noteq> Some True \<and>
          cr_meta (rc_structured rc v) = None) \<and>
     (\<forall>ts. cr_content (rc_error rc ts) = map TextBlock ts \<and> cr_is_error (rc_error rc ts) = Some True \<and>
          cr_structured (rc_error rc ts) = None \<and> cr_meta (rc_error rc ts) = None)"

text \<open>A handler's outcome: an error of the protocol, a result, or a panic.\<close>

datatype server_answer = ProtocolError rpc_error | Result call_tool_result | ServerPanic string

definition call_arg :: "tool_request \<Rightarrow> string \<Rightarrow> json option" where
  "call_arg req name = Option.bind (tq_arguments req) (\<lambda>m. map_of m name)"

definition market_object_schema :: "(string \<times> json) list \<Rightarrow> string list \<Rightarrow> (string \<times> json) list" where
  "market_object_schema properties required =
     bt_of_list
       [(''type'', JString ''object''), (''properties'', JObject (bt_of_list properties)),
        (''required'', JArray (map JString required))]"

definition typed_prop :: "string \<Rightarrow> json" where
  "typed_prop ty = JObject [(''type'', JString ty)]"

section \<open>The market\<close>

definition market_tools :: "mcp_tool list" where
  "market_tools =
     [\<lparr>mt_name = ''get_price'',
       mt_description = Some ''Current and 24h-ago price for a trading pair.'',
       mt_input_schema = market_object_schema [(''pair'', string_prop ''Such as ETH/USD.'')] [''pair''],
       mt_output_schema = Some (market_object_schema
         [(''pair'', typed_prop ''string''), (''price'', typed_prop ''number''),
          (''price_24h_ago'', typed_prop ''number'')]
         [''pair'', ''price'', ''price_24h_ago''])\<rparr>]"

text \<open>\<open>response[key] = v\<close> on a \<open>serde_json::Value\<close>: null becomes an object, an object gets the entry, and
  anything else panics.\<close>

fun json_kind :: "json \<Rightarrow> string" where
  "json_kind JNull = ''null''"
| "json_kind (JBool b) = ''boolean''"
| "json_kind (JNumber n) = ''number''"
| "json_kind (JString s) = ''string''"
| "json_kind (JArray xs) = ''array''"
| "json_kind (JObject m) = ''object''"

definition index_assign :: "json \<Rightarrow> string \<Rightarrow> json \<Rightarrow> string + json" where
  "index_assign target key v =
     (case target of
        JNull \<Rightarrow> Inr (JObject (bt_insert key v []))
      | JObject m \<Rightarrow> Inr (JObject (bt_insert key v m))
      | other \<Rightarrow> Inl (''cannot access key '' @ [DQ] @ key @ [DQ] @ '' in JSON '' @ json_kind other))"

definition market_call_tool ::
  "result_ctors \<Rightarrow> (string, json) btree_map \<Rightarrow> tool_request \<Rightarrow> server_answer" where
  "market_call_tool rc prices req =
     (if tq_name req \<noteq> ''get_price'' then
        ProtocolError (InvalidParams (''unknown tool `'' @ tq_name req @ ''`''))
      else
        (let pair = (case Option.bind (call_arg req ''pair'') as_str of Some p \<Rightarrow> p | None \<Rightarrow> [])
         in case map_of prices pair of
              Some quote \<Rightarrow>
                (case index_assign quote ''pair'' (JString pair) of
                   Inr response \<Rightarrow> Result (rc_structured rc response)
                 | Inl p \<Rightarrow> ServerPanic p)
            | None \<Rightarrow> Result (rc_error rc [''unknown pair `'' @ pair @ ''`''])))"

text \<open>Its own bearer check, for the one expected token, and the router: with no \<open>MARKET_TOKEN\<close> in the
  environment the check is left out.\<close>

definition market_require_bearer :: "string \<Rightarrow> string option \<Rightarrow> 'r \<Rightarrow> 'r http_response" where
  "market_require_bearer expected authorization run =
     (if Option.bind authorization (\<lambda>v. strip_prefix v ''Bearer '') = Some expected then Served run else Unauthorized)"

definition market_serve :: "(string \<Rightarrow> string option) \<Rightarrow> string option \<Rightarrow> 'r \<Rightarrow> 'r http_response" where
  "market_serve env authorization run =
     (case env ''MARKET_TOKEN'' of
        Some token \<Rightarrow> market_require_bearer token authorization run
      | None \<Rightarrow> Served run)"

section \<open>The environment server\<close>

definition env_server_tools :: "mcp_tool list" where
  "env_server_tools =
     [\<lparr>mt_name = ''env_keys'', mt_description = Some ''Sorted names of this process's environment variables.'',
       mt_input_schema = [(''type'', JString ''object'')], mt_output_schema = None\<rparr>]"

definition env_server_call ::
  "result_ctors \<Rightarrow> (string \<times> string) list \<Rightarrow> tool_request \<Rightarrow> server_answer" where
  "env_server_call rc vars req =
     (if tq_name req \<noteq> ''env_keys'' then ProtocolError (InvalidParams ''unknown tool'')
      else Result (rc_structured rc (JObject [(''keys'', JArray (map JString (sort (map (from_utf8_lossy \<circ> fst) vars))))])))"

section \<open>Facts\<close>

lemma index_assign_Inr:
  "index_assign q k v = Inr r \<Longrightarrow>
     \<exists>m. r = JObject m \<and> map_of m k = Some v \<and> (\<forall>k'. k' \<noteq> k \<longrightarrow> map_of m k' = json_get q k')"
  by (cases q) (auto simp: index_assign_def map_of_bt_insert)

lemma index_assign_ok: "is_ok (index_assign q k v) \<longleftrightarrow> is_null q \<or> is_object q"
  by (cases q) (auto simp: index_assign_def)

text \<open>A result as the gateway sees it.\<close>

lemma map_result_structured:
  "result_laws rc \<Longrightarrow> map_result sd (rc_structured rc (JObject m)) = Inr (JObject m)"
  by (simp add: map_result_def result_value_def result_laws_def)

lemma map_result_failed: "result_laws rc \<Longrightarrow> map_result sd (rc_error rc [t]) = Inl t"
  by (simp add: map_result_def texts_of_def result_laws_def List.map_filter_def)

lemma market_require_bearer_Served:
  "market_require_bearer expected authorization run = Served x \<longleftrightarrow>
     authorization = Some (''Bearer '' @ expected) \<and> x = run"
  by (auto simp: market_require_bearer_def strip_prefix_Some bind_eq_Some_conv)

lemma market_serve_Served:
  "market_serve env authorization run = Served x \<longleftrightarrow>
     x = run \<and> (\<forall>token. env ''MARKET_TOKEN'' = Some token \<longrightarrow> authorization = Some (''Bearer '' @ token))"
  by (auto simp: market_serve_def market_require_bearer_Served split: option.splits)

section \<open>Properties\<close>

definition sample_ctors :: result_ctors where
  "sample_ctors =
     \<lparr>rc_structured = (\<lambda>v. \<lparr>cr_content = [], cr_is_error = Some False, cr_structured = Some v, cr_meta = None\<rparr>),
      rc_error = (\<lambda>ts. \<lparr>cr_content = map TextBlock ts, cr_is_error = Some True, cr_structured = None, cr_meta = None\<rparr>)\<rparr>"

lemma result_laws_sample: "result_laws sample_ctors"
  by (simp add: result_laws_def sample_ctors_def)

text \<open>C38: for a listed pair whose quote is an object, the gateway receives that quote with the pair's own
  name under \<open>pair\<close> and every other field unchanged; for an unlisted pair it receives the error naming
  the pair. A quote that is neither an object nor null makes the handler panic, and nothing else does.\<close>

theorem market_answers:
  assumes "result_laws rc" and "tq_name req = ''get_price''" and "call_arg req ''pair'' = Some (JString pair)"
  shows "case map_of prices pair of
       None \<Rightarrow> \<exists>r. market_call_tool rc prices req = Result r \<and> map_result sd r = Inl (''unknown pair `'' @ pair @ ''`'')
     | Some quote \<Rightarrow>
         (if is_object quote \<or> is_null quote
          then \<exists>r m. market_call_tool rc prices req = Result r \<and> map_result sd r = Inr (JObject m) \<and>
                 map_of m ''pair'' = Some (JString pair) \<and>
                 (\<forall>k. k \<noteq> ''pair'' \<longrightarrow> map_of m k = json_get quote k)
          else \<exists>p. market_call_tool rc prices req = ServerPanic p)"
proof (cases "map_of prices pair")
  case None
  with assms show ?thesis by (simp add: market_call_tool_def map_result_failed)
next
  case (Some quote)
  show ?thesis
  proof (cases "index_assign quote ''pair'' (JString pair)")
    case (Inl p)
    then have "\<not> is_object quote" "\<not> is_null quote" using index_assign_ok [of quote "''pair''" "JString pair"] by auto
    with Some Inl assms show ?thesis by (simp add: market_call_tool_def)
  next
    case (Inr v)
    then have "is_object quote \<or> is_null quote" using index_assign_ok [of quote "''pair''" "JString pair"] by auto
    moreover from index_assign_Inr [OF Inr] obtain m where "v = JObject m" "map_of m ''pair'' = Some (JString pair)"
      "\<forall>k. k \<noteq> ''pair'' \<longrightarrow> map_of m k = json_get quote k" by blast
    ultimately show ?thesis
      using Some Inr assms by (simp add: market_call_tool_def map_result_structured)
  qed
qed

theorem market_answers_witness:
  "let prices = [(''ETH/USD'', JObject [(''price'', JNumber (Float ''2500.5''))])];
       req = \<lparr>tq_name = ''get_price'', tq_arguments = Some [(''pair'', JString ''ETH/USD'')]\<rparr>
   in \<forall>sd. \<exists>r m. market_call_tool sample_ctors prices req = Result r \<and> map_result sd r = Inr (JObject m) \<and>
        map_of m ''price'' = Some (JNumber (Float ''2500.5''))"
proof -
  let ?prices = "[(''ETH/USD'', JObject [(''price'', JNumber (Float ''2500.5''))])]"
  let ?req = "\<lparr>tq_name = ''get_price'', tq_arguments = Some [(''pair'', JString ''ETH/USD'')]\<rparr>"
  have req: "tq_name ?req = ''get_price''" "call_arg ?req ''pair'' = Some (JString ''ETH/USD'')"
    by (simp_all add: call_arg_def)
  have "\<exists>r m. market_call_tool sample_ctors ?prices ?req = Result r \<and> map_result sd r = Inr (JObject m) \<and>
        map_of m ''price'' = Some (JNumber (Float ''2500.5''))" for sd
    using market_answers [OF result_laws_sample req, of ?prices sd] by fastforce
  then show ?thesis by (simp only: Let_def) blast
qed

text \<open>C39: what a spawned server can learn from its environment. The environment server, spawned for a
  downstream, lists in order the names it was started with: at most \<open>PATH\<close>, \<open>HOME\<close> and the variable of
  the downstream's own credential, so none of the gateway's other secrets.\<close>

theorem spawned_server_environment:
  assumes "launch_for env osenv c = Inr (Spawn program args vars)" and "tq_name req = ''env_keys''"
  shows "\<exists>ks. env_server_call rc vars req = Result (rc_structured rc (JObject [(''keys'', JArray (map JString ks))])) \<and>
     sorted ks \<and> set ks = from_utf8_lossy ` fst ` set vars \<and>
     fst ` set vars \<subseteq> {''PATH'', ''HOME''} \<union> {env_name s | s. dc_credential c = Some s}"
proof -
  have "fst ` set vars \<subseteq> {''PATH'', ''HOME''} \<union> {env_name s | s. dc_credential c = Some s}"
  proof
    fix k
    assume "k \<in> fst ` set vars"
    then have "map_of vars k \<noteq> None" by (simp add: map_of_eq_None_iff)
    with launch_for_spawn [OF assms(1), of k]
    show "k \<in> {''PATH'', ''HOME''} \<union> {env_name s | s. dc_credential c = Some s}"
      by (auto split: if_splits)
  qed
  with assms(2) show ?thesis
    by (intro exI [of _ "sort (map (from_utf8_lossy \<circ> fst) vars)"]) (simp add: env_server_call_def image_image)
qed

theorem spawned_server_environment_witness:
  "let env = [''WALLET_KEY'' \<mapsto> ''k'', ''SIGNING_KEY'' \<mapsto> ''s'', ''PATH'' \<mapsto> ''/bin''];
       c = \<lparr>dc_name = ''w'', dc_transport = Stdio ''wallet'', dc_credential = Some (Secret ''env:WALLET_KEY'')\<rparr>;
       vars = [(''PATH'', ''/bin''), (''WALLET_KEY'', ''k'')]
   in launch_for env env c = Inr (Spawn ''wallet'' [] vars) \<and>
      fst ` set vars \<subseteq> {''PATH'', ''HOME''} \<union> {env_name s | s. dc_credential c = Some s}"
proof -
  let ?env = "[''WALLET_KEY'' \<mapsto> ''k'', ''SIGNING_KEY'' \<mapsto> ''s'', ''PATH'' \<mapsto> ''/bin'']"
  let ?c = "\<lparr>dc_name = ''w'', dc_transport = Stdio ''wallet'', dc_credential = Some (Secret ''env:WALLET_KEY'')\<rparr>"
  let ?vars = "[(''PATH'', ''/bin''), (''WALLET_KEY'', ''k'')]"
  let ?req = "\<lparr>tq_name = ''env_keys'', tq_arguments = None\<rparr>"
  have l: "launch_for ?env ?env ?c = Inr (Spawn ''wallet'' [] ?vars)" by code_simp
  have "tq_name ?req = ''env_keys''" by simp
  from spawned_server_environment [OF l this]
  have "fst ` set ?vars \<subseteq> {''PATH'', ''HOME''} \<union> {env_name s | s. dc_credential ?c = Some s}" by blast
  with l show ?thesis unfolding Let_def by blast
qed

end
