(* ===== verification/Demo_Wallet.thy ===== *)
theory Demo_Wallet
  imports Demo_Servers
begin

text \<open>
  \<open>demo/wallet/src/main.rs\<close>: the wallet server. The chain, its addresses, hashes and transactions are the
  crate alloy: the record \<open>chain\<close>, whose calls take the world and return it, so that the order of the
  calls and what is sent are part of the model. Amounts keep the widths of the source: \<open>i64\<close> for the
  argument, \<open>u128\<close> for the product, \<open>U256\<close> for wei.
\<close>

type_synonym u128 = "128 word"
type_synonym u256 = "256 word"

section \<open>The chain\<close>

record 'a transaction =
  tx_from :: 'a
  tx_to :: 'a
  tx_value :: u256

record 'h receipt =
  rt_block :: "u64 option"
  rt_hash :: 'h

record ('w, 'a, 'h, 'p) chain =
  parse_address :: "string \<Rightarrow> string + 'a"
  address_text :: "'a \<Rightarrow> string"
  hash_text :: "'h \<Rightarrow> string"
  get_chain_id :: "'w \<Rightarrow> 'w \<times> (string + u64)"
  get_latest_block :: "'w \<Rightarrow> 'w \<times> (string + (u64 \<times> 'h) option)"
  get_balance_at :: "'w \<Rightarrow> 'a \<Rightarrow> 'h \<Rightarrow> 'w \<times> (string + u256)"
  send_transaction :: "'w \<Rightarrow> 'a transaction \<Rightarrow> 'w \<times> (string + 'p)"
  get_receipt :: "'w \<Rightarrow> 'p \<Rightarrow> 'w \<times> (string + 'h receipt)"

section \<open>Constants and tools\<close>

definition MILLI_ETH_WEI :: u128 where "MILLI_ETH_WEI = 1000000000000000"

definition KEY_VAR :: string where "KEY_VAR = ''WALLET_PRIVATE_KEY''"

definition wallet_object_schema :: "(string \<times> json) list \<Rightarrow> string list \<Rightarrow> (string \<times> json) list" where
  "wallet_object_schema properties required =
     bt_of_list
       [(''type'', JString ''object''), (''properties'', JObject (bt_of_list properties)),
        (''required'', JArray (map JString required))]"

definition integer_prop :: "string \<Rightarrow> json" where
  "integer_prop d = JObject (bt_of_list [(''type'', JString ''integer''), (''description'', JString d)])"

definition transfer_description :: "string \<Rightarrow> string" where
  "transfer_description from =
     ''Send milli-ETH from '' @ from @ '' to an address, as a signed transaction. ''
     @ from @ '' is the only account this server can send from, set by the ''
     @ ''credential, so funds cannot be moved towards it with this tool. ''
     @ ''It also pays the gas fee, so its balance falls by slightly more ''
     @ ''than `amount` and an exact target balance is not reachable.''"

definition wallet_tools :: "('w, 'a, 'h, 'p) chain \<Rightarrow> 'a \<Rightarrow> mcp_tool list" where
  "wallet_tools ch from =
     [\<lparr>mt_name = ''get_balance'',
       mt_description = Some ''Balance of an address, in whole milli-ETH, rounded down.'',
       mt_input_schema = wallet_object_schema [(''address'', string_prop ''0x-prefixed address.'')] [''address''],
       mt_output_schema = Some (wallet_object_schema
         [(''address'', typed_prop ''string''), (''eth_milli'', typed_prop ''integer'')]
         [''address'', ''eth_milli''])\<rparr>,
      \<lparr>mt_name = ''transfer'',
       mt_description = Some (transfer_description (address_text ch from)),
       mt_input_schema = wallet_object_schema
         [(''to'', string_prop ''0x-prefixed recipient.''), (''amount'', integer_prop ''Milli-ETH to send.'')]
         [''to'', ''amount''],
       mt_output_schema = Some (wallet_object_schema
         [(''tx_hash'', typed_prop ''string''), (''amount'', typed_prop ''integer'')]
         [''tx_hash'', ''amount''])\<rparr>]"

section \<open>Arguments and results\<close>

definition wallet_address :: "('w, 'a, 'h, 'p) chain \<Rightarrow> tool_request \<Rightarrow> string \<Rightarrow> string + 'a" where
  "wallet_address ch req name =
     (case Option.bind (call_arg req name) as_str of
        None \<Rightarrow> Inl (''`'' @ name @ ''` must be a 0x-prefixed address'')
      | Some t \<Rightarrow> map_err (\<lambda>e. ''`'' @ name @ ''`: '' @ e) (parse_address ch t))"

definition failed :: "result_ctors \<Rightarrow> string \<Rightarrow> call_tool_result" where
  "failed rc message = rc_error rc [message]"

definition attested ::
  "result_ctors \<Rightarrow> ('w, 'a, 'h, 'p) chain \<Rightarrow> json \<Rightarrow> u64 \<Rightarrow> u64 \<Rightarrow> 'h \<Rightarrow> call_tool_result" where
  "attested rc ch v chain_id block reference =
     (rc_structured rc v)
       \<lparr>cr_meta := Some (bt_insert ''proveno/provenance''
          (JObject (bt_of_list
            [(''type'', JString ''onchain''),
             (''chain'', JString (''eip155:'' @ show_nat (unat chain_id))),
             (''block'', u64_json block),
             (''reference'', JString (hash_text ch reference))])) [])\<rparr>"

text \<open>\<open>saturating_to::<i64>\<close>.\<close>

definition saturating_to_i64 :: "u256 \<Rightarrow> i64" where
  "saturating_to_i64 m = (if uint m > 2 ^ 63 - 1 then word_of_int (2 ^ 63 - 1) else ucast m)"

section \<open>The tools\<close>

definition wallet_get_balance ::
  "result_ctors \<Rightarrow> ('w, 'a, 'h, 'p) chain \<Rightarrow> tool_request \<Rightarrow> 'w \<Rightarrow> 'w \<times> call_tool_result" where
  "wallet_get_balance rc ch req w =
     (case wallet_address ch req ''address'' of
        Inl e \<Rightarrow> (w, failed rc e)
      | Inr a \<Rightarrow>
          (case get_chain_id ch w of
             (w1, Inl e) \<Rightarrow> (w1, failed rc (''get_balance: chain id: '' @ e))
           | (w1, Inr chain_id) \<Rightarrow>
               (case get_latest_block ch w1 of
                  (w2, Inl e) \<Rightarrow> (w2, failed rc (''get_balance: latest block: '' @ e))
                | (w2, Inr None) \<Rightarrow> (w2, failed rc ''get_balance: no latest block'')
                | (w2, Inr (Some (number, hash))) \<Rightarrow>
                    (case get_balance_at ch w2 a hash of
                       (w3, Inl e) \<Rightarrow> (w3, failed rc (''get_balance: '' @ e))
                     | (w3, Inr wei) \<Rightarrow>
                         (w3, attested rc ch
                            (JObject (bt_of_list
                              [(''address'', JString (address_text ch a)),
                               (''eth_milli'', i64_json (saturating_to_i64 (wei div ucast MILLI_ETH_WEI)))]))
                            chain_id number hash)))))"

text \<open>The amount of a transfer: an \<open>i64\<close> above zero; and the value sent, a product of \<open>u128\<close>s.\<close>

definition transfer_amount :: "tool_request \<Rightarrow> i64 option" where
  "transfer_amount req =
     (case Option.bind (call_arg req ''amount'') as_i64 of
        Some a \<Rightarrow> if 0 < sint a then Some a else None
      | None \<Rightarrow> None)"

definition transfer_value :: "i64 \<Rightarrow> u256" where
  "transfer_value amount = ucast ((scast amount :: u128) * MILLI_ETH_WEI)"

definition wallet_transfer ::
  "result_ctors \<Rightarrow> ('w, 'a, 'h, 'p) chain \<Rightarrow> 'a \<Rightarrow> tool_request \<Rightarrow> 'w \<Rightarrow> 'w \<times> call_tool_result" where
  "wallet_transfer rc ch from req w =
     (case wallet_address ch req ''to'' of
        Inl e \<Rightarrow> (w, failed rc e)
      | Inr to \<Rightarrow>
          (case transfer_amount req of
             None \<Rightarrow> (w, failed rc ''`amount` must be a positive whole number of milli-ETH'')
           | Some amount \<Rightarrow>
               (case get_chain_id ch w of
                  (w1, Inl e) \<Rightarrow> (w1, failed rc (''transfer: chain id: '' @ e))
                | (w1, Inr chain_id) \<Rightarrow>
                    (case send_transaction ch w1 \<lparr>tx_from = from, tx_to = to, tx_value = transfer_value amount\<rparr> of
                       (w2, Inl e) \<Rightarrow> (w2, failed rc (''transfer: '' @ e))
                     | (w2, Inr pending) \<Rightarrow>
                         (case get_receipt ch w2 pending of
                            (w3, Inl e) \<Rightarrow> (w3, failed rc (''transfer: '' @ e))
                          | (w3, Inr receipt) \<Rightarrow>
                              (w3, case rt_block receipt of
                                     None \<Rightarrow> failed rc ''transfer: receipt has no block number''
                                   | Some block \<Rightarrow>
                                       attested rc ch
                                         (JObject (bt_of_list
                                           [(''tx_hash'', JString (hash_text ch (rt_hash receipt))),
                                            (''amount'', i64_json amount)]))
                                         chain_id block (rt_hash receipt)))))))"

definition wallet_call_tool ::
  "result_ctors \<Rightarrow> ('w, 'a, 'h, 'p) chain \<Rightarrow> 'a \<Rightarrow> tool_request \<Rightarrow> 'w \<Rightarrow> 'w \<times> server_answer" where
  "wallet_call_tool rc ch from req w =
     (if tq_name req = ''get_balance'' then
        (case wallet_get_balance rc ch req w of (w', r) \<Rightarrow> (w', Result r))
      else if tq_name req = ''transfer'' then
        (case wallet_transfer rc ch from req w of (w', r) \<Rightarrow> (w', Result r))
      else (w, ProtocolError (InvalidParams (''unknown tool `'' @ tq_name req @ ''`''))))"

text \<open>The start: the key comes from the environment, and the account from the key.\<close>

definition wallet_start ::
  "(string \<Rightarrow> string option) \<Rightarrow> (string \<Rightarrow> string + 's) \<Rightarrow> ('s \<Rightarrow> 'a) \<Rightarrow> (string \<Rightarrow> string option) \<Rightarrow> string
     \<Rightarrow> string + 'a \<times> 's" where
  "wallet_start env parse_key signer_address url_error rpc_url =
     (case env KEY_VAR of
        None \<Rightarrow> Inl (KEY_VAR @ '' is not set; the gateway injects it as this downstream's credential'')
      | Some key \<Rightarrow>
          bind_r (map_err (\<lambda>e. KEY_VAR @ '' is not a valid private key: '' @ e) (parse_key key)) (\<lambda>signer.
            case url_error rpc_url of
              Some e \<Rightarrow> Inl e
            | None \<Rightarrow> Inr (signer_address signer, signer)))"

section \<open>Facts: amounts\<close>

lemma transfer_amount_Some:
  "transfer_amount req = Some a \<longleftrightarrow> (\<exists>v. call_arg req ''amount'' = Some v \<and> as_i64 v = Some a) \<and> 0 < sint a"
  by (auto simp: transfer_amount_def bind_eq_Some_conv split: option.splits if_splits)

text \<open>No overflow: the largest amount times the factor fits well within 128 bits.\<close>

lemma sint_i64_bounds: "- (2 ^ 63) \<le> sint (a :: i64)" "sint (a :: i64) < 2 ^ 63"
  using sint_ge [of a] sint_lt [of a] by simp_all

lemma len128: "LENGTH(128) = 128"
  by simp

lemma milli_product_fits:
  assumes "0 < x" "x < (2 :: int) ^ 63"
  shows "x * 10 ^ 15 < 2 ^ 128" "x * 10 ^ 15 < 2 ^ 256" "0 \<le> x * 10 ^ 15"
proof -
  have "x * 10 ^ 15 < 2 ^ 63 * 10 ^ 15" using assms by simp
  also have "\<dots> < (2 :: int) ^ 128" by simp
  finally show fits: "x * 10 ^ 15 < 2 ^ 128" .
  have "(2 :: int) ^ 128 < 2 ^ 256" by simp
  with fits show "x * 10 ^ 15 < 2 ^ 256" by linarith
  show "0 \<le> x * 10 ^ 15" using assms by simp
qed

lemma uint_transfer_value:
  assumes "0 < sint amount"
  shows "uint (transfer_value amount) = sint amount * 10 ^ 15"
proof -
  note fits = milli_product_fits [OF assms sint_i64_bounds(2)]
  have "uint (scast amount :: u128) = sint amount mod 2 ^ 128"
    by (simp only: scast_eq uint_word_of_int len128)
  also have "\<dots> = sint amount"
    by (rule mod_pos_pos_trivial) (use assms sint_i64_bounds(2) [of amount] in \<open>simp_all\<close>)
  finally have amount: "uint (scast amount :: u128) = sint amount" .
  have "uint ((scast amount :: u128) * MILLI_ETH_WEI) = sint amount * uint MILLI_ETH_WEI mod 2 ^ LENGTH(128)"
    by (simp only: uint_word_ariths(3) amount)
  also have "uint MILLI_ETH_WEI = 10 ^ 15" by (simp add: MILLI_ETH_WEI_def)
  also have "sint amount * 10 ^ 15 mod 2 ^ LENGTH(128) = sint amount * 10 ^ 15"
    by (rule mod_pos_pos_trivial) (use fits in \<open>simp_all only: len128\<close>)
  finally have product: "uint ((scast amount :: u128) * MILLI_ETH_WEI) = sint amount * 10 ^ 15" .
  have "uint (transfer_value amount) = uint ((scast amount :: u128) * MILLI_ETH_WEI)"
    unfolding transfer_value_def by (rule uint_up_ucast) (simp add: is_up)
  with product show ?thesis by simp
qed

lemma sint_saturating_to_i64: "sint (saturating_to_i64 m) = min (uint m) (2 ^ 63 - 1)"
proof (cases "uint m > 2 ^ 63 - 1")
  case True
  then show ?thesis by (simp add: saturating_to_i64_def)
next
  case False
  have "uint (ucast m :: i64) = uint m mod 2 ^ 64"
    by (simp add: unsigned_ucast_eq take_bit_eq_mod)
  also have "\<dots> = uint m" by (rule mod_pos_pos_trivial) (use False in simp_all)
  finally have "uint (ucast m :: i64) = uint m" .
  moreover have "sint (x :: i64) = uint x" if "uint x < 2 ^ 63" for x
    using that by (simp add: sint_uint signed_take_bit_int_eq_self_iff) (use uint_ge_0 [of x] in linarith)
  ultimately show ?thesis using False by (simp add: saturating_to_i64_def)
qed

lemma uint_milli: "uint ((wei :: u256) div ucast MILLI_ETH_WEI) = uint wei div 10 ^ 15"
proof -
  have "uint (ucast MILLI_ETH_WEI :: u256) = uint MILLI_ETH_WEI" by (rule uint_up_ucast) (simp add: is_up)
  then show ?thesis by (simp add: uint_div_distrib MILLI_ETH_WEI_def)
qed

section \<open>Facts: results\<close>

lemma attested_result:
  assumes "result_laws rc"
  shows "map_result sd (attested rc ch (JObject m) cid n h) = Inr (JObject m)"
    and "cr_is_error (attested rc ch v cid n h) \<noteq> Some True"
  using assms by (simp_all add: attested_def map_result_def result_value_def result_laws_def)

lemma attested_provenance:
  assumes "hash_text ch h \<noteq> []"
  shows "read_provenance sd derr (cr_meta (attested rc ch v cid n h)) =
     Inr (Onchain (''eip155:'' @ show_nat (unat cid)) n (hash_text ch h),
          json_text sd (JObject (provenance_fields (Onchain (''eip155:'' @ show_nat (unat cid)) n (hash_text ch h)))))"
proof -
  let ?p = "Onchain (''eip155:'' @ show_nat (unat cid)) n (hash_text ch h)"
  have "cr_meta (attested rc ch v cid n h) =
      Some [(PROVENANCE_META_KEY, JObject (provenance_fields (Onchain (''eip155:'' @ show_nat (unat cid)) n (hash_text ch h))))]"
    by (simp add: attested_def PROVENANCE_META_KEY_def provenance_fields_simps string_order_simps)
  moreover have "\<forall>(k, s) \<in> set (provenance_fields ?p). s \<noteq> JString []"
    using assms by (simp add: provenance_fields_simps u64_json_def)
  ultimately show ?thesis
    using read_provenance_accepts [of "[(PROVENANCE_META_KEY, JObject (provenance_fields ?p))]" ?p sd derr] by simp
qed

lemma failed_result: "result_laws rc \<Longrightarrow> cr_is_error (failed rc e) = Some True"
  by (simp add: failed_def result_laws_def)

text \<open>The two ways a transfer goes: it fails before anything is sent, or it sends one transaction.\<close>

lemma wallet_transfer_cases:
  assumes "wallet_transfer rc ch from req w = (w', r)" "result_laws rc"
  obtains (nothing_sent) "w' = w \<or> w' = fst (get_chain_id ch w)" "cr_is_error r = Some True"
  | (sent) to amount cid w1 w2 res where
      "wallet_address ch req ''to'' = Inr to" "transfer_amount req = Some amount" "get_chain_id ch w = (w1, Inr cid)"
      "send_transaction ch w1 \<lparr>tx_from = from, tx_to = to, tx_value = transfer_value amount\<rparr> = (w2, res)"
      "w' = w2 \<or> (\<exists>pending. res = Inr pending \<and> w' = fst (get_receipt ch w2 pending))"
proof -
  note f = failed_result [OF assms(2)]
  show ?thesis
  proof (cases "wallet_address ch req ''to''")
    case (Inl e)
    with assms(1) f nothing_sent show ?thesis by (auto simp: wallet_transfer_def)
  next
    case (Inr to)
    show ?thesis
    proof (cases "transfer_amount req")
      case None
      with Inr assms(1) f nothing_sent show ?thesis by (auto simp: wallet_transfer_def)
    next
      case (Some amount)
      obtain w1 c where c: "get_chain_id ch w = (w1, c)" by fastforce
      obtain w2 res where t: "send_transaction ch w1 \<lparr>tx_from = from, tx_to = to, tx_value = transfer_value amount\<rparr> = (w2, res)"
        by fastforce
      show ?thesis
      proof (cases c)
        case (Inl e)
        with \<open>wallet_address ch req ''to'' = Inr to\<close> Some c assms(1) f nothing_sent show ?thesis
          by (auto simp: wallet_transfer_def)
      next
        case (Inr cid)
        have "w' = w2 \<or> (\<exists>pending. res = Inr pending \<and> w' = fst (get_receipt ch w2 pending))"
          using assms(1) \<open>wallet_address ch req ''to'' = Inr to\<close> Some c Inr t
          by (auto simp: wallet_transfer_def split: sum.splits prod.splits)
        with sent \<open>wallet_address ch req ''to'' = Inr to\<close> Some c Inr t show ?thesis by blast
      qed
    qed
  qed
qed

lemma wallet_balance_Result:
  assumes "wallet_get_balance rc ch req w = (w', r)" "result_laws rc" "cr_is_error r \<noteq> Some True"
  obtains a cid n h w1 w2 wei where
    "wallet_address ch req ''address'' = Inr a" "get_chain_id ch w = (w1, Inr cid)"
    "get_latest_block ch w1 = (w2, Inr (Some (n, h)))" "get_balance_at ch w2 a h = (w', Inr wei)"
    "r = attested rc ch (JObject (bt_of_list
        [(''address'', JString (address_text ch a)),
         (''eth_milli'', i64_json (saturating_to_i64 (wei div ucast MILLI_ETH_WEI)))])) cid n h"
  using assms failed_result [OF assms(2)]
  by (auto simp: wallet_get_balance_def split: sum.splits prod.splits option.splits)

section \<open>Properties\<close>

text \<open>A chain with one block that counts the transactions it was sent.\<close>

definition sample_chain :: "(nat, string, string, unit) chain" where
  "sample_chain =
     \<lparr>parse_address = (\<lambda>t. if starts_with t ''0x'' then Inr t else Inl ''bad address''),
      address_text = (\<lambda>a. a), hash_text = (\<lambda>h. ''0x'' @ h),
      get_chain_id = (\<lambda>w. (w, Inr 1)),
      get_latest_block = (\<lambda>w. (w, Inr (Some (12, ''ab'')))),
      get_balance_at = (\<lambda>w a h. (w, Inr 2500000000000000)),
      send_transaction = (\<lambda>w tx. (Suc w, Inr ())),
      get_receipt = (\<lambda>w p. (w, Inr \<lparr>rt_block = Some 13, rt_hash = ''cd''\<rparr>))\<rparr>"

definition balance_request :: tool_request where
  "balance_request = \<lparr>tq_name = ''get_balance'', tq_arguments = Some [(''address'', JString ''0x1'')]\<rparr>"

definition transfer_request :: tool_request where
  "transfer_request = \<lparr>tq_name = ''transfer'',
     tq_arguments = Some [(''amount'', JNumber (PosInt 40)), (''to'', JString ''0x2'')]\<rparr>"

text \<open>C36: a balance the wallet reports is the account's balance in whole milli-ETH, rounded down and capped
  at the largest \<open>i64\<close>, as of one block: the block whose hash the balance was read at is the one the
  result names as its provenance, and the gateway accepts that report and records it unchanged.\<close>

theorem wallet_balance_reported:
  assumes "wallet_get_balance rc ch req w = (w', r)" and "result_laws rc" and "cr_is_error r \<noteq> Some True"
    and "\<forall>h. hash_text ch h \<noteq> []"
  shows "\<exists>a cid n h w1 w2 wei b m att.
     wallet_address ch req ''address'' = Inr a \<and> get_chain_id ch w = (w1, Inr cid) \<and>
     get_latest_block ch w1 = (w2, Inr (Some (n, h))) \<and> get_balance_at ch w2 a h = (w', Inr wei) \<and>
     sint b = min (uint wei div 10 ^ 15) (2 ^ 63 - 1) \<and>
     map_result sd r = Inr (JObject m) \<and> map_of m ''eth_milli'' = Some (i64_json b) \<and>
     map_of m ''address'' = Some (JString (address_text ch a)) \<and>
     read_provenance sd derr (cr_meta r) =
       Inr (Onchain (''eip155:'' @ show_nat (unat cid)) n (hash_text ch h), att)"
proof -
  from assms(1-3) obtain a cid n h w1 w2 wei where
    calls: "wallet_address ch req ''address'' = Inr a" "get_chain_id ch w = (w1, Inr cid)"
      "get_latest_block ch w1 = (w2, Inr (Some (n, h)))" "get_balance_at ch w2 a h = (w', Inr wei)"
    and r: "r = attested rc ch (JObject (bt_of_list
        [(''address'', JString (address_text ch a)),
         (''eth_milli'', i64_json (saturating_to_i64 (wei div ucast MILLI_ETH_WEI)))])) cid n h"
    by (rule wallet_balance_Result)
  have "sint (saturating_to_i64 (wei div ucast MILLI_ETH_WEI)) = min (uint wei div 10 ^ 15) (2 ^ 63 - 1)"
    by (simp only: sint_saturating_to_i64 uint_milli)
  with calls attested_result(1) [OF assms(2)] attested_provenance [OF assms(4) [rule_format]] show ?thesis
    unfolding r by (fastforce simp: map_of_bt_of_list)
qed

theorem wallet_balance_reported_witness:
  "\<forall>sd derr. \<exists>w' r m att. wallet_get_balance sample_ctors sample_chain balance_request 0 = (w', r) \<and>
     map_result sd r = Inr (JObject m) \<and> map_of m ''eth_milli'' = Some (i64_json 2) \<and>
     read_provenance sd derr (cr_meta r) = Inr (Onchain ''eip155:1'' 12 ''0xab'', att)"
proof (intro allI)
  fix sd derr
  obtain w' r where run: "wallet_get_balance sample_ctors sample_chain balance_request 0 = (w', r)" by fastforce
  have ok: "cr_is_error r \<noteq> Some True"
    using run by (auto simp: wallet_get_balance_def wallet_address_def call_arg_def balance_request_def sample_chain_def
        starts_with_def attested_def sample_ctors_def)
  have hashes: "\<forall>h. hash_text sample_chain h \<noteq> []" by (simp add: sample_chain_def)
  from wallet_balance_reported [OF run result_laws_sample ok hashes, of sd derr]
  obtain a cid n h w1 w2 wei b m att where *: "get_chain_id sample_chain 0 = (w1, Inr cid)"
    "get_latest_block sample_chain w1 = (w2, Inr (Some (n, h)))" "get_balance_at sample_chain w2 a h = (w', Inr wei)"
    "sint b = min (uint wei div 10 ^ 15) (2 ^ 63 - 1)" and
    m: "map_result sd r = Inr (JObject m)" "map_of m ''eth_milli'' = Some (i64_json b)"
    "read_provenance sd derr (cr_meta r) = Inr (Onchain (''eip155:'' @ show_nat (unat cid)) n (hash_text sample_chain h), att)"
    by blast
  have "sint b = sint (2 :: i64)" using * by (simp add: sample_chain_def)
  then have "b = 2" by (rule signed_word_eqI)
  moreover have "cid = 1" "n = 12" "hash_text sample_chain h = ''0xab''" using * by (auto simp: sample_chain_def)
  moreover have "show_nat (unat (1 :: u64)) = ''1''" by code_simp
  ultimately show "\<exists>w' r m att. wallet_get_balance sample_ctors sample_chain balance_request 0 = (w', r) \<and>
     map_result sd r = Inr (JObject m) \<and> map_of m ''eth_milli'' = Some (i64_json 2) \<and>
     read_provenance sd derr (cr_meta r) = Inr (Onchain ''eip155:1'' 12 ''0xab'', att)"
    using run m by simp
qed

text \<open>The policy's bound is a bound on money. When the policy of the gateway bounds \<open>amount\<close> for the
  transfer tool by \<open>mx\<close> and permits a call, the wallet that receives the call either sends nothing and
  reports an error, or sends exactly one transaction, from its own account to the named address, of a
  positive number of milli-ETH that is at most \<open>mx\<close>: the wei it asks for are that number times
  \<open>10 ^ 15\<close>, with no overflow on the way.\<close>

theorem policy_caps_transfer:
  assumes "permits pol who tool (JObject m)" and "(''amount'', mx) \<in> set (bounds_for pol tool)"
    and "tq_arguments req = Some m"
    and "wallet_transfer rc ch from req w = (w', r)" and "result_laws rc"
  shows "((w' = w \<or> w' = fst (get_chain_id ch w)) \<and> cr_is_error r = Some True) \<or>
     (\<exists>to n tx w1 w2 res. wallet_address ch req ''to'' = Inr to \<and> w1 = fst (get_chain_id ch w) \<and>
        send_transaction ch w1 tx = (w2, res) \<and> tx_from tx = from \<and> tx_to tx = to \<and>
        uint (tx_value tx) = n * 10 ^ 15 \<and> 0 < n \<and> n \<le> sint mx \<and>
        (w' = w2 \<or> (\<exists>pending. res = Inr pending \<and> w' = fst (get_receipt ch w2 pending))))"
  using assms(4,5)
proof (cases rule: wallet_transfer_cases)
  case nothing_sent
  then show ?thesis by blast
next
  case (sent to amount cid w1 w2 res)
  from sent(2) obtain v where v: "call_arg req ''amount'' = Some v" "as_i64 v = Some amount" and pos: "0 < sint amount"
    by (auto simp: transfer_amount_Some)
  have "within_bound (JObject m) (''amount'', mx)" using assms(1,2) by (auto simp: permits_def)
  with v assms(3) as_i64_json_int [OF v(2)] have "sint amount \<le> sint mx"
    by (auto simp: within_bound_def call_arg_def)
  with sent pos uint_transfer_value [OF pos] show ?thesis
    by (intro disjI2 exI [of _ to] exI [of _ "sint amount"]
        exI [of _ "\<lparr>tx_from = from, tx_to = to, tx_value = transfer_value amount\<rparr>"] exI [of _ w1] exI [of _ w2] exI [of _ res])
      simp
qed

theorem policy_caps_transfer_witness:
  "\<exists>r tx. wallet_transfer sample_ctors sample_chain ''0x9'' transfer_request 0 = (1, r) \<and>
     send_transaction sample_chain 0 tx = (1, Inr ()) \<and> uint (tx_value tx) \<le> 100 * 10 ^ 15"
proof -
  let ?m = "[(''amount'', JNumber (PosInt 40)), (''to'', JString ''0x2'')]"
  obtain w' r where run: "wallet_transfer sample_ctors sample_chain ''0x9'' transfer_request 0 = (w', r)" by fastforce
  have "cr_is_error r \<noteq> Some True \<and> w' = 1"
    using run by (auto simp: wallet_transfer_def wallet_address_def transfer_amount_def call_arg_def transfer_request_def
        sample_chain_def starts_with_def attested_def sample_ctors_def split: if_splits)
  moreover have "permits sample_policy ''alice'' ''w.transfer'' (JObject ?m)"
    by (simp add: permits_def within_bound_def) code_simp
  moreover have "(''amount'', 100) \<in> set (bounds_for sample_policy ''w.transfer'')" by code_simp
  moreover have "tq_arguments transfer_request = Some ?m" by (simp add: transfer_request_def)
  ultimately obtain tx :: "string transaction" and n where tx: "uint (tx_value tx) = n * 10 ^ 15" "n \<le> sint (100 :: i64)"
    using policy_caps_transfer [OF _ _ _ run result_laws_sample, of sample_policy "''alice''" "''w.transfer''" ?m 100]
    by blast
  then have "uint (tx_value tx) \<le> 100 * 10 ^ 15" by simp
  moreover have "send_transaction sample_chain 0 tx = (1, Inr ())" by (simp add: sample_chain_def)
  ultimately show ?thesis using run \<open>cr_is_error r \<noteq> Some True \<and> w' = 1\<close> by blast
qed

end
