(* ===== verification/Demo_System.thy ===== *)
theory Demo_System
  imports Racing_Tasks Demo_Wallet
begin

text \<open>
  The demo as it is deployed (\<open>demo/gateway.toml\<close>, \<open>demo/policy.toml\<close>): the gateway, started on its
  configuration, with the wallet as its child process and the market behind HTTP, and the chain behind
  the wallet. The transports are the identity on requests and results. The chain is watched: every
  transaction handed to it is kept in a list.
\<close>

section \<open>The chain, watched\<close>

definition watched :: "('w, 'a, 'h, 'p) chain \<Rightarrow> ('w \<times> 'a transaction list, 'a, 'h, 'p) chain" where
  "watched ch =
     \<lparr>parse_address = parse_address ch, address_text = address_text ch, hash_text = hash_text ch,
      get_chain_id = (\<lambda>(w, sent). case get_chain_id ch w of (w', r) \<Rightarrow> ((w', sent), r)),
      get_latest_block = (\<lambda>(w, sent). case get_latest_block ch w of (w', r) \<Rightarrow> ((w', sent), r)),
      get_balance_at = (\<lambda>(w, sent) a h. case get_balance_at ch w a h of (w', r) \<Rightarrow> ((w', sent), r)),
      send_transaction = (\<lambda>(w, sent) tx. case send_transaction ch w tx of (w', r) \<Rightarrow> ((w', sent @ [tx]), r)),
      get_receipt = (\<lambda>(w, sent) p. case get_receipt ch w p of (w', r) \<Rightarrow> ((w', sent), r))\<rparr>"

section \<open>The servers behind the gateway\<close>

fun answer_of :: "(rpc_error \<Rightarrow> string) \<Rightarrow> server_answer \<Rightarrow> string + call_tool_result" where
  "answer_of rpc (ProtocolError e) = Inl (rpc e)"
| "answer_of rpc (Result r) = Inr r"
| "answer_of rpc (ServerPanic p) = Inl p"

definition demo_call ::
  "result_ctors \<Rightarrow> (rpc_error \<Rightarrow> string) \<Rightarrow> ('w, 'a, 'h, 'p) chain \<Rightarrow> 'a \<Rightarrow> (string, json) btree_map \<Rightarrow> 'w caller" where
  "demo_call rc rpc ch from prices w server name arguments =
     (let req = \<lparr>tq_name = name, tq_arguments = arguments\<rparr>
      in if server = ''wallet'' then (case wallet_call_tool rc ch from req w of (w', a) \<Rightarrow> (w', answer_of rpc a))
         else if server = ''market'' then (w, answer_of rpc (market_call_tool rc prices req))
         else (w, Inl ''no such server''))"

text \<open>Starting them: the wallet with the environment of its process, the market with its own token.\<close>

definition demo_serve ::
  "('w, 'a, 'h, 'p) chain \<Rightarrow> (string \<Rightarrow> string + 's) \<Rightarrow> ('s \<Rightarrow> 'a) \<Rightarrow> (string \<Rightarrow> string option)
     \<Rightarrow> (string \<Rightarrow> string option) \<Rightarrow> launch \<Rightarrow> mcp_failure + mcp_tool list" where
  "demo_serve ch parse_key signer_address url_error market_env l =
     (case l of
        Spawn program args vars \<Rightarrow>
          if program = ''target/debug/demo-wallet'' then
            (case wallet_start (map_of vars) parse_key signer_address url_error (last args) of
               Inl e \<Rightarrow> Inl (InitializeFailed e)
             | Inr (from, signer) \<Rightarrow> Inr (wallet_tools ch from))
          else Inl (SpawnFailed ''not found'')
      | Connect url token \<Rightarrow>
          (case market_serve market_env (map_option (\<lambda>t. ''Bearer '' @ t) token) market_tools of
             Unauthorized \<Rightarrow> Inl (InitializeFailed ''unauthorized'')
           | Served ts \<Rightarrow> Inr ts))"

text \<open>What the market serves: the quotes of its fixture.\<close>

definition market_start ::
  "(path \<Rightarrow> string + string) \<Rightarrow> (string \<Rightarrow> string + (string, json) btree_map) \<Rightarrow> path \<Rightarrow> string + (string, json) btree_map" where
  "market_start read_to_string from_str fixture =
     bind_r (map_err (\<lambda>e. path_display fixture @ '': '' @ e) (read_to_string fixture)) (\<lambda>txt.
       map_err (\<lambda>e. path_display fixture @ '': '' @ e) (from_str txt))"

section \<open>Its configuration\<close>

definition demo_policy_file :: policy_file_toml where
  "demo_policy_file =
     \<lparr>pf_principals = [(''demo-agent'', \<lparr>pf_allow = [''market.get_price'', ''wallet.get_balance'', ''wallet.transfer'']\<rparr>)],
      pf_constraints = [(''wallet.transfer'', [(''amount_max'', 50)])]\<rparr>"

definition demo_config :: "vm_config \<Rightarrow> gateway_config" where
  "demo_config d =
     \<lparr>gc_server = \<lparr>listen = ''127.0.0.1:7777'', signing_key = Secret ''env:PROVENO_SIGNING_KEY''\<rparr>,
      gc_vm = (vm_settings_default d)\<lparr>gas_limit := 2000000, memory_limit_bytes := 16777216, max_tool_calls := 64\<rparr>,
      gc_downstream =
        [\<lparr>dc_name = ''wallet'', dc_transport = Stdio ''target/debug/demo-wallet --rpc-url http://127.0.0.1:8545'',
          dc_credential = Some (Secret ''env:WALLET_PRIVATE_KEY'')\<rparr>,
         \<lparr>dc_name = ''market'', dc_transport = Http ''http://127.0.0.1:8081/mcp'',
          dc_credential = Some (Secret ''env:MARKET_KEY'')\<rparr>],
      gc_policy = \<lparr>policy_file = [''policy.toml'']\<rparr>, gc_store = \<lparr>store_dir = [''traces'']\<rparr>,
      gc_principals = [(''demo-agent'', \<lparr>pc_token = Secret ''env:DEMO_AGENT_TOKEN''\<rparr>)]\<rparr>"

text \<open>The policy that file stands for, and the tools the two servers list, in order.\<close>

definition demo_policy :: policy where
  "demo_policy =
     \<lparr>pol_principals = [(''demo-agent'', [''market.get_price'', ''wallet.get_balance'', ''wallet.transfer''])],
      pol_constraints = [(''wallet.transfer'', [(''amount'', 50)])]\<rparr>"

definition demo_start ::
  "('w, 'a, 'h, 'p) chain \<Rightarrow> (string \<Rightarrow> string + 's) \<Rightarrow> ('s \<Rightarrow> 'a) \<Rightarrow> (string \<Rightarrow> string option)
     \<Rightarrow> (string \<Rightarrow> string option) \<Rightarrow> (string \<Rightarrow> string option) \<Rightarrow> start_env" where
  "demo_start ch parse_key signer_address url_error market_env env =
     \<lparr>se_toml = (\<lambda>_. Inr demo_policy_file), se_read = (\<lambda>_. Inr ''policy''),
      se_serve = demo_serve ch parse_key signer_address url_error market_env, se_env = env, se_osenv = env\<rparr>"

section \<open>Starting\<close>

lemma demo_policy_loads: "policy_load (\<lambda>_. Inr demo_policy_file) (\<lambda>_. Inr txt) p = Inr demo_policy"
proof -
  have "policy_of_file demo_policy_file = Inr demo_policy" by code_simp
  then show ?thesis by (simp add: policy_load_def policy_parse_def result_simps)
qed

definition schema_of :: "string \<Rightarrow> mcp_tool \<Rightarrow> tool_schema" where
  "schema_of server t =
     \<lparr>ts_server = server, ts_name = mt_name t,
      ts_description = (case mt_description t of Some x \<Rightarrow> x | None \<Rightarrow> []),
      ts_input_schema = JObject (mt_input_schema t), ts_output_schema = map_option JObject (mt_output_schema t)\<rparr>"

definition demo_tools :: "('w, 'a, 'h, 'p) chain \<Rightarrow> 'a \<Rightarrow> tool_schema list" where
  "demo_tools ch from = map (schema_of ''market'') market_tools @ map (schema_of ''wallet'') (wallet_tools ch from)"

lemma demo_command: "split_whitespace ''target/debug/demo-wallet --rpc-url http://127.0.0.1:8545'' =
   [''target/debug/demo-wallet'', ''--rpc-url'', ''http://127.0.0.1:8545'']"
  by code_simp

lemma demo_wallet_opens:
  assumes "env ''WALLET_PRIVATE_KEY'' = Some k" "parse_key k = Inr signer" "url_error ''http://127.0.0.1:8545'' = None"
  shows "open_client (demo_serve ch parse_key signer_address url_error market_env) env env
       (gc_downstream (demo_config d) ! 0) = Inr (wallet_tools ch (signer_address signer))"
proof -
  let ?c = "gc_downstream (demo_config d) ! 0"
  have "env_name (Secret ''env:WALLET_PRIVATE_KEY'') = ''WALLET_PRIVATE_KEY''" by code_simp
  then have l: "launch_for env env ?c = Inr (Spawn ''target/debug/demo-wallet'' [''--rpc-url'', ''http://127.0.0.1:8545'']
      (child_env env (Some (''WALLET_PRIVATE_KEY'', k))))"
    by (simp add: launch_for_def demo_config_def resolve_credential_def secret_resolve_def assms(1) result_simps demo_command
        del: env_name.simps)
  from launch_for_spawn [OF l, of "''WALLET_PRIVATE_KEY''"]
  have "map_of (child_env env (Some (''WALLET_PRIVATE_KEY'', k))) KEY_VAR = Some k"
    using assms(1) by (simp add: KEY_VAR_def demo_config_def)
  with l assms show ?thesis
    by (simp add: open_client_def result_simps demo_serve_def wallet_start_def)
qed

lemma demo_market_opens:
  assumes "env ''MARKET_KEY'' = Some t" "market_env ''MARKET_TOKEN'' = Some t"
  shows "open_client (demo_serve ch parse_key signer_address url_error market_env) env env
       (gc_downstream (demo_config d) ! 1) = Inr market_tools"
  using assms
  by (simp add: open_client_def result_simps demo_serve_def launch_for_def demo_config_def resolve_credential_def
      secret_resolve_def market_serve_def market_require_bearer_def strip_prefix_def starts_with_def)

lemma demo_lists:
  "list_tools ''wallet'' (wallet_tools ch from) acc = Inr (acc @ map (schema_of ''wallet'') (wallet_tools ch from))"
  "list_tools ''market'' market_tools acc = Inr (acc @ map (schema_of ''market'') market_tools)"
  by (simp_all add: wallet_tools_def market_tools_def tool_schema_of_def schema_of_def)

lemma demo_sorted:
  "sort_key qualified_name (map (schema_of ''wallet'') (wallet_tools ch from) @ map (schema_of ''market'') market_tools) =
     demo_tools ch from"
  by (simp add: demo_tools_def wallet_tools_def market_tools_def schema_of_def qualified_name_def string_order_simps)

lemma demo_connects:
  assumes "env ''WALLET_PRIVATE_KEY'' = Some k" "parse_key k = Inr signer" "url_error ''http://127.0.0.1:8545'' = None"
    and "env ''MARKET_KEY'' = Some t" "market_env ''MARKET_TOKEN'' = Some t"
  shows "\<exists>clients. downstreams_connect (demo_serve ch parse_key signer_address url_error market_env) env env
       (gc_downstream (demo_config d)) = Inr \<lparr>ds_clients = clients, ds_tools = demo_tools ch (signer_address signer)\<rparr> \<and>
     map fst clients = [''market'', ''wallet'']"
proof -
  obtain a b where ds: "gc_downstream (demo_config d) = [a, b]" and names: "dc_name a = ''wallet''" "dc_name b = ''market''"
    by (simp add: demo_config_def)
  show ?thesis
    using demo_wallet_opens [where env = env and parse_key = parse_key and url_error = url_error and ch = ch and d = d
        and signer_address = signer_address and market_env = market_env, OF assms(1-3)]
      demo_market_opens [where env = env and parse_key = parse_key and url_error = url_error and ch = ch and d = d
        and signer_address = signer_address and market_env = market_env, OF assms(4,5)]
    by (simp add: downstreams_connect_def ds names result_simps demo_lists demo_sorted)
qed

text \<open>All the names are usable in Lua, and all the tools are the agent's.\<close>

lemma demo_names: "list_all (\<lambda>t. check_lua_names t = Inr ()) (demo_tools ch from)"
proof -
  have "is_name ''market''" "is_name ''wallet''" "is_name ''get_price''" "is_name ''get_balance''" "is_name ''transfer''"
    "''market'' \<notin> set DIALECT_NAMES" "''wallet'' \<notin> set DIALECT_NAMES" by code_simp+
  then show ?thesis
    by (simp add: demo_tools_def market_tools_def wallet_tools_def schema_of_def check_lua_names_def)
qed

lemma demo_qualified:
  "map qualified_name (demo_tools ch from) = [''market.get_price'', ''wallet.get_balance'', ''wallet.transfer'']"
  by (simp add: demo_tools_def market_tools_def wallet_tools_def schema_of_def qualified_name_def)

lemma demo_allowed:
  assumes "en_policy en = demo_policy" "ds_tools (en_downstreams en) = demo_tools ch from"
  shows "allowed_schemas en ''demo-agent'' = demo_tools ch from"
proof -
  have "allowed_tools demo_policy ''demo-agent'' = map qualified_name (demo_tools ch from)"
    by (simp add: demo_qualified) code_simp
  then show ?thesis using assms by (simp add: allowed_schemas_def)
qed

lemma demo_others:
  assumes "en_policy en = demo_policy" "who \<noteq> ''demo-agent''"
  shows "allowed_schemas en who = []"
  using assms by (simp add: allowed_schemas_def allowed_tools_def demo_policy_def)

lemma demo_bound: "(''amount'', 50) \<in> set (bounds_for demo_policy ''wallet.transfer'')"
  by code_simp

lemma demo_engine:
  assumes "engine_new cr (demo_start ch parse_key signer_address url_error market_env env) io (demo_config d) s = (s', Inr en)"
  shows "en_policy en = demo_policy"
  using engine_new_Inr [OF assms] by (simp add: demo_start_def demo_policy_loads)

lemma demo_comes_up:
  assumes "env ''WALLET_PRIVATE_KEY'' = Some k" "parse_key k = Inr signer" "url_error ''http://127.0.0.1:8545'' = None"
    and "env ''MARKET_KEY'' = Some t" "market_env ''MARKET_TOKEN'' = Some t"
    and "env ''PROVENO_SIGNING_KEY'' = Some hex" "signing_key_from_hex cr hex = Inr seed" "env ''DEMO_AGENT_TOKEN'' = Some a"
    and "store_open io s [''traces''] = (s', Inr st)"
  shows "\<exists>en. engine_new cr (demo_start ch parse_key signer_address url_error market_env env) io (demo_config d) s
       = (s', Inr en) \<and> en_policy en = demo_policy \<and> en_store en = st \<and> en_signing_key en = seed \<and>
     map fst (ds_clients (en_downstreams en)) = [''market'', ''wallet''] \<and>
     ds_tools (en_downstreams en) = demo_tools ch (signer_address signer) \<and>
     allowed_schemas en ''demo-agent'' = demo_tools ch (signer_address signer)"
proof -
  let ?se = "demo_start ch parse_key signer_address url_error market_env env"
  obtain clients where ds: "downstreams_connect (se_serve ?se) (se_env ?se) (se_osenv ?se) (gc_downstream (demo_config d)) =
      Inr \<lparr>ds_clients = clients, ds_tools = demo_tools ch (signer_address signer)\<rparr>"
    and clients: "map fst clients = [''market'', ''wallet'']"
    using demo_connects [where env = env and parse_key = parse_key and url_error = url_error and ch = ch and d = d
        and signer_address = signer_address and market_env = market_env, OF assms(1-5)] by (auto simp: demo_start_def)
  define en where "en = \<lparr>en_vm = gc_vm (demo_config d), en_policy = demo_policy,
      en_downstreams = \<lparr>ds_clients = clients, ds_tools = demo_tools ch (signer_address signer)\<rparr>, en_store = st,
      en_signing_key = seed\<rparr>"
  have allowed: "allowed_schemas en ''demo-agent'' = demo_tools ch (signer_address signer)"
    by (rule demo_allowed) (simp_all add: en_def)
  have names: "env_name (Secret ''env:PROVENO_SIGNING_KEY'') = ''PROVENO_SIGNING_KEY''"
    "env_name (Secret ''env:DEMO_AGENT_TOKEN'') = ''DEMO_AGENT_TOKEN''" by code_simp+
  have "check_tools ''demo-agent'' (demo_tools ch (signer_address signer)) = Inr ()"
    using demo_names [of ch "signer_address signer"] by (simp add: check_tools_ok list_all_iff)
  then have principals: "check_principals en (map fst (gc_principals (demo_config d))) = Inr ()"
    by (simp add: demo_config_def allowed)
  have policy: "policy_load (se_toml ?se) (se_read ?se) p = Inr demo_policy" for p
    by (simp add: demo_start_def demo_policy_loads)
  have secrets: "secret_resolve (se_env ?se) (signing_key (gc_server (demo_config d))) = Inr hex"
    "resolve_tokens (se_env ?se) (gc_principals (demo_config d)) = Inr ()"
    using assms(6,8) names by (simp_all add: demo_start_def demo_config_def secret_resolve_def del: env_name.simps)
  have dir: "store_dir (gc_store (demo_config d)) = [''traces'']" by (simp add: demo_config_def)
  have "engine_new cr ?se io (demo_config d) s = (s', Inr en)"
    using principals
    by (simp add: engine_new_def policy ds secrets dir assms(7,9) result_simps en_def)
  with allowed clients show ?thesis by (intro exI [of _ en]) (simp add: en_def)
qed

section \<open>What the agent can spend\<close>

text \<open>A transaction within a bound, from one account.\<close>

definition within :: "'a \<Rightarrow> i64 \<Rightarrow> 'a transaction \<Rightarrow> bool" where
  "within from mx tx \<longleftrightarrow>
     tx_from tx = from \<and> (\<exists>n. uint (tx_value tx) = n * 10 ^ 15 \<and> 0 < n \<and> n \<le> sint mx)"

text \<open>One answer of the wallet hands over at most one transaction.\<close>

lemma watched_balance:
  "wallet_get_balance rc (watched ch) req (w, sent) = ((w', sent'), r) \<Longrightarrow> sent' = sent"
  by (auto simp: wallet_get_balance_def watched_def split: sum.splits prod.splits option.splits)

lemma watched_transfer:
  assumes "wallet_transfer rc (watched ch) from req (w, sent) = ((w', sent'), r)"
  shows "sent' = sent \<or>
     (\<exists>to amount. transfer_amount req = Some amount \<and>
        sent' = sent @ [\<lparr>tx_from = from, tx_to = to, tx_value = transfer_value amount\<rparr>])"
  using assms
  by (auto simp: wallet_transfer_def watched_def split: sum.splits prod.splits option.splits)

text \<open>A permitted request of the gateway, whatever it is, hands over at most one transaction, and that one
  is within the bound.\<close>

lemma demo_request:
  assumes "permitted_request env h (w, sent) (w', sent')"
    and call: "he_call_tool env = demo_call rc rpc (watched ch) from prices"
    and bound: "(''amount'', mx) \<in> set (bounds_for (gh_policy h) ''wallet.transfer'')"
  shows "sent' = sent \<or> (\<exists>tx. sent' = sent @ [tx] \<and> within from mx tx)"
proof -
  from assms(1) obtain tool args server name arguments res where
    permits: "permits (gh_policy h) (gh_principal h) (qualified_name tool) args" and
    split: "split_once_char (CHR ''.'') (qualified_name tool) = Some (server, name)" and
    args: "args = (case arguments of Some m \<Rightarrow> JObject m | None \<Rightarrow> JNull)" and
    step: "he_call_tool env (w, sent) server name arguments = ((w', sent'), res)"
    unfolding permitted_request_def by blast
  let ?req = "\<lparr>tq_name = name, tq_arguments = arguments\<rparr>"
  show ?thesis
  proof (cases "server = ''wallet'' \<and> name = ''transfer''")
    case True
    then have "qualified_name tool = ''wallet.transfer''" using split by (auto simp: split_once_char_Some)
    with permits bound have within: "within_bound args (''amount'', mx)" by (auto simp: permits_def)
    from True step obtain r where "wallet_transfer rc (watched ch) from ?req (w, sent) = ((w', sent'), r)"
      by (auto simp: call demo_call_def wallet_call_tool_def split: prod.splits)
    from watched_transfer [OF this] show ?thesis
    proof
      assume "\<exists>to amount. transfer_amount ?req = Some amount \<and>
          sent' = sent @ [\<lparr>tx_from = from, tx_to = to, tx_value = transfer_value amount\<rparr>]"
      then obtain to amount where amount: "transfer_amount ?req = Some amount"
        and sent: "sent' = sent @ [\<lparr>tx_from = from, tx_to = to, tx_value = transfer_value amount\<rparr>]" by blast
      from amount obtain v where v: "call_arg ?req ''amount'' = Some v" "as_i64 v = Some amount" and pos: "0 < sint amount"
        by (auto simp: transfer_amount_Some)
      have "sint amount \<le> sint mx"
        using v within as_i64_json_int [OF v(2)] by (auto simp: args within_bound_def call_arg_def split: option.splits)
      with sent uint_transfer_value [OF pos] pos show ?thesis by (auto simp: within_def)
    qed simp
  next
    case False
    then have "sent' = sent"
      using step by (auto simp: call demo_call_def wallet_call_tool_def Let_def split: prod.splits if_splits dest: watched_balance)
    then show ?thesis ..
  qed
qed

lemma demo_requests:
  assumes "(authorized_request env tokens en)\<^sup>*\<^sup>* (w, sent) (w', sent')"
    and "he_call_tool env = demo_call rc rpc (watched ch) from prices"
    and "(''amount'', mx) \<in> set (bounds_for (en_policy en) ''wallet.transfer'')"
  shows "\<exists>new. sent' = sent @ new \<and> list_all (within from mx) new"
  using assms(1)
proof (induction "(w', sent')" arbitrary: w' sent')
  case base
  then show ?case by simp
next
  case (step b)
  obtain w1 sent1 where b: "b = (w1, sent1)" by fastforce
  from step.hyps(3) [OF b] obtain new where new: "sent1 = sent @ new" "list_all (within from mx) new" by blast
  from step.hyps(2) b obtain who where
    "permitted_request env (host_new who (en_downstreams en) (allowed_schemas en who) (en_policy en)) (w1, sent1) (w', sent')"
    unfolding authorized_request_def by blast
  from demo_request [OF this assms(2)] assms(3)
  have "sent' = sent1 \<or> (\<exists>tx. sent' = sent1 @ [tx] \<and> within from mx tx)" by (simp add: host_new_def)
  with new show ?case by auto
qed

end
