(* ===== verification/Demo_Run.thy ===== *)
theory Demo_Run
  imports Demo_System Sample_Run
begin

text \<open>
  A run of the demo to evaluate its properties on: the stand-ins of \<open>Sample_Run\<close>, with a program that
  transfers 7 milli-ETH through the gateway to the wallet and its chain.
\<close>

definition demo_vars :: "string \<Rightarrow> string option" where
  "demo_vars = [''WALLET_PRIVATE_KEY'' \<mapsto> ''k'', ''MARKET_KEY'' \<mapsto> ''m'', ''PROVENO_SIGNING_KEY'' \<mapsto> hex_enc sample_key,
     ''DEMO_AGENT_TOKEN'' \<mapsto> ''t'']"

definition demo_run :: "sample_table vm_run" where
  "demo_run = CallTool ''wallet.transfer'' (STable []) sample_record (\<lambda>_. Finish (Inr LNil) 3 5)"

definition demo_gw :: "(sample_table, string, string, sample_tape) core" where
  "demo_gw = sample_gw\<lparr>core_execute := (\<lambda>cfg p. demo_run)\<rparr>"

definition demo_env :: "(nat \<times> string transaction list) host_env" where
  "demo_env =
     \<lparr>he_serde = \<lparr>json_text = enc_json,
        json_parse = (\<lambda>s. Inr (JObject [(''amount'', JNumber (PosInt 7)), (''to'', JString ''0x2'')]))\<rparr>,
      he_serde_error = (\<lambda>_. ''error''), he_validate = (\<lambda>_. Inr (\<lambda>_. None)),
      he_call_tool = demo_call sample_ctors (\<lambda>_. ''refused'') (watched sample_chain) ''0x9'' []\<rparr>"

definition demo_from :: start_env where
  "demo_from = demo_start sample_chain Inr (\<lambda>_. ''0x9'') (\<lambda>_. None) [''MARKET_TOKEN'' \<mapsto> ''m''] demo_vars"

definition bare_fs :: fs where
  "bare_fs = \<lparr>fs_files = Map.empty, fs_dirs = [], fs_counter = 0\<rparr>"

lemma demo_vars:
  "demo_vars ''WALLET_PRIVATE_KEY'' = Some ''k''" "demo_vars ''MARKET_KEY'' = Some ''m''"
  "demo_vars ''PROVENO_SIGNING_KEY'' = Some (hex_enc sample_key)" "demo_vars ''DEMO_AGENT_TOKEN'' = Some ''t''"
  by (simp_all add: demo_vars_def)

lemma demo_market: "[''MARKET_TOKEN'' \<mapsto> ''m''] ''MARKET_TOKEN'' = Some ''m''"
  by simp

lemma demo_key: "signing_key_from_hex sample_crypto (hex_enc sample_key) = Inr sample_key"
  by (rule sample_key_reads)

lemma demo_store_opens:
  "\<exists>s st. store_open sample_io bare_fs [''traces''] = (s, Inr st) \<and> store_ready st s \<and> fs_files s = Map.empty \<and>
     fs_counter s = 0 \<and> fs_dirs s = [[''traces''], [''traces'', ''traces''], [''traces'', ''programs''], [''traces'', ''descriptions'']] \<and>
     st_traces st = [''traces'', ''traces'']"
  by (simp add: store_open_def Let_def then_fs_def fs_create_dir_all_def sample_io_def path_join_single bare_fs_def store_ready_def)

lemma records_calls_demo: "records_calls demo_gw (core_execute demo_gw cfg p)"
  by (simp add: demo_gw_def demo_run_def sample_record_def)

lemma outputs_json_demo: "outputs_json demo_gw (he_serde demo_env)"
proof -
  have "utf8_valid ''1''" by code_simp
  then show ?thesis by (simp add: outputs_json_def demo_gw_def sample_gw_def demo_env_def)
qed

lemma compile_demo:
  "compile_program demo_gw (td_prelude (build cr (allowed_schemas en who))) p =
     Inr (td_prelude (build cr (allowed_schemas en who)) @ p)"
  by (simp add: compile_program_Inr) (simp add: demo_gw_def sample_gw_def)

text \<open>What the run sends: one transaction of 7 milli-ETH.\<close>

definition seven :: "string transaction" where
  "seven = \<lparr>tx_from = ''0x9'', tx_to = ''0x2'', tx_value = transfer_value 7\<rparr>"

lemma demo_dispatch:
  assumes "map fst (ds_clients ds) = [''market'', ''wallet'']" "ds_tools ds = demo_tools sample_chain ''0x9''"
    and run: "host_call_tool demo_gw demo_env (host_new ''demo-agent'' ds (demo_tools sample_chain ''0x9'') demo_policy, (0, []))
     ''wallet.transfer'' (STable []) = ((h', w'), r)"
  shows "w' = (1, [seven])"
proof -
  let ?req = "\<lparr>tq_name = ''transfer'', tq_arguments = Some [(''amount'', JNumber (PosInt 7)), (''to'', JString ''0x2'')]\<rparr>"
  let ?a = "JObject [(''amount'', JNumber (PosInt 7)), (''to'', JString ''0x2'')]"
  let ?h = "(host_new ''demo-agent'' ds (demo_tools sample_chain ''0x9'') demo_policy)\<lparr>gh_attestation := None\<rparr>"
  have args: "table_to_json demo_gw (he_serde demo_env) (STable []) = Inr ?a"
    by (simp add: table_to_json_def demo_gw_def sample_gw_def demo_env_def result_simps)
  obtain tool where tool: "List.find (\<lambda>t. qualified_name t = ''wallet.transfer'') (demo_tools sample_chain ''0x9'') = Some tool"
    by (simp add: demo_tools_def market_tools_def wallet_tools_def schema_of_def qualified_name_def)
  have allow: "policy_check (he_serde demo_env) demo_policy ''demo-agent'' ''wallet.transfer'' ?a = Allow"
    by code_simp
  have valid: "check_args (he_validate demo_env) tl a = Inr ()" for tl a by (simp add: check_args_def demo_env_def)
  have split: "split_once_char (CHR ''.'') ''wallet.transfer'' = Some (''wallet'', ''transfer'')" by code_simp
  have sent: "fst (wallet_transfer sample_ctors (watched sample_chain) ''0x9'' ?req (0, [])) = (1, [seven])"
    by (simp add: wallet_transfer_def wallet_address_def transfer_amount_def call_arg_def watched_def sample_chain_def
        starts_with_def seven_def)
  from assms(1) have known: "map_of (ds_clients ds) ''wallet'' \<noteq> None"
    by (simp add: map_of_eq_None_iff) (metis list.set_intros list.set_map)
  have listed: "list_ex (\<lambda>t. ts_server t = ''wallet'' \<and> ts_name t = ''transfer'') (ds_tools ds)"
    by (simp add: assms(2) demo_tools_def wallet_tools_def schema_of_def)
  from run have "host_dispatch demo_gw demo_env ''wallet.transfer'' ?a (?h, (0, [])) = ((h', w'), r)"
    using tool by (simp add: host_call_tool_def args valid host_new_def Let_def allow)
  then show ?thesis
    using sent known listed
    by (auto simp: host_dispatch_def downstream_call_def split host_new_def demo_env_def demo_call_def wallet_call_tool_def
        split: prod.splits sum.splits)
qed

text \<open>The deployment comes up on an empty disk.\<close>

lemma demo_up:
  obtains s en where
    "engine_new sample_crypto demo_from sample_io (demo_config d) bare_fs = (s, Inr en)"
    "store_ready (en_store en) s" "fs_files s = Map.empty" "fs_counter s = 0"
    "st_traces (en_store en) @ [''0a.json''] \<notin> set (fs_dirs s)"
    "en_policy en = demo_policy" "map fst (ds_clients (en_downstreams en)) = [''market'', ''wallet'']"
    "ds_tools (en_downstreams en) = demo_tools sample_chain ''0x9''"
    "allowed_schemas en ''demo-agent'' = demo_tools sample_chain ''0x9''"
proof -
  obtain s st where store: "store_open sample_io bare_fs [''traces''] = (s, Inr st)" "store_ready st s"
      "fs_files s = Map.empty" "fs_counter s = 0" "st_traces st @ [''0a.json''] \<notin> set (fs_dirs s)"
    using demo_store_opens by auto
  note up = demo_comes_up [where parse_key = "Inr" and signer_address = "\<lambda>_. ''0x9''" and url_error = "\<lambda>_. None"
      and ch = sample_chain and d = d
      and env = demo_vars and market_env = "[''MARKET_TOKEN'' \<mapsto> ''m'']",
      OF demo_vars(1) refl refl demo_vars(2) demo_market demo_vars(3) demo_key demo_vars(4) store(1)]
  from up store(2-) that show ?thesis by (auto simp: demo_from_def)
qed

lemma demo_executes:
  assumes "store_ready (en_store en) s" "fs_files s = Map.empty"
    and "st_traces (en_store en) @ [''0a.json''] \<notin> set (fs_dirs s)"
    and pol: "en_policy en = demo_policy" and ds: "map fst (ds_clients (en_downstreams en)) = [''market'', ''wallet'']"
    "ds_tools (en_downstreams en) = demo_tools sample_chain ''0x9''"
    and tools: "allowed_schemas en ''demo-agent'' = demo_tools sample_chain ''0x9''"
  shows "\<exists>s' resp. execute demo_gw sample_crypto sample_writer sample_io demo_env en ''0a'' ''demo-agent'' sample_request
     (s, (0, [])) = ((s', (1, [seven])), Inr resp)"
proof -
  have "\<exists>s' w' resp. execute demo_gw sample_crypto sample_writer sample_io demo_env en ''0a'' ''demo-agent'' sample_request
     (s, (0, [])) = ((s', w'), Inr resp)"
  proof (rule execute_succeeds [OF crypto_laws_sample io_quiet_sample assms(1) compile_demo])
    show "core_program_hash demo_gw (td_prelude (build sample_crypto (allowed_schemas en ''demo-agent'')) @ rq_program sample_request) \<noteq> []"
      by (simp add: demo_gw_def sample_gw_def pad_to_def)
    show "valid_key ''0a''" by code_simp
  qed (simp_all add: records_calls_demo outputs_json_demo assms)
  then obtain s' w' resp where run: "execute demo_gw sample_crypto sample_writer sample_io demo_env en ''0a'' ''demo-agent''
      sample_request (s, (0, [])) = ((s', w'), Inr resp)" by blast
  moreover from run have "w' = (1, [seven])"
  proof (rule execute_Inr)
    fix program s1 r1 s2 z
    let ?h = "host_new ''demo-agent'' (en_downstreams en) (demo_tools sample_chain ''0x9'') demo_policy"
    assume "run_program demo_gw demo_env en ''demo-agent'' (allowed_schemas en ''demo-agent'')
        (word_of_nat (count_char NL (td_prelude (build sample_crypto (allowed_schemas en ''demo-agent''))))) program (0, [])
        = (w', Inr z)"
    moreover obtain entries out status gas mem where "z = (entries, out, status, gas, mem)" by (cases z)
    ultimately obtain h tr res where
      "run_vm (host_call_tool demo_gw demo_env) host_take_attestation demo_run (?h, (0, [])) [] = ((h, w'), tr, res, gas, mem)"
      by (auto elim!: run_program_Inr simp: tools pol demo_gw_def)
    then show "w' = (1, [seven])"
      using demo_dispatch [OF ds]
      by (auto simp: demo_run_def host_take_attestation_def split: prod.splits sum.splits)
  qed
  ultimately show ?thesis by blast
qed

text \<open>The same execution among others: the only task of a race.\<close>

definition demo_tokens :: tokens where
  "demo_tokens = [(''demo-agent'', sha256 sample_crypto ''t'')]"

lemma demo_prelude_utf8: "utf8_valid (td_prelude (build cr (demo_tools sample_chain ''0x9'')))"
proof -
  have "utf8_valid (prelude_of (demo_tools sample_chain ''0x9''))"
    by (simp add: demo_tools_def market_tools_def wallet_tools_def schema_of_def) code_simp
  moreover have "sort_key qualified_name (demo_tools sample_chain ''0x9'') = demo_tools sample_chain ''0x9''"
    by (simp add: demo_tools_def market_tools_def wallet_tools_def schema_of_def qualified_name_def string_order_simps)
  ultimately show ?thesis by (simp add: build_def Let_def)
qed

lemma demo_races:
  assumes "store_ready (en_store en) s" "fs_files s = Map.empty" "fs_counter s = 0"
    and "st_traces (en_store en) @ [''0a.json''] \<notin> set (fs_dirs s)"
    and "en_policy en = demo_policy" "map fst (ds_clients (en_downstreams en)) = [''market'', ''wallet'']"
    and "ds_tools (en_downstreams en) = demo_tools sample_chain ''0x9''"
    and tools: "allowed_schemas en ''demo-agent'' = demo_tools sample_chain ''0x9''"
  shows "\<exists>s1 tasks. (racing_step demo_gw sample_crypto sample_writer demo_env demo_tokens en (io_pid sample_io))\<^sup>*\<^sup>*
     (s, (0, []), \<lambda>_. None) (s1, (1, [seven]), tasks)"
proof -
  let ?race = "racing_step demo_gw sample_crypto sample_writer demo_env demo_tokens en (io_pid sample_io)"
  obtain s1 resp where "execute demo_gw sample_crypto sample_writer sample_io demo_env en ''0a'' ''demo-agent'' sample_request
      (s, (0, [])) = ((s1, (1, [seven])), Inr resp)"
    using demo_executes [OF assms(1,2,4-8)] by blast
  then obtain n where n: "(fine_step demo_gw sample_crypto sample_writer sample_io demo_env en ''0a'' ''demo-agent''
      sample_request ^^ n) (s, (0, []), Between Arrived) = (s1, (1, [seven]), Between (Answered (Inr resp)))"
    unfolding fine_alone [symmetric] by blast
  have "utf8_valid (td_prelude (build sample_crypto (allowed_schemas en ''demo-agent'')) @ rq_program sample_request)"
    by (simp add: tools demo_prelude_utf8 utf8_valid_append sample_request_utf8)
  then have "?race (s, (0, []), Map.empty)
      (s, (0, []), [0 \<mapsto> (''0a'', ''demo-agent'', sample_request, Between Arrived)])"
    by (intro racing_step.Arrive) (simp_all add: demo_tokens_def)
  moreover have "?race\<^sup>*\<^sup>* (s, (0, []), [0 \<mapsto> (''0a'', ''demo-agent'', sample_request, Between Arrived)])
      (s1, (1, [seven]), [0 \<mapsto> (''0a'', ''demo-agent'', sample_request, Between (Answered (Inr resp)))])"
    by (rule fine_steps_race [OF n refl]) (simp add: assms(3))
  ultimately show ?thesis by (meson converse_rtranclp_into_rtranclp)
qed

end
