(* ===== verification/Demo_Client.thy ===== *)
theory Demo_Client
  imports Demo_Servers
begin

text \<open>
  \<open>demo/client/src/main.rs\<close>: the client that runs a program through the gateway or prints the description
  of its \<open>execute\<close> tool. The MCP client of rmcp is a parameter: \<open>send\<close> for a tool call, which takes and
  returns a state, and \<open>tools\<close> for the listing. Standard output is the returned text.
\<close>

definition TOKEN_VAR :: string where "TOKEN_VAR = ''DEMO_AGENT_TOKEN''"

definition client_connect ::
  "(string \<Rightarrow> string option) \<Rightarrow> (string \<Rightarrow> string \<Rightarrow> string + 'c) \<Rightarrow> string \<Rightarrow> string + 'c" where
  "client_connect env serve url =
     (case env TOKEN_VAR of
        None \<Rightarrow> Inl (TOKEN_VAR @ '' is not set; it is the gateway bearer token'')
      | Some token \<Rightarrow> serve url token)"

text \<open>The arguments of the call: \<open>args["request"] = ...\<close> is an assignment into an object.\<close>

definition client_args :: "string \<Rightarrow> string option \<Rightarrow> string + json" where
  "client_args program request =
     (let args = JObject [(''program'', JString program)]
      in case request of
           None \<Rightarrow> Inr args
         | Some r \<Rightarrow> index_assign args ''request'' (JString r))"

definition client_params :: "string \<Rightarrow> string option \<Rightarrow> string + tool_request" where
  "client_params program request =
     bind_r (client_args program request) (\<lambda>args.
       case as_object args of
         Some m \<Rightarrow> Inr \<lparr>tq_name = ''execute'', tq_arguments = Some m\<rparr>
       | None \<Rightarrow> Inl ''an object'')"

definition client_report :: "(json \<Rightarrow> string + string) \<Rightarrow> call_tool_result \<Rightarrow> string + string" where
  "client_report pretty r =
     (let text = concat (texts_of r)
      in if cr_is_error r = Some True then Inl text
         else pretty (case cr_structured r of Some v \<Rightarrow> v | None \<Rightarrow> JString text))"

definition client_execute ::
  "(json \<Rightarrow> string + string) \<Rightarrow> (tool_request \<Rightarrow> 's \<Rightarrow> 's \<times> (string + call_tool_result))
     \<Rightarrow> string \<Rightarrow> string option \<Rightarrow> 's \<Rightarrow> 's \<times> (string + string)" where
  "client_execute pretty send program request s =
     (case client_params program request of
        Inl p \<Rightarrow> (s, Inl p)
      | Inr params \<Rightarrow>
          (case send params s of
             (s', Inl e) \<Rightarrow> (s', Inl e)
           | (s', Inr r) \<Rightarrow> (s', client_report pretty r)))"

definition client_description :: "string + mcp_tool list \<Rightarrow> string + string" where
  "client_description tools =
     bind_r tools (\<lambda>ts.
       case List.find (\<lambda>t. mt_name t = ''execute'') ts of
         None \<Rightarrow> Inl ''the gateway exposes no `execute` tool''
       | Some t \<Rightarrow> Inr (case mt_description t of Some d \<Rightarrow> d | None \<Rightarrow> []))"

datatype client_command = ClientExecute path "string option" | ClientDescription

text \<open>\<open>main\<close>: the connection is closed after the command, also when it failed (but not when the program
  file cannot be read); \<open>cancel\<close> is the error of closing, if any.\<close>

definition client_main ::
  "(json \<Rightarrow> string + string) \<Rightarrow> (string \<Rightarrow> string option) \<Rightarrow> (string \<Rightarrow> string \<Rightarrow> string + 'c)
     \<Rightarrow> ('c \<Rightarrow> tool_request \<Rightarrow> 's \<Rightarrow> 's \<times> (string + call_tool_result)) \<Rightarrow> ('c \<Rightarrow> string + mcp_tool list)
     \<Rightarrow> (path \<Rightarrow> string + string) \<Rightarrow> ('c \<Rightarrow> string option) \<Rightarrow> string \<Rightarrow> client_command \<Rightarrow> 's \<Rightarrow> 's \<times> (string + string)" where
  "client_main pretty env serve send tools read cancel url cmd s =
     (case client_connect env serve url of
        Inl e \<Rightarrow> (s, Inl e)
      | Inr client \<Rightarrow>
          (let closed = (\<lambda>(s', result). (s', case cancel client of Some e \<Rightarrow> Inl e | None \<Rightarrow> result))
           in case cmd of
                ClientExecute file request \<Rightarrow>
                  (case read file of
                     Inl e \<Rightarrow> (s, Inl (path_display file @ '': '' @ e))
                   | Inr program \<Rightarrow> closed (client_execute pretty (send client) program request s))
              | ClientDescription \<Rightarrow> closed (s, client_description (tools client))))"

section \<open>The gateway at the other end\<close>

text \<open>A result on the wire, and the gateway's handler as the client's \<open>send\<close>.\<close>

definition wire_result :: "mcp_result \<Rightarrow> call_tool_result" where
  "wire_result r =
     \<lparr>cr_content = map TextBlock (mr_content r), cr_is_error = mr_is_error r, cr_structured = mr_structured r,
      cr_meta = None\<rparr>"

fun rpc_text :: "rpc_error \<Rightarrow> string" where
  "rpc_text (InvalidParams m) = m"
| "rpc_text (InternalError m) = m"
| "rpc_text (ResourceNotFound m) = m"

fun wire_outcome :: "outcome \<Rightarrow> string + call_tool_result" where
  "wire_outcome (Answer (Inr r)) = Inr (wire_result r)"
| "wire_outcome (Answer (Inl e)) = Inl (rpc_text e)"
| "wire_outcome (Panicked p) = Inl p"

definition to_gateway ::
  "('s \<Rightarrow> 's \<times> outcome) \<Rightarrow> 's \<Rightarrow> 's \<times> (string + call_tool_result)" where
  "to_gateway handler s = (case handler s of (s', out) \<Rightarrow> (s', wire_outcome out))"

section \<open>Facts\<close>

lemma client_params_args:
  "\<exists>m. client_params program request = Inr \<lparr>tq_name = ''execute'', tq_arguments = Some m\<rparr> \<and>
     execute_args m = Some \<lparr>rq_program = program, rq_session = None, rq_request = request\<rparr>"
  by (cases request)
    (auto simp: client_params_def client_args_def index_assign_def result_simps execute_args_def string_field_def
      option_field_def map_of_bt_insert less_char_def)

text \<open>A handler's answer to the client is a plain success exactly for a run that succeeded.\<close>

lemma client_report_success:
  assumes "rmcp_laws rm" "\<forall>v. pretty v = Inr (show_json v)"
    and "gateway_execute rm ex who req s = (s', out)"
  shows "(\<exists>r. wire_outcome out = Inr r \<and> client_report pretty r = Inr text) \<longleftrightarrow>
     (\<exists>resp. ex s who req = (s', Inr resp) \<and> rs_status resp = RunOk \<and> text = show_json (response_json resp))"
proof -
  obtain s1 res where run: "ex s who req = (s1, res)" by fastforce
  then have s1: "s1 = s'"
    using assms(3) by (auto simp: gateway_execute_def split: sum.splits execute_error.splits)
  show ?thesis
  proof (cases res)
    case (Inl e)
    with run assms show ?thesis
      by (cases e) (auto simp: gateway_execute_def client_report_def wire_result_def rmcp_laws_def)
  next
    case (Inr resp)
    with run s1 assms show ?thesis
      by (cases "rs_status resp") (auto simp: gateway_execute_def client_report_def wire_result_def rmcp_laws_def)
  qed
qed

section \<open>Properties\<close>

text \<open>C37: the client and the gateway understand each other. What the client sends is accepted by the
  gateway as exactly the program and the request text it was given, with no session; and the client
  prints a result, the response of the engine, exactly when the run succeeded. A lint error, a failed
  run, a store failure and a panic all end in an error.\<close>

theorem client_prints_successful_runs:
  assumes "rmcp_laws rm" and "\<forall>v. pretty v = Inr (show_json v)"
  shows "client_execute pretty (\<lambda>params. to_gateway (call_tool rm derr ex lint params (Some who))) program request s
       = (s', Inr printed) \<longleftrightarrow>
     (\<exists>resp. ex s who \<lparr>rq_program = program, rq_session = None, rq_request = request\<rparr> = (s', Inr resp) \<and>
        rs_status resp = RunOk \<and> printed = show_json (response_json resp))"
proof -
  let ?req = "\<lparr>rq_program = program, rq_session = None, rq_request = request\<rparr>"
  obtain m where m: "client_params program request = Inr \<lparr>tq_name = ''execute'', tq_arguments = Some m\<rparr>"
    "execute_args m = Some ?req"
    using client_params_args by blast
  obtain s1 out where h: "gateway_execute rm ex who ?req s = (s1, out)" by fastforce
  have "client_execute pretty (\<lambda>params. to_gateway (call_tool rm derr ex lint params (Some who))) program request s
      = (s1, bind_r (wire_outcome out) (client_report pretty))"
    using m h by (cases "wire_outcome out") (simp_all add: client_execute_def to_gateway_def call_tool_def request_principal_def Let_def)
  moreover have "bind_r (wire_outcome out) (client_report pretty) = Inr printed \<longleftrightarrow>
      (\<exists>r. wire_outcome out = Inr r \<and> client_report pretty r = Inr printed)"
    by (simp add: result_simps)
  moreover have "ex s who ?req = (s', x) \<Longrightarrow> s1 = s'" for x
    using h by (auto simp: gateway_execute_def split: sum.splits execute_error.splits)
  ultimately show ?thesis
    using client_report_success [OF assms h, of printed] by auto
qed

theorem client_prints_successful_runs_witness:
  "let rm = \<lparr>rm_success = (\<lambda>c. \<lparr>mr_content = c, mr_structured = None, mr_is_error = Some False\<rparr>),
             rm_error = (\<lambda>c. \<lparr>mr_content = c, mr_structured = None, mr_is_error = Some True\<rparr>),
             rm_structured = (\<lambda>v. \<lparr>mr_content = [], mr_structured = Some v, mr_is_error = Some False\<rparr>),
             rm_structured_error = (\<lambda>v. \<lparr>mr_content = [], mr_structured = Some v, mr_is_error = Some True\<rparr>)\<rparr>;
       ex = (\<lambda>n who req. (Suc n, Inr \<lparr>rs_result = Some JNull, rs_trace_id = ''0a'', rs_status = RunOk\<rparr>));
       send = (\<lambda>params. to_gateway (call_tool rm (\<lambda>_. []) ex (\<lambda>_ _. Inr ()) params (Some ''alice'')))
   in rmcp_laws rm \<and> client_execute (\<lambda>v. Inr ''{..}'') send ''return nil'' (Some ''pay'') 0 = (1, Inr ''{..}'')"
proof -
  let ?rm = "\<lparr>rm_success = (\<lambda>c. \<lparr>mr_content = c, mr_structured = None, mr_is_error = Some False\<rparr>),
             rm_error = (\<lambda>c. \<lparr>mr_content = c, mr_structured = None, mr_is_error = Some True\<rparr>),
             rm_structured = (\<lambda>v. \<lparr>mr_content = [], mr_structured = Some v, mr_is_error = Some False\<rparr>),
             rm_structured_error = (\<lambda>v. \<lparr>mr_content = [], mr_structured = Some v, mr_is_error = Some True\<rparr>)\<rparr>"
  let ?ex = "\<lambda>n who req. (Suc n, Inr \<lparr>rs_result = Some JNull, rs_trace_id = ''0a'', rs_status = RunOk\<rparr>)"
  have laws: "rmcp_laws ?rm" by (simp add: rmcp_laws_def)
  have pretty: "\<forall>v. (Inr ''{..}'' :: string + string) = Inr ((\<lambda>_. ''{..}'') (v :: json))" by simp
  from client_prints_successful_runs [OF laws pretty, of "\<lambda>_. []" ?ex "\<lambda>_ _. Inr ()" "''alice''" "''return nil''"
      "Some ''pay''" 0 1 "''{..}''"] laws
  show ?thesis by (simp add: Let_def)
qed

end
