(* ===== verification/Tests_Support.thy ===== *)
theory Tests_Support
  imports Sample_Instances
begin

text \<open>
  What the unit tests of the sources use besides the code under test: the compact text \<open>serde_json\<close>
  prints, and the methods a test calls on results. The theories \<open>Tests_*\<close> hold those tests, each as the
  boolean its assertions compute on the model: a test that passes there shows that the definitions give
  the answers, to the letter, that the authors expect of the code.
\<close>

section \<open>Compact JSON\<close>

text \<open>What \<open>serde_json\<close> prints: no spaces, and in strings the escapes of quote, backslash and control
  characters, which are those below 32.\<close>

definition escape_char :: "char \<Rightarrow> string" where
  "escape_char c =
     (if c = DQ then [CHR 0x5C, DQ]
      else if c = CHR 0x5C then [CHR 0x5C, CHR 0x5C]
      else if c = CHR 0x08 then [CHR 0x5C, CHR ''b'']
      else if c = CHR 0x09 then [CHR 0x5C, CHR ''t'']
      else if c = CHR 0x0A then [CHR 0x5C, CHR ''n'']
      else if c = CHR 0x0C then [CHR 0x5C, CHR ''f'']
      else if c = CHR 0x0D then [CHR 0x5C, CHR ''r'']
      else if \<not> digit5 c \<and> \<not> digit6 c \<and> \<not> digit7 c
      then [CHR 0x5C] @ ''u00'' @ [if digit4 c then CHR ''1'' else CHR ''0'', ''0123456789abcdef'' ! (of_char c mod 16)]
      else [c])"

definition quoted :: "string \<Rightarrow> string" where
  "quoted s = [DQ] @ concat (map escape_char s) @ [DQ]"

fun compact :: "json \<Rightarrow> string" where
  "compact JNull = ''null''"
| "compact (JBool b) = (if b then ''true'' else ''false'')"
| "compact (JNumber n) = number_text n"
| "compact (JString s) = quoted s"
| "compact (JArray xs) = ''['' @ join_with '','' (map compact xs) @ '']''"
| "compact (JObject m) = ''{'' @ join_with '','' (map (\<lambda>p. quoted (fst p) @ '':'' @ compact (snd p)) m) @ ''}''"

definition compact_serde :: serde where
  "compact_serde = \<lparr>json_text = compact, json_parse = (\<lambda>_. Inl ''not read'')\<rparr>"

abbreviation jint :: "int \<Rightarrow> json" where
  "jint i \<equiv> JNumber (if i < 0 then NegInt (word_of_int i) else PosInt (word_of_int i))"

text \<open>\<open>unwrap\<close> and \<open>unwrap_err\<close>, which a test only passes on the side they are for.\<close>

fun unwrap :: "'e + 'a \<Rightarrow> 'a" where
  "unwrap (Inr a) = a"

fun unwrap_err :: "'e + 'a \<Rightarrow> 'e" where
  "unwrap_err (Inl e) = e"

text \<open>A text with quotes, in which a grave accent stands for a quote and a tilde for an escaped one.\<close>

definition raw_text :: "string \<Rightarrow> string" where
  "raw_text s = concat (map (\<lambda>c. if c = CHR 0x60 then [DQ] else if c = CHR 0x7E then [CHR 0x5C, DQ] else [c]) s)"

text \<open>A string of lines, each with its line feed, and a TOML reader that knows some texts.\<close>

definition text_of_lines :: "string list \<Rightarrow> string" where
  "text_of_lines ls = concat (map (\<lambda>l. l @ [NL]) ls)"

definition known_toml :: "(string \<times> (string + 'a)) list \<Rightarrow> string \<Rightarrow> string + 'a" where
  "known_toml known txt = (case map_of known txt of Some r \<Rightarrow> r | None \<Rightarrow> Inl ''no such text'')"

text \<open>\<open>to_lowercase\<close>, on ASCII letters.\<close>

definition to_lowercase :: "string \<Rightarrow> string" where
  "to_lowercase s = map (\<lambda>c. if CHR ''A'' \<le> c \<and> c \<le> CHR ''Z'' then char_of (of_char c + 32 :: nat) else c) s"

lemma contains_str_end: "contains_str (a @ p) p"
proof (induction a)
  case Nil
  then show ?case by (cases p) (simp_all add: contains_str_def starts_with_def)
next
  case (Cons x a)
  then show ?case by (cases "split_once_str p (a @ p)") (auto simp: contains_str_def split: prod.splits option.splits)
qed

lemma contains_str_mid: "contains_str (a @ p @ b) p"
proof (induction a)
  case Nil
  then show ?case by (cases p; cases b) (simp_all add: contains_str_def starts_with_def)
next
  case (Cons x a)
  then show ?case by (cases "split_once_str p (a @ p @ b)") (auto simp: contains_str_def split: prod.splits option.splits)
qed

text \<open>The cryptography of the examples with another hash, for the tests that compare hashes.\<close>

definition hashing_with :: "(string \<Rightarrow> digest) \<Rightarrow> crypto" where
  "hashing_with h = sample_crypto\<lparr>sha256 := h\<rparr>"

lemma crypto_laws_hashing: "(\<And>s. length (h s) = 32) \<Longrightarrow> crypto_laws (hashing_with h)"
  using crypto_laws_sample by (simp add: crypto_laws_def hashing_with_def)

end
