(* ===== verification/Tests_Policy.thy ===== *)
theory Tests_Policy
  imports Policy_Rules Tests_Support
begin

text \<open>
  The unit tests of \<open>src/policy.rs\<close>, apart from the one that asks the TOML reader to refuse unknown keys.
\<close>

section \<open>The fixtures\<close>

definition policy_EXAMPLE :: string where
  "policy_EXAMPLE = text_of_lines
     [[], ''[principals.demo-agent]'',
      ''allow = ['' @ quoted ''wallet.get_balance'' @ '', '' @ quoted ''market.get_price'' @ '', ''
        @ quoted ''wallet.transfer'' @ '']'',
      [], ''[constraints.'' @ quoted ''wallet.transfer'' @ '']'', ''amount_max = 50'']"

definition policy_reordered :: string where
  "policy_reordered = text_of_lines
     [[], ''# the same policy, laid out differently'',
      ''[constraints.'' @ quoted ''wallet.transfer'' @ '']'', ''amount_max   =   50'',
      [], ''[principals.demo-agent]'', ''allow = ['',
      ''    '' @ quoted ''wallet.transfer'' @ '','', ''    '' @ quoted ''market.get_price'' @ '','',
      ''    '' @ quoted ''wallet.get_balance'' @ '','', '']'']"

definition policy_tighter :: string where
  "policy_tighter = text_of_lines
     [[], ''[principals.demo-agent]'',
      ''allow = ['' @ quoted ''wallet.get_balance'' @ '', '' @ quoted ''market.get_price'' @ '', ''
        @ quoted ''wallet.transfer'' @ '']'',
      [], ''[constraints.'' @ quoted ''wallet.transfer'' @ '']'', ''amount_max = 10'']"

definition policy_misnamed :: "string \<Rightarrow> string" where
  "policy_misnamed key = text_of_lines [''[constraints.'' @ quoted ''wallet.transfer'' @ '']'', key @ '' = 1'']"

definition policy_test_file :: "string list \<Rightarrow> i64 \<Rightarrow> policy_file_toml" where
  "policy_test_file allow mx =
     \<lparr>pf_principals = [(''demo-agent'', \<lparr>pf_allow = allow\<rparr>)],
      pf_constraints = [(''wallet.transfer'', [(''amount_max'', mx)])]\<rparr>"

definition policy_misnamed_file :: "string \<Rightarrow> policy_file_toml" where
  "policy_misnamed_file key = \<lparr>pf_principals = [], pf_constraints = [(''wallet.transfer'', [(key, 1)])]\<rparr>"

definition policy_toml :: "string \<Rightarrow> string + policy_file_toml" where
  "policy_toml = known_toml
     [(policy_EXAMPLE, Inr (policy_test_file [''wallet.get_balance'', ''market.get_price'', ''wallet.transfer''] 50)),
      (policy_reordered, Inr (policy_test_file [''wallet.transfer'', ''market.get_price'', ''wallet.get_balance''] 50)),
      (policy_tighter, Inr (policy_test_file [''wallet.get_balance'', ''market.get_price'', ''wallet.transfer''] 10)),
      (policy_misnamed ''amount_min'', Inr (policy_misnamed_file ''amount_min'')),
      (policy_misnamed ''_max'', Inr (policy_misnamed_file ''_max''))]"

definition policy_example :: policy where
  "policy_example = unwrap (policy_parse policy_toml policy_EXAMPLE)"

definition policy_test_check :: "policy \<Rightarrow> string \<Rightarrow> string \<Rightarrow> json \<Rightarrow> decision" where
  "policy_test_check p who tool args = policy_check compact_serde p who tool args"

fun policy_test_reason :: "decision \<Rightarrow> string" where
  "policy_test_reason (Deny reason) = reason"

section \<open>Loading\<close>

definition spec_example_loads_from_file :: bool where
  "spec_example_loads_from_file \<longleftrightarrow>
     (let p = unwrap (policy_load policy_toml (\<lambda>path. if path = [''policy.toml''] then Inr policy_EXAMPLE else Inl ''not found'')
                        [''policy.toml''])
      in allowed_tools p ''demo-agent'' = [''market.get_price'', ''wallet.get_balance'', ''wallet.transfer''] \<and>
         p = policy_example)"

definition unknown_principal_has_no_tools :: bool where
  "unknown_principal_has_no_tools \<longleftrightarrow> allowed_tools policy_example ''nobody'' = []"

definition constraint_without_max_suffix_is_rejected :: bool where
  "constraint_without_max_suffix_is_rejected \<longleftrightarrow>
     contains_str (unwrap_err (policy_parse policy_toml (policy_misnamed ''amount_min''))) ''amount_min'' \<and>
     \<not> is_ok (policy_parse policy_toml (policy_misnamed ''_max''))"

lemma policy_loading_tests:
  spec_example_loads_from_file unknown_principal_has_no_tools constraint_without_max_suffix_is_rejected
  by code_simp+

section \<open>Checking\<close>

definition amount_within_max_is_allowed :: bool where
  "amount_within_max_is_allowed \<longleftrightarrow>
     policy_test_check policy_example ''demo-agent'' ''wallet.transfer''
       (JObject [(''amount'', jint 20), (''to'', JString ''0x1'')]) = Allow"

definition amount_equal_to_max_is_allowed :: bool where
  "amount_equal_to_max_is_allowed \<longleftrightarrow>
     policy_test_check policy_example ''demo-agent'' ''wallet.transfer'' (JObject [(''amount'', jint 50)]) = Allow"

definition unconstrained_allowed_tool_is_allowed :: bool where
  "unconstrained_allowed_tool_is_allowed \<longleftrightarrow>
     policy_test_check policy_example ''demo-agent'' ''market.get_price'' (JObject [(''symbol'', JString ''ETH'')]) = Allow"

definition amount_over_max_is_denied :: bool where
  "amount_over_max_is_denied \<longleftrightarrow>
     policy_test_reason (policy_test_check policy_example ''demo-agent'' ''wallet.transfer''
       (JObject [(''amount'', jint 60), (''to'', JString ''0x1'')])) =
     ''wallet.transfer: amount 60 exceeds amount_max 50''"

definition disallowed_tool_is_denied :: bool where
  "disallowed_tool_is_denied \<longleftrightarrow>
     policy_test_reason (policy_test_check policy_example ''demo-agent'' ''wallet.drain'' (JObject [])) =
     ''wallet.drain is not allowed for principal demo-agent''"

definition unknown_principal_is_denied :: bool where
  "unknown_principal_is_denied \<longleftrightarrow>
     policy_test_reason (policy_test_check policy_example ''intruder'' ''wallet.get_balance'' (JObject [])) =
     ''unknown principal intruder''"

definition missing_constrained_argument_is_denied :: bool where
  "missing_constrained_argument_is_denied \<longleftrightarrow>
     policy_test_reason (policy_test_check policy_example ''demo-agent'' ''wallet.transfer''
       (JObject [(''to'', JString ''0x1'')])) =
     ''wallet.transfer: amount is required by amount_max''"

definition non_integer_constrained_argument_is_denied :: bool where
  "non_integer_constrained_argument_is_denied \<longleftrightarrow>
     list_all (\<lambda>amount. contains_str
         (policy_test_reason (policy_test_check policy_example ''demo-agent'' ''wallet.transfer'' (JObject [(''amount'', amount)])))
         ''is not an integer'')
       [JNumber (Float ''20.5''), JString ''20'']"

definition u64_beyond_i64_is_denied :: bool where
  "u64_beyond_i64_is_denied \<longleftrightarrow>
     contains_str (policy_test_reason (policy_test_check policy_example ''demo-agent'' ''wallet.transfer''
       (JObject [(''amount'', JNumber (PosInt 18446744073709551615))]))) ''exceeds amount_max 50''"

lemma policy_checking_tests:
  amount_within_max_is_allowed amount_equal_to_max_is_allowed unconstrained_allowed_tool_is_allowed
  amount_over_max_is_denied disallowed_tool_is_denied unknown_principal_is_denied
  missing_constrained_argument_is_denied non_integer_constrained_argument_is_denied
  by code_simp+

lemma policy_checking_u64: u64_beyond_i64_is_denied
proof -
  have p: "policy_example = \<lparr>pol_principals = [(''demo-agent'', [''market.get_price'', ''wallet.get_balance'', ''wallet.transfer''])],
      pol_constraints = [(''wallet.transfer'', [(''amount'', 50)])]\<rparr>" by code_simp
  have "show_int 50 = ''50''" by code_simp
  then show ?thesis
    by (simp add: u64_beyond_i64_is_denied_def p policy_test_check_def policy_check_def compact_serde_def
        show_nat.simps digit_char_def contains_str_def starts_with_def)
qed

section \<open>Hashing\<close>

definition hash_ignores_reordering_and_formatting :: "crypto \<Rightarrow> bool" where
  "hash_ignores_reordering_and_formatting cr \<longleftrightarrow>
     policy_hash cr compact_serde policy_example =
     policy_hash cr compact_serde (unwrap (policy_parse policy_toml policy_reordered))"

definition hash_changes_when_amount_max_changes :: "crypto \<Rightarrow> bool" where
  "hash_changes_when_amount_max_changes cr \<longleftrightarrow>
     policy_hash cr compact_serde policy_example \<noteq>
     policy_hash cr compact_serde (unwrap (policy_parse policy_toml policy_tighter))"

text \<open>The first passes whatever the hash, the second for a hash that tells the two texts apart.\<close>

lemma policy_hash_ignores: "hash_ignores_reordering_and_formatting cr"
proof -
  have "policy_example = unwrap (policy_parse policy_toml policy_reordered)" by code_simp
  then show ?thesis by (simp add: hash_ignores_reordering_and_formatting_def)
qed

lemma policy_hash_changes:
  assumes "inj_on (sha256 cr) (json_text compact_serde ` policy_json `
     {policy_example, unwrap (policy_parse policy_toml policy_tighter)})"
  shows "hash_changes_when_amount_max_changes cr"
proof -
  have "json_text compact_serde (policy_json policy_example) \<noteq>
      json_text compact_serde (policy_json (unwrap (policy_parse policy_toml policy_tighter)))" by code_simp
  with assms show ?thesis by (auto simp: hash_changes_when_amount_max_changes_def policy_hash_def dest: inj_onD)
qed

end
