(* ===== verification/Tests_Description.thy ===== *)
theory Tests_Description
  imports Tool_Description Tests_Support
begin

text \<open>
  The unit tests of \<open>src/description.rs\<close>, apart from the two that search the whole text.
\<close>

section \<open>The fixtures\<close>

definition description_schema :: "string \<Rightarrow> string \<Rightarrow> json \<Rightarrow> json option \<Rightarrow> tool_schema" where
  "description_schema server name input out =
     \<lparr>ts_server = server, ts_name = name, ts_description = ''Tool '' @ name, ts_input_schema = input,
      ts_output_schema = out\<rparr>"

text \<open>An object schema as \<open>json!\<close> builds it, its keys in order.\<close>

definition object_of :: "(string \<times> string) list \<Rightarrow> string list \<Rightarrow> json" where
  "object_of properties required =
     JObject [(''properties'', JObject (bt_of_list (map (\<lambda>(n, ty). (n, JObject [(''type'', JString ty)])) properties))),
              (''required'', JArray (map JString required)), (''type'', JString ''object'')]"

definition description_tools :: "tool_schema list" where
  "description_tools =
     [description_schema ''wallet'' ''transfer''
        (object_of [(''to'', ''string''), (''amount'', ''integer''), (''memo'', ''string'')] [''amount'', ''to'']) None,
      description_schema ''market'' ''get_price'' (object_of [(''pair'', ''string'')] [''pair''])
        (Some (JObject [(''properties'', JObject [(''price'', JObject [(''type'', JString ''number'')])]),
                        (''type'', JString ''object'')])),
      description_schema ''wallet'' ''balance'' (JObject [(''type'', JString ''object'')]) None]"

definition description_changed :: "tool_schema list" where
  "description_changed =
     (let t = hd description_tools
      in t\<lparr>ts_input_schema :=
             object_of [(''to'', ''string''), (''amount'', ''string''), (''memo'', ''string'')] [''amount'', ''to'']\<rparr>
         # tl description_tools)"

section \<open>The whole description\<close>

definition build_is_identical_for_shuffled_input :: "crypto \<Rightarrow> bool" where
  "build_is_identical_for_shuffled_input cr \<longleftrightarrow>
     build cr description_tools = build cr (rev description_tools) \<and>
     build cr description_tools = build cr (rotate 1 description_tools)"

definition hash_is_sha256_of_text :: "crypto \<Rightarrow> bool" where
  "hash_is_sha256_of_text cr \<longleftrightarrow>
     (let d = build cr description_tools in td_hash d = sha256 cr (td_text d))"

definition hash_changes_when_a_property_changes :: "crypto \<Rightarrow> bool" where
  "hash_changes_when_a_property_changes cr \<longleftrightarrow>
     td_hash (build cr description_tools) \<noteq> td_hash (build cr description_changed)"

definition hash_changes_when_a_tool_is_removed :: "crypto \<Rightarrow> bool" where
  "hash_changes_when_a_tool_is_removed cr \<longleftrightarrow>
     td_hash (build cr description_tools) \<noteq> td_hash (build cr (butlast description_tools))"

definition prelude_declares_servers_then_tools_sorted :: "crypto \<Rightarrow> bool" where
  "prelude_declares_servers_then_tools_sorted cr \<longleftrightarrow>
     td_prelude (build cr description_tools) = text_of_lines
       [''local market = {}'', ''local wallet = {}'',
        ''market.get_price = function(args) return tool.call('' @ quoted ''market.get_price'' @ '', args) end'',
        ''wallet.balance = function(args) return tool.call('' @ quoted ''wallet.balance'' @ '', args) end'',
        ''wallet.transfer = function(args) return tool.call('' @ quoted ''wallet.transfer'' @ '', args) end'']"

lemma description_shuffled_test: "build_is_identical_for_shuffled_input cr"
proof -
  have "inj_on qualified_name (set description_tools)" by code_simp
  moreover have "mset description_tools = mset (rotate 1 description_tools)" by (simp add: description_tools_def)
  ultimately show ?thesis
    by (auto simp: build_is_identical_for_shuffled_input_def intro!: build_perm)
qed

lemma description_hash_test: "hash_is_sha256_of_text cr"
  by (simp add: hash_is_sha256_of_text_def build_def Let_def)

text \<open>These pass for a hash that tells the texts apart.\<close>

lemma build_hash_differs:
  assumes "concat (map render_tool (sort_key qualified_name a)) \<noteq> concat (map render_tool (sort_key qualified_name b))"
    and "a \<noteq> []" "b \<noteq> []" and "inj_on (sha256 cr) {td_text (build cr a), td_text (build cr b)}"
  shows "td_hash (build cr a) \<noteq> td_hash (build cr b)"
proof -
  have none: "sort_key qualified_name a \<noteq> []" "sort_key qualified_name b \<noteq> []"
    using assms(2,3) by (metis length_sort length_0_conv)+
  have "td_text (build cr a) \<noteq> td_text (build cr b)" using assms(1) none by (simp add: build_def Let_def)
  moreover have "td_hash (build cr ts) = sha256 cr (td_text (build cr ts))" for ts by (simp add: build_def Let_def)
  ultimately show ?thesis using assms(4) by (simp add: inj_on_def)
qed

lemma description_texts:
  "concat (map render_tool (sort_key qualified_name description_tools)) \<noteq>
     concat (map render_tool (sort_key qualified_name description_changed))"
  "concat (map render_tool (sort_key qualified_name description_tools)) \<noteq>
     concat (map render_tool (sort_key qualified_name (butlast description_tools)))"
  "description_tools \<noteq> []" "description_changed \<noteq> []" "butlast description_tools \<noteq> []"
  by code_simp+

lemma description_hash_changes:
  "inj_on (sha256 cr) {td_text (build cr description_tools), td_text (build cr description_changed)} \<Longrightarrow>
     hash_changes_when_a_property_changes cr"
  "inj_on (sha256 cr) {td_text (build cr description_tools), td_text (build cr (butlast description_tools))} \<Longrightarrow>
     hash_changes_when_a_tool_is_removed cr"
  unfolding hash_changes_when_a_property_changes_def hash_changes_when_a_tool_is_removed_def
  by (rule build_hash_differs [OF description_texts(1,3,4)], assumption)
    (rule build_hash_differs [OF description_texts(2,3,5)], assumption)

lemma description_prelude_test: "prelude_declares_servers_then_tools_sorted cr"
proof -
  have "prelude_of (sort_key qualified_name description_tools) = text_of_lines
       [''local market = {}'', ''local wallet = {}'',
        ''market.get_price = function(args) return tool.call('' @ quoted ''market.get_price'' @ '', args) end'',
        ''wallet.balance = function(args) return tool.call('' @ quoted ''wallet.balance'' @ '', args) end'',
        ''wallet.transfer = function(args) return tool.call('' @ quoted ''wallet.transfer'' @ '', args) end'']"
    by code_simp
  then show ?thesis by (simp add: prelude_declares_servers_then_tools_sorted_def build_def Let_def)
qed

section \<open>Rendering\<close>

definition renders_the_spec_place_order_example :: bool where
  "renders_the_spec_place_order_example \<longleftrightarrow>
     (let tool = \<lparr>ts_server = ''market'', ts_name = ''place_order'', ts_description = ''Place a limit order'',
                  ts_input_schema = object_of [(''size'', ''integer''), (''price'', ''string''), (''pair'', ''string'')]
                    [''pair'', ''size'', ''price''],
                  ts_output_schema = Some (JObject
                    [(''properties'', JObject [(''order_id'', JObject []), (''status'', JObject [])]),
                     (''type'', JString ''object'')])\<rparr>
      in render_tool tool = text_of_lines
           [''-- Place a limit order. Returns { order_id, status }.'',
            ''market.place_order{ pair: string, price: string, size: integer } -> table''])"

definition a_schema_with_a_destination_and_no_source_says_so :: bool where
  "a_schema_with_a_destination_and_no_source_says_so \<longleftrightarrow>
     contains_str
       (render_tool (description_schema ''wallet'' ''transfer''
          (object_of [(''to'', ''string''), (''amount'', ''integer'')] [''to'', ''amount'']) None))
       (''There is no `from` argument: the account this acts as is fixed by the gateway'' @ [CHR 0x27] @ ''s credential.'')"

definition a_schema_with_both_ends_or_neither_says_nothing :: bool where
  "a_schema_with_both_ends_or_neither_says_nothing \<longleftrightarrow>
     \<not> contains_str
         (render_tool (description_schema ''ledger'' ''move''
            (object_of [(''to'', ''string''), (''from'', ''string'')] [''to'', ''from'']) None)) ''There is no'' \<and>
     \<not> contains_str
         (render_tool (description_schema ''market'' ''get_price'' (object_of [(''pair'', ''string'')] [''pair'']) None))
         ''There is no''"

definition renders_optional_and_typed_properties :: bool where
  "renders_optional_and_typed_properties \<longleftrightarrow>
     map render_tool (sort_key qualified_name description_tools) =
       [text_of_lines
          [''-- Tool get_price. Returns { price: integer|string(decimal) }.'',
           ''market.get_price{ pair: string } -> table''],
        text_of_lines [''-- Tool balance. Returns table.'', ''wallet.balance{} -> table''],
        text_of_lines
          [''-- Tool transfer. Returns table. There is no `from` argument: the account ''
             @ ''this acts as is fixed by the gateway'' @ [CHR 0x27] @ ''s credential.'',
           ''wallet.transfer{ amount: integer, memo?: string, to: string } -> table'']]"

definition argument_types_map_from_json_schema :: bool where
  "argument_types_map_from_json_schema \<longleftrightarrow>
     contains_str
       (render_tool (description_schema ''s'' ''t''
          (object_of [(''a'', ''number''), (''b'', ''boolean''), (''c'', ''array''), (''d'', ''object'')]
             [''a'', ''b'', ''c'', ''d'']) None))
       ''s.t{ a: integer, b: boolean, c: {...}, d: table } -> table''"

lemma description_rendering_tests:
  renders_the_spec_place_order_example a_schema_with_a_destination_and_no_source_says_so
  a_schema_with_both_ends_or_neither_says_nothing renders_optional_and_typed_properties
  argument_types_map_from_json_schema
  by code_simp+

end
