(* ===== verification/Tests_Trace.thy ===== *)
theory Tests_Trace
  imports Tests_Support "HOL-Library.Code_Target_Nat"
begin

text \<open>
  The unit tests of \<open>src/trace.rs\<close>, apart from the one that reads a trace back from JSON and the one that
  pins an Ed25519 signature.
\<close>

section \<open>The fixtures\<close>

text \<open>The trace the source's tests share, with one successful call and one denied by policy.\<close>

definition trace_fixture :: trace where
  "trace_fixture =
     \<lparr>tr_header =
        \<lparr>trace_id = ''0190'', th_session = Some ''s1'', th_principal = ''demo-agent'',
         program_hash = replicate 64 (CHR ''0''), gateway_policy_hash = replicate 64 (CHR ''1''),
         description_hash = replicate 64 (CHR ''2''), vm_version = ''0.2.0'',
         th_vm_config = \<lparr>gas_limit = 2000000, memory_limit_bytes = 16777216, max_call_depth = 64, max_tool_calls = 64,
           max_tool_bytes_in = 4096, max_tool_bytes_out = 4096, max_output_bytes = 4096\<rparr>,
         th_request = None\<rparr>,
      tr_entries =
        [\<lparr>te_record =
            \<lparr>seq = 0, tool_name = ''market.get_price'', args_canonical = compact (JObject [(''a'', JString ''E'')]),
             args_bytes = 9, response_hash = replicate 64 (CHR ''3''), response_bytes = 7,
             response_canonical = compact (JObject [(''p'', JNumber (PosInt 7))]), error_message = [],
             rec_attestation = [CHR 0x01, CHR 0x02], gas_charged = 10, rec_status = CallOk\<rparr>,
          te_decision = Allowed, te_provenance = Unsigned\<rparr>,
         \<lparr>te_record =
            \<lparr>seq = 1, tool_name = ''wallet.transfer'', args_canonical = compact (JObject [(''n'', JNumber (PosInt 60))]),
             args_bytes = 8, response_hash = [], response_bytes = 0, response_canonical = [],
             error_message = ''amount exceeds 50'', rec_attestation = [], gas_charged = 0, rec_status = CallError\<rparr>,
          te_decision = DeniedByPolicy ''amount exceeds 50'', te_provenance = Unsigned\<rparr>],
      tr_footer =
        \<lparr>tf_output = None, tf_status = RunError ''runtime'' ''amount exceeds 50'', tf_gas_used = 1234,
         tf_memory_used = 5678, tf_signature = []\<rparr>\<rparr>"

text \<open>A call record as the pinned text shows it, and the writer the tests use.\<close>

definition pinned_record_json :: "tool_call_record \<Rightarrow> json" where
  "pinned_record_json r =
     JObject [(''seq'', u64_json (seq r)), (''tool_name'', JString (tool_name r)),
              (''args_canonical'', JString (args_canonical r)), (''args_bytes'', u64_json (args_bytes r)),
              (''response_hash'', JString (response_hash r)), (''response_bytes'', u64_json (response_bytes r)),
              (''response_canonical'', JString (response_canonical r)), (''error_message'', JString (error_message r)),
              (''attestation'', JString (hex_enc (map (\<lambda>c. word_of_nat (of_char c)) (rec_attestation r)))),
              (''gas_charged'', u64_json (gas_charged r)),
              (''status'', JString (case rec_status r of CallOk \<Rightarrow> ''Ok'' | CallError \<Rightarrow> ''Error''))]"

definition pinned_writer :: trace_writer where
  "pinned_writer = \<lparr>tw_record_json = pinned_record_json, tw_text = compact\<rparr>"

text \<open>The pinned text.\<close>

definition trace_PINNED_JSON :: string where
  "trace_PINNED_JSON = raw_text (concat
     [''{`header`:{`trace_id`:`0190`,`session`:`s1`,`principal`:`demo-agent`,'',
      ''`program_hash`:`0000000000000000000000000000000000000000000000000000000000000000`,'',
      ''`gateway_policy_hash`:`1111111111111111111111111111111111111111111111111111111111111111`,'',
      ''`description_hash`:`2222222222222222222222222222222222222222222222222222222222222222`,'',
      ''`vm_version`:`0.2.0`,'',
      ''`vm_config`:{`gas_limit`:2000000,`memory_limit_bytes`:16777216,`max_call_depth`:64,'',
      ''`max_tool_calls`:64,`max_tool_bytes_in`:4096,`max_tool_bytes_out`:4096,'',
      ''`max_output_bytes`:4096},`request`:null},'',
      ''`entries`:[{`record`:{`seq`:0,`tool_name`:`market.get_price`,'',
      ''`args_canonical`:`{~a~:~E~}`,`args_bytes`:9,'',
      ''`response_hash`:`3333333333333333333333333333333333333333333333333333333333333333`,'',
      ''`response_bytes`:7,`response_canonical`:`{~p~:7}`,'',
      ''`error_message`:``,`attestation`:`0102`,`gas_charged`:10,`status`:`Ok`},'',
      ''`decision`:{`type`:`allowed`},`provenance`:{`type`:`unsigned`}},'',
      ''{`record`:{`seq`:1,`tool_name`:`wallet.transfer`,'',
      ''`args_canonical`:`{~n~:60}`,`args_bytes`:8,'',
      ''`response_hash`:``,`response_bytes`:0,`response_canonical`:``,'',
      ''`error_message`:`amount exceeds 50`,`attestation`:``,`gas_charged`:0,`status`:`Error`},'',
      ''`decision`:{`type`:`denied_by_policy`,`reason`:`amount exceeds 50`},'',
      ''`provenance`:{`type`:`unsigned`}}],'',
      ''`footer`:{`output`:null,'',
      ''`status`:{`type`:`error`,`kind`:`runtime`,`message`:`amount exceeds 50`},'',
      ''`gas_used`:1234,`memory_used`:5678,`signature`:``}}''])"

definition json_serialization_is_pinned :: bool where
  "json_serialization_is_pinned \<longleftrightarrow> trace_text pinned_writer trace_fixture = trace_PINNED_JSON"

lemma trace_pinned_test: json_serialization_is_pinned
  by code_simp

section \<open>Signing\<close>

text \<open>The key whose 32 bytes are all the given one.\<close>

definition byte_key :: "u8 \<Rightarrow> u8 list" where
  "byte_key b = replicate 32 b"

definition signature_covers_sha256_of_json_with_empty_signature :: "crypto \<Rightarrow> trace_writer \<Rightarrow> bool" where
  "signature_covers_sha256_of_json_with_empty_signature cr tw \<longleftrightarrow>
     (let d = sha256 cr (trace_text tw trace_fixture);
          t = trace_sign cr tw (byte_key 7) trace_fixture;
          expected = ed_sign cr (byte_key 7) d
      in tf_signature (tr_footer t) = hex_encode cr expected \<and>
         length (tf_signature (tr_footer t)) = 128 \<and>
         tf_signature (tr_footer t) = to_lowercase (tf_signature (tr_footer t)))"

definition sign_then_verify_succeeds :: "crypto \<Rightarrow> trace_writer \<Rightarrow> bool" where
  "sign_then_verify_succeeds cr tw \<longleftrightarrow>
     trace_verify cr tw (ed_verifying_key cr (byte_key 7)) (trace_sign cr tw (byte_key 7) trace_fixture)
       = Inr ()"

definition resigning_a_signed_trace_gives_the_same_signature :: "crypto \<Rightarrow> trace_writer \<Rightarrow> bool" where
  "resigning_a_signed_trace_gives_the_same_signature cr tw \<longleftrightarrow>
     (let t = trace_sign cr tw (byte_key 7) trace_fixture
      in tf_signature (tr_footer (trace_sign cr tw (byte_key 7) t)) = tf_signature (tr_footer t))"

lemma fixture_unsigned: "set_signature [] trace_fixture = trace_fixture"
  by (simp add: set_signature_def trace_fixture_def)

lemma lower_hex_lowercase: "list_all is_lower_hex s \<Longrightarrow> to_lowercase s = s"
  by (induction s) (auto simp: to_lowercase_def is_lower_hex_def is_ascii_digit_def less_eq_char_def)

lemma trace_signing_tests:
  assumes "crypto_laws cr"
  shows "signature_covers_sha256_of_json_with_empty_signature cr tw" "sign_then_verify_succeeds cr tw"
    "resigning_a_signed_trace_gives_the_same_signature cr tw"
proof -
  have "length (hex_encode cr (ed_sign cr k m)) = 128" "list_all is_lower_hex (hex_encode cr bs)" for k m bs
    using assms by (simp_all add: crypto_laws_def)
  then show "signature_covers_sha256_of_json_with_empty_signature cr tw"
    by (simp add: signature_covers_sha256_of_json_with_empty_signature_def Let_def trace_sign_def trace_digest_def
        fixture_unsigned lower_hex_lowercase)
  show "sign_then_verify_succeeds cr tw" using assms by (simp add: sign_then_verify_succeeds_def trace_verify_signed)
  show "resigning_a_signed_trace_gives_the_same_signature cr tw"
    by (simp add: resigning_a_signed_trace_gives_the_same_signature_def Let_def trace_sign_idem)
qed

section \<open>Tampering\<close>

definition assert_tamper_detected :: "crypto \<Rightarrow> trace_writer \<Rightarrow> (trace \<Rightarrow> trace) \<Rightarrow> bool" where
  "assert_tamper_detected cr tw tamper \<longleftrightarrow>
     trace_verify cr tw (ed_verifying_key cr (byte_key 7))
       (tamper (trace_sign cr tw (byte_key 7) trace_fixture)) = Inl SignatureMismatch"

definition tamper_output :: "trace \<Rightarrow> trace" where
  "tamper_output t = t\<lparr>tr_footer := (tr_footer t)\<lparr>tf_output := Some ''1''\<rparr>\<rparr>"

definition tamper_response :: "trace \<Rightarrow> trace" where
  "tamper_response t = t\<lparr>tr_entries :=
     (case tr_entries t of
        e # es \<Rightarrow> e\<lparr>te_record := (te_record e)\<lparr>response_canonical := compact (JObject [(''p'', JNumber (PosInt 8))])\<rparr>\<rparr> # es
      | [] \<Rightarrow> [])\<rparr>"

definition tamper_gas_limit :: "trace \<Rightarrow> trace" where
  "tamper_gas_limit t = t\<lparr>tr_header := (tr_header t)\<lparr>th_vm_config :=
     (th_vm_config (tr_header t))\<lparr>gas_limit := gas_limit (th_vm_config (tr_header t)) + 1\<rparr>\<rparr>\<rparr>"

definition verify_fails_after_changing_output :: "crypto \<Rightarrow> trace_writer \<Rightarrow> bool" where
  "verify_fails_after_changing_output cr tw \<longleftrightarrow> assert_tamper_detected cr tw tamper_output"

definition verify_fails_after_changing_response_canonical :: "crypto \<Rightarrow> trace_writer \<Rightarrow> bool" where
  "verify_fails_after_changing_response_canonical cr tw \<longleftrightarrow> assert_tamper_detected cr tw tamper_response"

definition verify_fails_after_changing_gas_limit :: "crypto \<Rightarrow> trace_writer \<Rightarrow> bool" where
  "verify_fails_after_changing_gas_limit cr tw \<longleftrightarrow> assert_tamper_detected cr tw tamper_gas_limit"

definition verify_fails_with_a_different_key :: "crypto \<Rightarrow> trace_writer \<Rightarrow> bool" where
  "verify_fails_with_a_different_key cr tw \<longleftrightarrow>
     trace_verify cr tw (ed_verifying_key cr (byte_key 8)) (trace_sign cr tw (byte_key 7) trace_fixture)
       = Inl SignatureMismatch"

text \<open>These pass with the signature scheme of the examples, any faithful writer, and any hash that tells the
  texts of the changed traces apart.\<close>

lemma sample_sign_inj:
  assumes "length (m :: digest) = 32" "length m' = 32" "sample_sign (byte_key k) m = sample_sign (byte_key k') m'"
  shows "k = k' \<and> m = m'"
proof -
  have pad: "pad_to 64 (pad_to 32 (byte_key k) @ m) = byte_key k @ m" if "length m = 32" for k and m :: digest
    using that by (simp add: pad_to_def byte_key_def)
  have "byte_key k @ m = byte_key k' @ m'" using assms by (simp add: sample_sign_def pad)
  then show ?thesis by (simp add: byte_key_def)
qed

lemma hashing_with_simps:
  "ed_sign (hashing_with h) = sample_sign" "ed_verifying_key (hashing_with h) = (\<lambda>k. k)"
  "ed_verify_strict (hashing_with h) = (\<lambda>k m sig. sig = sample_sign k m)" "sha256 (hashing_with h) = h"
  by (simp_all add: hashing_with_def sample_crypto_def)

lemma hashing_with_hex:
  "hex_decode_to_slice (hashing_with h) 64 (hex_encode (hashing_with h) (sample_sign k m)) = Some (sample_sign k m)"
proof -
  have "hex_decode_to_slice sample_crypto (length bs) (hex_encode sample_crypto bs) = Some bs" for bs
    using crypto_laws_sample unfolding crypto_laws_def by blast
  from this [of "sample_sign k m"] show ?thesis by (simp add: hashing_with_def sample_sign_def)
qed

lemma tampered_detected:
  assumes h: "\<And>s. length (h s) = 32" "inj_on h {trace_text tw trace_fixture, trace_text tw (tamper trace_fixture)}"
    and "writer_faithful tw" "tamper trace_fixture \<noteq> trace_fixture"
    and tamper: "\<And>sig. tamper (set_signature sig trace_fixture) = set_signature sig (tamper trace_fixture)"
      "set_signature [] (tamper trace_fixture) = tamper trace_fixture"
  shows "assert_tamper_detected (hashing_with h) tw tamper"
proof -
  have "trace_text tw (tamper trace_fixture) \<noteq> trace_text tw trace_fixture" using assms(3,4) by (simp add: trace_text_inj)
  then have "h (trace_text tw (tamper trace_fixture)) \<noteq> h (trace_text tw trace_fixture)"
    using h(2) by (auto dest: inj_onD)
  then have "sample_sign (byte_key 7) (h (trace_text tw trace_fixture)) \<noteq>
      sample_sign (byte_key 7) (h (trace_text tw (tamper trace_fixture)))"
    using sample_sign_inj [OF h(1) h(1)] by metis
  then show ?thesis
    using tamper
    by (simp add: assert_tamper_detected_def trace_verify_def trace_digest_def trace_sign_def Let_def fixture_unsigned
        hashing_with_simps hashing_with_hex)
qed

lemma trace_tampering_tests:
  assumes "\<And>s. length (h s) = 32" and "writer_faithful tw"
    and "inj_on h (trace_text tw ` {trace_fixture, tamper_output trace_fixture, tamper_response trace_fixture,
           tamper_gas_limit trace_fixture})"
  shows "verify_fails_after_changing_output (hashing_with h) tw"
    and "verify_fails_after_changing_response_canonical (hashing_with h) tw"
    and "verify_fails_after_changing_gas_limit (hashing_with h) tw"
    and "verify_fails_with_a_different_key (hashing_with h) tw"
proof -
  note apart = inj_on_subset [OF assms(3)]
  have differ: "tamper_output trace_fixture \<noteq> trace_fixture" "tamper_response trace_fixture \<noteq> trace_fixture"
    "tamper_gas_limit trace_fixture \<noteq> trace_fixture"
    by (simp_all add: tamper_output_def tamper_response_def tamper_gas_limit_def trace_fixture_def quoted_def show_nat.simps
        digit_char_def)
  note tampers = tamper_output_def tamper_response_def tamper_gas_limit_def set_signature_def trace_fixture_def
  show "verify_fails_after_changing_output (hashing_with h) tw" unfolding verify_fails_after_changing_output_def
    by (rule tampered_detected [where tamper = tamper_output, OF assms(1) apart assms(2) differ(1)]) (auto simp: tampers)
  show "verify_fails_after_changing_response_canonical (hashing_with h) tw"
    unfolding verify_fails_after_changing_response_canonical_def
    by (rule tampered_detected [where tamper = tamper_response, OF assms(1) apart assms(2) differ(2)]) (auto simp: tampers)
  show "verify_fails_after_changing_gas_limit (hashing_with h) tw" unfolding verify_fails_after_changing_gas_limit_def
    by (rule tampered_detected [where tamper = tamper_gas_limit, OF assms(1) apart assms(2) differ(3)]) (auto simp: tampers)
  have "sample_sign (byte_key 7) m \<noteq> sample_sign (byte_key 8) m" if "length m = 32" for m
    using sample_sign_inj [OF that that, of 7 8] by auto
  then show "verify_fails_with_a_different_key (hashing_with h) tw" using assms(1)
    by (simp add: verify_fails_with_a_different_key_def trace_verify_def trace_digest_def trace_sign_def Let_def
        fixture_unsigned hashing_with_simps hashing_with_hex)
qed

section \<open>Malformed input\<close>

definition verify_reports_a_malformed_signature :: "crypto \<Rightarrow> bool" where
  "verify_reports_a_malformed_signature cr \<longleftrightarrow>
     list_all (\<lambda>bad. trace_verify cr pinned_writer (ed_verifying_key cr (byte_key 7)) (set_signature bad trace_fixture)
         = Inl MalformedSignature)
       [[], ''zz'', concat (replicate 63 ''ab''), concat (replicate 65 ''ab''), replicate 128 (CHR ''g'')]"

definition signing_key_from_hex_accepts_a_32_byte_seed :: "crypto \<Rightarrow> bool" where
  "signing_key_from_hex_accepts_a_32_byte_seed cr \<longleftrightarrow>
     signing_key_from_hex cr (concat (replicate 32 ''07'')) = Inr (byte_key 7)"

text \<open>\<open>Display\<close> and \<open>Debug\<close> of the errors.\<close>

fun trace_error_text :: "trace_error \<Rightarrow> string" where
  "trace_error_text InvalidSigningKey = ''signing key must be 64 hex characters (a 32-byte seed)''"
| "trace_error_text MalformedSignature = ''trace signature is malformed''"
| "trace_error_text SignatureMismatch = ''trace signature does not match''"

fun trace_error_debug :: "trace_error \<Rightarrow> string" where
  "trace_error_debug InvalidSigningKey = ''InvalidSigningKey''"
| "trace_error_debug MalformedSignature = ''MalformedSignature''"
| "trace_error_debug SignatureMismatch = ''SignatureMismatch''"

definition bad_seeds :: "string list" where
  "bad_seeds =
     (let secret = ''5ecre7''
      in [[], secret, secret @ replicate 58 (CHR ''0''), replicate 63 (CHR ''0''), replicate 65 (CHR ''0''),
          replicate 66 (CHR ''0''), ''0x'' @ replicate 62 (CHR ''0''), replicate 62 (CHR ''0'') @ ''zz''])"

definition signing_key_from_hex_rejects_anything_else_without_echoing_it :: "crypto \<Rightarrow> bool" where
  "signing_key_from_hex_rejects_anything_else_without_echoing_it cr \<longleftrightarrow>
     list_all (\<lambda>bad.
         (let err = unwrap_err (signing_key_from_hex cr bad); shown = trace_error_text err @ '' '' @ trace_error_debug err
          in signing_key_from_hex cr bad = Inl InvalidSigningKey \<and> \<not> contains_str shown ''5ecre7'' \<and>
             (bad \<noteq> [] \<longrightarrow> \<not> contains_str shown bad)))
       bad_seeds"

lemma contains_str_set: "contains_str s p \<Longrightarrow> set p \<subseteq> set s"
proof (induction s)
  case Nil
  then show ?case by (simp add: contains_str_def split: if_splits)
next
  case (Cons c s)
  show ?case
  proof (cases "starts_with (c # s) p")
    case True
    then show ?thesis by (metis set_take_subset starts_with_def)
  next
    case False
    with Cons.prems have "contains_str s p" by (simp add: contains_str_def)
    with Cons.IH show ?thesis by auto
  qed
qed

lemma bad_seeds_refused:
  "list_all (\<lambda>bad. signing_key_from_hex sample_crypto bad = Inl InvalidSigningKey \<and>
       (bad \<noteq> [] \<longrightarrow> \<not> set bad \<subseteq> set (trace_error_text InvalidSigningKey @ '' '' @ trace_error_debug InvalidSigningKey)))
     (''5ecre7'' # bad_seeds)"
  by code_simp

lemma trace_bad_seed_test: "signing_key_from_hex_rejects_anything_else_without_echoing_it sample_crypto"
proof -
  let ?shown = "trace_error_text InvalidSigningKey @ '' '' @ trace_error_debug InvalidSigningKey"
  have "\<not> contains_str ?shown ''5ecre7''" using bad_seeds_refused contains_str_set [of ?shown "''5ecre7''"] by auto
  with bad_seeds_refused show ?thesis
    unfolding signing_key_from_hex_rejects_anything_else_without_echoing_it_def list_all_iff Let_def
    by (auto dest!: contains_str_set)
qed

lemma trace_malformed_tests:
  "verify_reports_a_malformed_signature sample_crypto"
  "signing_key_from_hex_accepts_a_32_byte_seed sample_crypto"
  by code_simp+

end
