(* ===== verification/Tests_Store.thy ===== *)
theory Tests_Store
  imports Trace_Store Tests_Trace
begin

text \<open>
  The unit tests of \<open>src/store.rs\<close>, on an empty file system whose operations do not fail. The writer and
  the reader of traces are those of the store's own operations.
\<close>

section \<open>The fixtures\<close>

definition no_files :: fs where
  "no_files = \<lparr>fs_files = (\<lambda>_. None), fs_dirs = [[''tmp'']], fs_counter = 0\<rparr>"

definition store_fixture :: "fs \<times> trace_store" where
  "store_fixture = (case store_open sample_io no_files [''tmp''] of (s, r) \<Rightarrow> (s, unwrap r))"

definition is_dir :: "fs \<Rightarrow> path \<Rightarrow> bool" where
  "is_dir s p \<longleftrightarrow> p \<in> set (fs_dirs s)"

definition is_file :: "fs \<Rightarrow> path \<Rightarrow> bool" where
  "is_file s p \<longleftrightarrow> fs_files s p \<noteq> None"

text \<open>The trace of the round trip: a third and fourth entry, and each kind of provenance.\<close>

definition store_trace :: trace where
  "store_trace =
     (case tr_entries trace_fixture of
        e # es \<Rightarrow>
          trace_fixture\<lparr>
            tr_header := (tr_header trace_fixture)\<lparr>trace_id := ''0190a1b2-c3d4-7e5f-8a9b-0c1d2e3f4a5b''\<rparr>,
            tr_entries := e\<lparr>te_provenance := Signed ''market'' ''ab''\<rparr> # es @
              [e\<lparr>te_provenance := Onchain ''base'' 42 ''0xdead''\<rparr>, e\<lparr>te_provenance := Notarized ''tlsnotary'' ''r1''\<rparr>]\<rparr>
      | [] \<Rightarrow> trace_fixture)"

section \<open>The tests\<close>

definition open_creates_the_layout :: bool where
  "open_creates_the_layout \<longleftrightarrow>
     (let root = [''tmp'', ''nested'']; (s, r) = store_open sample_io no_files root; (s', r') = store_open sample_io s root
      in is_ok r \<and> list_all (\<lambda>sub. is_dir s (path_join root [sub])) [''traces'', ''programs'', ''descriptions''] \<and> is_ok r')"

definition trace_with_err_record_and_every_provenance_round_trips ::
  "crypto \<Rightarrow> trace_writer \<Rightarrow> (string \<Rightarrow> string + trace) \<Rightarrow> bool" where
  "trace_with_err_record_and_every_provenance_round_trips cr tw from_slice \<longleftrightarrow>
     (let (s, st) = store_fixture; t = trace_sign cr tw (replicate 32 9) store_trace; (s', r) = put_trace sample_io tw st s t;
          got = get_trace sample_io from_slice st s' (trace_id (tr_header t)); back = unwrap got; err = te_record (tr_entries back ! 1)
      in rec_status (te_record (tr_entries store_trace ! 1)) = CallError \<and>
         te_provenance (tr_entries store_trace ! 1) = Unsigned \<and>
         is_ok r \<and> is_file s' [''tmp'', ''traces'', ''0190a1b2-c3d4-7e5f-8a9b-0c1d2e3f4a5b.json''] \<and> is_ok got \<and>
         trace_json (tw_record_json tw) back = trace_json (tw_record_json tw) t \<and>
         error_message err = ''amount exceeds 50'' \<and> rec_status err = CallError \<and>
         is_ok (trace_verify cr tw (ed_verifying_key cr (replicate 32 9)) back))"

definition duplicate_put_trace_fails :: "trace_writer \<Rightarrow> bool" where
  "duplicate_put_trace_fails tw \<longleftrightarrow>
     (let (s, st) = store_fixture; (s1, r1) = put_trace sample_io tw st s trace_fixture
      in is_ok r1 \<and> snd (put_trace sample_io tw st s1 trace_fixture) = Inl (TraceExists ''0190''))"

text \<open>One round of the loop over bad keys: every operation refuses the key.\<close>

definition key_rejected ::
  "trace_writer \<Rightarrow> (string \<Rightarrow> string + trace) \<Rightarrow> trace_store \<Rightarrow> string \<Rightarrow> fs \<times> bool \<Rightarrow> fs \<times> bool" where
  "key_rejected tw from_slice st bad sb =
     (let (s, b) = sb; t = trace_fixture\<lparr>tr_header := (tr_header trace_fixture)\<lparr>trace_id := bad\<rparr>\<rparr>;
          (s1, r1) = put_trace sample_io tw st s t; (s2, r2) = put_program sample_io st s1 bad ''return 1'';
          (s3, r3) = put_description sample_io st s2 bad ''text''
      in (s3, b \<and> r1 = Inl (InvalidKey bad) \<and> get_trace sample_io from_slice st s1 bad = Inl (InvalidKey bad) \<and>
              r2 = Inl (InvalidKey bad) \<and> get_program sample_io st s2 bad = Inl (InvalidKey bad) \<and>
              r3 = Inl (InvalidKey bad) \<and> get_description sample_io st s3 bad = Inl (InvalidKey bad)))"

definition traversal_and_invalid_keys_are_rejected :: "trace_writer \<Rightarrow> (string \<Rightarrow> string + trace) \<Rightarrow> bool" where
  "traversal_and_invalid_keys_are_rejected tw from_slice \<longleftrightarrow>
     (let (s, st) = store_fixture;
          (s', rejected) = fold (key_rejected tw from_slice st)
            [''../x'', ''..'', [], ''a/b'', ''ABCD'', ''00.json'', ''/etc'', ''0'' @ [CHR 0x00]] (s, True)
      in rejected \<and> \<not> fs_exists sample_io s' [''tmp'', ''x''] \<and> \<not> fs_exists sample_io s' [''tmp'', ''x.json''])"

definition content_addressed_puts_are_idempotent :: bool where
  "content_addressed_puts_are_idempotent \<longleftrightarrow>
     (let (s, st) = store_fixture; hash = concat (replicate 32 ''ab'');
          (s1, r1) = put_program sample_io st s hash ''return 1''; (s2, r2) = put_program sample_io st s1 hash ''return 1'';
          (s3, r3) = put_description sample_io st s2 hash ''tools''; (s4, r4) = put_description sample_io st s3 hash ''tools''
      in list_all is_ok [r1, r2, r3, r4] \<and>
         get_program sample_io st s2 hash = Inr ''return 1'' \<and> get_description sample_io st s4 hash = Inr ''tools'' \<and>
         is_file s4 [''tmp'', ''programs'', hash @ ''.lua''] \<and> is_file s4 [''tmp'', ''descriptions'', hash @ ''.txt''])"

definition conflicting_content_addressed_puts_fail :: bool where
  "conflicting_content_addressed_puts_fail \<longleftrightarrow>
     (let (s, st) = store_fixture; hash = concat (replicate 32 ''cd'');
          (s1, r1) = put_program sample_io st s hash ''return 1''; (s2, r2) = put_program sample_io st s1 hash ''return 2'';
          (s3, r3) = put_description sample_io st s2 hash ''tools''; (s4, r4) = put_description sample_io st s3 hash ''other''
      in is_ok r1 \<and> r2 = Inl (Conflict ''program'' hash) \<and> get_program sample_io st s2 hash = Inr ''return 1'' \<and>
         is_ok r3 \<and> r4 = Inl (Conflict ''description'' hash) \<and> get_description sample_io st s4 hash = Inr ''tools'')"

text \<open>\<open>read_dir\<close>: the files of a directory.\<close>

definition names_in :: "fs \<Rightarrow> path \<Rightarrow> string set" where
  "names_in s dir = {n. is_file s (dir @ [n])}"

definition writes_leave_no_temp_files :: "trace_writer \<Rightarrow> bool" where
  "writes_leave_no_temp_files tw \<longleftrightarrow>
     (let (s, st) = store_fixture; (s1, r1) = put_trace sample_io tw st s trace_fixture;
          (s2, r2) = put_program sample_io st s1 ''01'' ''return 1''; (s3, r3) = put_description sample_io st s2 ''02'' ''tools''
      in is_ok r1 \<and> is_ok r2 \<and> is_ok r3 \<and>
         list_all (\<lambda>sub. card (names_in s3 [''tmp'', sub]) = 1 \<and>
             (\<forall>n \<in> names_in s3 [''tmp'', sub]. \<not> starts_with n ''.tmp-''))
           [''traces'', ''programs'', ''descriptions''])"

lemma store_content_tests:
  open_creates_the_layout content_addressed_puts_are_idempotent conflicting_content_addressed_puts_fail
  by code_simp+

lemma store_duplicate_test: "duplicate_put_trace_fails tw"
  by code_simp

lemma store_invalid_key_test: "traversal_and_invalid_keys_are_rejected tw from_slice"
  by code_simp

lemma store_fixture_parts:
  "store_fixture =
     (\<lparr>fs_files = (\<lambda>_. None),
        fs_dirs = [[''tmp''], [''tmp'', ''traces''], [''tmp'', ''programs''], [''tmp'', ''descriptions'']], fs_counter = 0\<rparr>,
      \<lparr>st_traces = [''tmp'', ''traces''], st_programs = [''tmp'', ''programs''], st_descriptions = [''tmp'', ''descriptions'']\<rparr>)"
  by (simp add: store_fixture_def store_open_def no_files_def fs_create_dir_all_def sample_io_def then_fs_def
      path_join_def is_absolute_def)

text \<open>A write without failures leaves the content at its path and nothing else.\<close>

definition no_temp :: "fs \<Rightarrow> bool" where
  "no_temp s \<longleftrightarrow> (\<forall>q. is_tmp q \<longrightarrow> fs_files s q = None)"

lemma no_temp_update:
  "no_temp s \<Longrightarrow> \<not> is_tmp p \<Longrightarrow> no_temp (s\<lparr>fs_files := (fs_files s)(p \<mapsto> c), fs_counter := n\<rparr>)"
  by (auto simp: no_temp_def)

lemma quiet_io: "\<not> io_stat sample_io p" "io_read sample_io p = None"
  by (simp_all add: sample_io_def)

lemma quiet_write:
  assumes "store_path p" "butlast p \<in> set (fs_dirs s)" "no_temp s"
  shows "write_atomic sample_io s p bytes =
     (s\<lparr>fs_files := (fs_files s)(p \<mapsto> bytes), fs_counter := fs_counter s + 1\<rparr>, Inr ())"
proof -
  have "io_quiet sample_io" by (simp add: io_quiet_def sample_io_def)
  from write_atomic_succeeds [OF this assms(1) _ assms(2), of bytes] assms(3) [unfolded no_temp_def]
  obtain s' where w: "write_atomic sample_io s p bytes = (s', Inr ())"
    by (cases "write_atomic sample_io s p bytes") simp
  from write_atomic_outcome(1,2) [OF w assms(1)] write_atomic_outcome(3) [OF w assms(1) refl]
  have "s' = s\<lparr>fs_files := (fs_files s)(p \<mapsto> bytes), fs_counter := fs_counter s + 1\<rparr>" by simp
  with w show ?thesis by simp
qed

text \<open>So a put under a new key.\<close>

lemma quiet_put:
  assumes "valid_key key" "dir \<in> set (fs_dirs s)" "no_temp s"
    and "fs_files s (dir @ [key @ ''.'' @ ext]) = None" "dir @ [key @ ''.'' @ ext] \<notin> set (fs_dirs s)"
  shows "ext = ''json'' \<Longrightarrow> st_traces st = dir \<Longrightarrow> trace_id (tr_header t) = key \<Longrightarrow> put_trace sample_io tw st s t =
       (s\<lparr>fs_files := (fs_files s)(dir @ [key @ ''.'' @ ext] \<mapsto> trace_text tw t), fs_counter := fs_counter s + 1\<rparr>, Inr ())"
    and "ext = ''lua'' \<Longrightarrow> st_programs st = dir \<Longrightarrow> put_program sample_io st s key content =
       (s\<lparr>fs_files := (fs_files s)(dir @ [key @ ''.'' @ ext] \<mapsto> content), fs_counter := fs_counter s + 1\<rparr>, Inr ())"
    and "ext = ''txt'' \<Longrightarrow> st_descriptions st = dir \<Longrightarrow> put_description sample_io st s key content =
       (s\<lparr>fs_files := (fs_files s)(dir @ [key @ ''.'' @ ext] \<mapsto> content), fs_counter := fs_counter s + 1\<rparr>, Inr ())"
  using assms quiet_write [OF store_path_key [OF assms(1), of dir ext], of s]
  by (simp_all add: put_trace_def put_program_def put_description_def key_path_ok fs_exists_def quiet_io
      put_content_addressed_def fs_read_def)

lemma store_round_trip_test:
  assumes "crypto_laws cr" "\<And>t. from_slice (trace_text tw t) = Inr t"
  shows "trace_with_err_record_and_every_provenance_round_trips cr tw from_slice"
proof -
  have key: "valid_key ''0190a1b2-c3d4-7e5f-8a9b-0c1d2e3f4a5b''" by code_simp
  have parts: "trace_id (tr_header store_trace) = ''0190a1b2-c3d4-7e5f-8a9b-0c1d2e3f4a5b''"
    "rec_status (te_record (tr_entries store_trace ! 1)) = CallError" "te_provenance (tr_entries store_trace ! 1) = Unsigned"
    "error_message (te_record (tr_entries store_trace ! 1)) = ''amount exceeds 50''"
    by (simp_all add: store_trace_def trace_fixture_def)
  obtain s st where fixture: "store_fixture = (s, st)" by fastforce
  then have s: "fs_files s = Map.empty"
      "fs_dirs s = [[''tmp''], [''tmp'', ''traces''], [''tmp'', ''programs''], [''tmp'', ''descriptions'']]"
    and st: "st_traces st = [''tmp'', ''traces'']"
    by (auto simp: store_fixture_parts)
  let ?t = "trace_sign cr tw (replicate 32 9) store_trace"
  have "\<exists>s'. put_trace sample_io tw st s ?t = (s', Inr ()) \<and>
      fs_files s' [''tmp'', ''traces'', ''0190a1b2-c3d4-7e5f-8a9b-0c1d2e3f4a5b.json''] = Some (trace_text tw ?t)"
    using quiet_put(1) [OF key, of "[''tmp'', ''traces'']" s "''json''" st ?t tw] by (simp add: s st parts no_temp_def)
  then obtain s' where put: "put_trace sample_io tw st s ?t = (s', Inr ())"
    and stored: "fs_files s' [''tmp'', ''traces'', ''0190a1b2-c3d4-7e5f-8a9b-0c1d2e3f4a5b.json''] = Some (trace_text tw ?t)"
    by blast
  then have "get_trace sample_io from_slice st s' ''0190a1b2-c3d4-7e5f-8a9b-0c1d2e3f4a5b'' = Inr ?t"
    by (simp add: get_trace_def key_path_ok key st fs_read_def quiet_io assms(2) result_simps)
  then show ?thesis
    using parts put stored
    by (simp add: trace_with_err_record_and_every_provenance_round_trips_def fixture is_file_def
        trace_verify_signed [OF assms(1)])
qed

lemma store_no_temp_test: "writes_leave_no_temp_files tw"
proof -
  obtain s st where fixture: "store_fixture = (s, st)" by fastforce
  then have s: "fs_files s = Map.empty"
      "fs_dirs s = [[''tmp''], [''tmp'', ''traces''], [''tmp'', ''programs''], [''tmp'', ''descriptions'']]"
    and st: "st_traces st = [''tmp'', ''traces'']" "st_programs st = [''tmp'', ''programs'']"
      "st_descriptions st = [''tmp'', ''descriptions'']"
    by (auto simp: store_fixture_parts)
  define s1 where "s1 = s\<lparr>fs_files := (fs_files s)([''tmp'', ''traces'', ''0190.json''] \<mapsto> trace_text tw trace_fixture),
    fs_counter := fs_counter s + 1\<rparr>"
  define s2 where "s2 = s1\<lparr>fs_files := (fs_files s1)([''tmp'', ''programs'', ''01.lua''] \<mapsto> ''return 1''),
    fs_counter := fs_counter s1 + 1\<rparr>"
  define s3 where "s3 = s2\<lparr>fs_files := (fs_files s2)([''tmp'', ''descriptions'', ''02.txt''] \<mapsto> ''tools''),
    fs_counter := fs_counter s2 + 1\<rparr>"
  have keys: "valid_key ''0190''" "valid_key ''01''" "valid_key ''02''" by code_simp+
  have id: "trace_id (tr_header trace_fixture) = ''0190''" by (simp add: trace_fixture_def)
  have clean0: "no_temp s" by (simp add: no_temp_def s)
  have clean1: "no_temp s1" unfolding s1_def
    by (rule no_temp_update [OF clean0]) (simp add: is_tmp_def starts_with_def)
  have clean2: "no_temp s2" unfolding s2_def
    by (rule no_temp_update [OF clean1]) (simp add: is_tmp_def starts_with_def)
  have "put_trace sample_io tw st s trace_fixture = (s1, Inr ())"
    using quiet_put(1) [OF keys(1) _ clean0, of "[''tmp'', ''traces'']" "''json''" st trace_fixture tw]
    by (simp add: s st id s1_def)
  moreover have "put_program sample_io st s1 ''01'' ''return 1'' = (s2, Inr ())"
    using quiet_put(2) [OF keys(2) _ clean1, of "[''tmp'', ''programs'']" "''lua''" st "''return 1''"]
    by (simp add: s st s1_def s2_def)
  moreover have "put_description sample_io st s2 ''02'' ''tools'' = (s3, Inr ())"
    using quiet_put(3) [OF keys(3) _ clean2, of "[''tmp'', ''descriptions'']" "''txt''" st "''tools''"]
    by (simp add: s st s1_def s2_def s3_def)
  moreover have "names_in s3 [''tmp'', ''traces''] = {''0190.json''}" "names_in s3 [''tmp'', ''programs''] = {''01.lua''}"
    "names_in s3 [''tmp'', ''descriptions''] = {''02.txt''}"
    by (auto simp: names_in_def is_file_def s s1_def s2_def s3_def)
  ultimately show ?thesis by (simp add: writes_leave_no_temp_files_def fixture starts_with_def)
qed

end
