(* ===== verification/Tests_Config.thy ===== *)
theory Tests_Config
  imports Gateway_Config Tests_Support
begin

text \<open>
  The unit tests of \<open>src/config.rs\<close>. The TOML reader of the tests knows the texts they use; a document
  becomes a configuration by the conversions the \<open>serde\<close> attributes of the structs name. The defaults of
  the machine are an argument.
\<close>

section \<open>Documents\<close>

record toml_downstream =
  tm_name :: string
  tm_transport :: string
  tm_command :: "string option"
  tm_url :: "string option"
  tm_credential :: "string option"

record toml_document =
  tm_listen :: string
  tm_signing_key :: string
  tm_vm :: vm_settings
  tm_downstream :: "toml_downstream list"
  tm_policy :: string
  tm_store :: string
  tm_principals :: "(string \<times> string) list"

fun each_of :: "('a \<Rightarrow> string + 'b) \<Rightarrow> 'a list \<Rightarrow> string + 'b list" where
  "each_of f [] = Inr []"
| "each_of f (x # xs) = bind_r (f x) (\<lambda>y. bind_r (each_of f xs) (\<lambda>ys. Inr (y # ys)))"

definition read_downstream :: "toml_downstream \<Rightarrow> string + downstream_config" where
  "read_downstream d =
     bind_r (case tm_credential d of None \<Rightarrow> Inr None | Some s \<Rightarrow> bind_r (secret_try_from s) (\<lambda>c. Inr (Some c))) (\<lambda>c.
       downstream_try_from
         \<lparr>rd_name = tm_name d, rd_transport = tm_transport d, rd_command = tm_command d, rd_url = tm_url d, rd_credential = c\<rparr>)"

definition read_document :: "toml_document \<Rightarrow> string + gateway_config" where
  "read_document t =
     bind_r (secret_try_from (tm_signing_key t)) (\<lambda>k.
     bind_r (each_of read_downstream (tm_downstream t)) (\<lambda>ds.
     bind_r (each_of (\<lambda>(n, s). bind_r (secret_try_from s) (\<lambda>c. Inr (n, \<lparr>pc_token = c\<rparr>))) (tm_principals t)) (\<lambda>ps.
       Inr \<lparr>gc_server = \<lparr>listen = tm_listen t, signing_key = k\<rparr>, gc_vm = tm_vm t, gc_downstream = ds,
            gc_policy = \<lparr>policy_file = path_components (tm_policy t)\<rparr>, gc_store = \<lparr>store_dir = path_components (tm_store t)\<rparr>,
            gc_principals = bt_of_list ps\<rparr>)))"

section \<open>The fixtures\<close>

definition config_EXAMPLE :: string where
  "config_EXAMPLE = text_of_lines (map raw_text
     [[], ''[server]'', ''listen = `127.0.0.1:7777`'', ''signing_key = `env:PROVENO_SIGNING_KEY`'', [],
      ''[vm]'', ''gas_limit = 2_000_000'', ''memory_limit_bytes = 16_777_216'', ''max_tool_calls = 64'', [],
      ''[[downstream]]'', ''name = `wallet`'', ''transport = `stdio`           # or http'', ''command = `agentkit-mcp`'',
      ''credential = `env:WALLET_API_KEY`'', [],
      ''[[downstream]]'', ''name = `market`'', ''transport = `http`'', ''url = `http://localhost:8080/mcp`'',
      ''credential = `env:MARKET_KEY`'', [],
      ''[policy]'', ''file = `policy.toml`'', [], ''[store]'', ''dir = `traces`'', [],
      ''# Section 8, identity of the principal: a static bearer token per agent.'',
      ''[principals.demo-agent]'', ''token = `env:DEMO_AGENT_TOKEN`''])"

text \<open>The minimal file, and with its \<open>replace\<close>d signing key and store.\<close>

definition config_MINIMAL_with :: "string \<Rightarrow> string \<Rightarrow> string" where
  "config_MINIMAL_with key_ref dir = text_of_lines (map raw_text
     [[], ''[server]'', ''listen = `127.0.0.1:7777`'', ''signing_key = `'' @ key_ref @ ''`'', [],
      ''[policy]'', ''file = `policy.toml`'', [], ''[store]'', ''dir = `'' @ dir @ ''`''])"

definition config_MINIMAL :: string where
  "config_MINIMAL = config_MINIMAL_with ''env:PROVENO_SIGNING_KEY'' ''traces''"

definition minimal_document :: "vm_config \<Rightarrow> toml_document" where
  "minimal_document d =
     \<lparr>tm_listen = ''127.0.0.1:7777'', tm_signing_key = ''env:PROVENO_SIGNING_KEY'', tm_vm = vm_settings_default d,
      tm_downstream = [], tm_policy = ''policy.toml'', tm_store = ''traces'', tm_principals = []\<rparr>"

definition example_document :: "vm_config \<Rightarrow> toml_document" where
  "example_document d = (minimal_document d)
     \<lparr>tm_vm := (vm_settings_default d)\<lparr>gas_limit := 2000000, memory_limit_bytes := 16777216, max_tool_calls := 64\<rparr>,
      tm_downstream :=
        [\<lparr>tm_name = ''wallet'', tm_transport = ''stdio'', tm_command = Some ''agentkit-mcp'', tm_url = None,
          tm_credential = Some ''env:WALLET_API_KEY''\<rparr>,
         \<lparr>tm_name = ''market'', tm_transport = ''http'', tm_command = None, tm_url = Some ''http://localhost:8080/mcp'',
          tm_credential = Some ''env:MARKET_KEY''\<rparr>],
      tm_principals := [(''demo-agent'', ''env:DEMO_AGENT_TOKEN'')]\<rparr>"

text \<open>The lines of a downstream, as text and as read.\<close>

definition downstream_lines :: "toml_downstream \<Rightarrow> string" where
  "downstream_lines t = text_of_lines (map raw_text
     ([''name = `'' @ tm_name t @ ''`'', ''transport = `'' @ tm_transport t @ ''`''] @
      (case tm_command t of None \<Rightarrow> [] | Some c \<Rightarrow> [''command = `'' @ c @ ''`'']) @
      (case tm_url t of None \<Rightarrow> [] | Some u \<Rightarrow> [''url = `'' @ u @ ''`''])))"

definition with_downstream :: "string \<Rightarrow> string" where
  "with_downstream ls = config_MINIMAL @ [NL] @ ''[[downstream]]'' @ [NL] @ ls"

definition config_block :: "string \<Rightarrow> string \<Rightarrow> string option \<Rightarrow> string option \<Rightarrow> toml_downstream" where
  "config_block name kind command url =
     \<lparr>tm_name = name, tm_transport = kind, tm_command = command, tm_url = url, tm_credential = None\<rparr>"

definition config_blocks :: "toml_downstream list" where
  "config_blocks =
     [config_block ''market'' ''http'' None None, config_block ''wallet'' ''stdio'' None (Some ''http://x''),
      config_block ''wallet'' ''stdio'' (Some ''x'') (Some ''http://x''), config_block ''market'' ''http'' (Some ''x'') None,
      config_block ''wallet'' ''stdio'' (Some ''x'') None, config_block ''my.wallet'' ''stdio'' (Some ''x'') None]"

definition config_twice :: string where
  "config_twice =
     (let one = downstream_lines (config_block ''wallet'' ''stdio'' (Some ''x'') None)
      in with_downstream one @ [NL] @ ''[[downstream]]'' @ [NL] @ one)"

definition config_toml :: "vm_config \<Rightarrow> string \<Rightarrow> string + gateway_config" where
  "config_toml d = known_toml (map (\<lambda>(txt, doc). (txt, read_document doc))
     ([(config_EXAMPLE, example_document d), (config_MINIMAL, minimal_document d),
       (config_MINIMAL_with ''deadbeef'' ''traces'', (minimal_document d)\<lparr>tm_signing_key := ''deadbeef''\<rparr>),
       (config_MINIMAL_with ''env:'' ''traces'', (minimal_document d)\<lparr>tm_signing_key := ''env:''\<rparr>),
       (config_MINIMAL_with ''env:PROVENO_SIGNING_KEY'' ''/abs/traces'', (minimal_document d)\<lparr>tm_store := ''/abs/traces''\<rparr>),
       (config_twice, (minimal_document d)\<lparr>tm_downstream := replicate 2 (config_block ''wallet'' ''stdio'' (Some ''x'') None)\<rparr>)] @
      map (\<lambda>t. (with_downstream (downstream_lines t), (minimal_document d)\<lparr>tm_downstream := [t]\<rparr>)) config_blocks))"

definition config_error :: "vm_config \<Rightarrow> string \<Rightarrow> string" where
  "config_error d txt = unwrap_err (config_parse (config_toml d) txt [])"

section \<open>The tests\<close>

definition spec_example_parses :: "vm_config \<Rightarrow> bool" where
  "spec_example_parses d \<longleftrightarrow>
     (let config = unwrap (config_parse (config_toml d) config_EXAMPLE [])
      in listen (gc_server config) = ''127.0.0.1:7777'' \<and> gas_limit (gc_vm config) = 2000000 \<and>
         max_tool_calls (gc_vm config) = 64 \<and>
         gc_downstream config =
           [\<lparr>dc_name = ''wallet'', dc_transport = Stdio ''agentkit-mcp'', dc_credential = Some (Secret ''env:WALLET_API_KEY'')\<rparr>,
            \<lparr>dc_name = ''market'', dc_transport = Http ''http://localhost:8080/mcp'',
             dc_credential = Some (Secret ''env:MARKET_KEY'')\<rparr>] \<and>
         policy_file (gc_policy config) = [''policy.toml''] \<and> store_dir (gc_store config) = [''traces''] \<and>
         map_option pc_token (map_of (gc_principals config) ''demo-agent'') = Some (Secret ''env:DEMO_AGENT_TOKEN''))"

definition non_env_secret_is_rejected :: "vm_config \<Rightarrow> bool" where
  "non_env_secret_is_rejected d \<longleftrightarrow>
     contains_str (config_error d (config_MINIMAL_with ''deadbeef'' ''traces'')) ''env:NAME'' \<and>
     contains_str (config_error d (config_MINIMAL_with ''env:'' ''traces'')) ''env:NAME''"

definition http_without_url_is_rejected :: "vm_config \<Rightarrow> bool" where
  "http_without_url_is_rejected d \<longleftrightarrow>
     (let e = config_error d (with_downstream (downstream_lines (config_block ''market'' ''http'' None None)))
      in contains_str e ''downstream `market`'' \<and> contains_str e ''requires `url`'')"

definition mismatched_transport_field_is_rejected :: "vm_config \<Rightarrow> bool" where
  "mismatched_transport_field_is_rejected d \<longleftrightarrow>
     (let e = (\<lambda>t. config_error d (with_downstream (downstream_lines t)))
      in contains_str (e (config_block ''wallet'' ''stdio'' None (Some ''http://x''))) ''downstream `wallet`'' \<and>
         contains_str (e (config_block ''wallet'' ''stdio'' (Some ''x'') (Some ''http://x''))) ''downstream `wallet`'' \<and>
         contains_str (e (config_block ''market'' ''http'' (Some ''x'') None)) ''downstream `market`'')"

definition omitted_vm_fields_equal_core_defaults :: "vm_config \<Rightarrow> bool" where
  "omitted_vm_fields_equal_core_defaults d \<longleftrightarrow>
     (let vm = vm_config_of (gc_vm (unwrap (config_parse (config_toml d) config_MINIMAL [])));
          partly = gc_vm (unwrap (config_parse (config_toml d) config_EXAMPLE []))
      in vc_gas_limit vm = vc_gas_limit d \<and> vc_memory_limit_bytes vm = vc_memory_limit_bytes d \<and>
         vc_max_call_depth vm = vc_max_call_depth d \<and> vc_max_tool_calls vm = vc_max_tool_calls d \<and>
         vc_max_tool_bytes_in vm = vc_max_tool_bytes_in d \<and> vc_max_tool_bytes_out vm = vc_max_tool_bytes_out d \<and>
         vc_max_output_bytes vm = vc_max_output_bytes d \<and> \<not> vc_record_trace vm \<and>
         max_call_depth partly = vc_max_call_depth d \<and> max_output_bytes partly = vc_max_output_bytes d)"

definition downstream_names_are_unique_and_undotted :: "vm_config \<Rightarrow> bool" where
  "downstream_names_are_unique_and_undotted d \<longleftrightarrow>
     contains_str (config_error d config_twice) ''more than once'' \<and>
     contains_str (config_error d (with_downstream (downstream_lines (config_block ''my.wallet'' ''stdio'' (Some ''x'') None))))
       ''must not contain `.`''"

definition relative_paths_resolve_against_config_dir :: "vm_config \<Rightarrow> bool" where
  "relative_paths_resolve_against_config_dir d \<longleftrightarrow>
     (let dir = [''/'', ''tmp'']; p = path_join dir [''gateway.toml''];
          text = config_MINIMAL_with ''env:PROVENO_SIGNING_KEY'' ''/abs/traces'';
          config = unwrap (config_load (config_toml d) (\<lambda>q. if q = p then Inr text else Inl ''not found'') p)
      in policy_file (gc_policy config) = path_join dir [''policy.toml''] \<and>
         store_dir (gc_store config) = path_components ''/abs/traces'')"

definition secret_env_name_is_the_variable_name :: bool where
  "secret_env_name_is_the_variable_name \<longleftrightarrow>
     env_name (unwrap (secret_try_from ''env:WALLET_API_KEY'')) = ''WALLET_API_KEY''"

definition secret_resolves_from_environment :: "(string \<Rightarrow> string option) \<Rightarrow> bool" where
  "secret_resolves_from_environment env \<longleftrightarrow>
     unwrap (secret_resolve env (unwrap (secret_try_from ''env:PATH''))) = the (env ''PATH'') \<and>
     contains_str (unwrap_err (secret_resolve env (unwrap (secret_try_from ''env:PROVENO_GATEWAY_TEST_UNSET''))))
       ''PROVENO_GATEWAY_TEST_UNSET''"

lemma config_tests:
  "spec_example_parses d" "non_env_secret_is_rejected d" "http_without_url_is_rejected d"
  "mismatched_transport_field_is_rejected d" "downstream_names_are_unique_and_undotted d"
  "relative_paths_resolve_against_config_dir d" "omitted_vm_fields_equal_core_defaults d"
  secret_env_name_is_the_variable_name
  by code_simp+

lemma config_secret_test:
  "env ''PATH'' = Some v \<Longrightarrow> env ''PROVENO_GATEWAY_TEST_UNSET'' = None \<Longrightarrow> secret_resolves_from_environment env"
  by (simp add: secret_resolves_from_environment_def secret_resolve_def secret_try_from_def strip_prefix_def
      starts_with_def contains_str_def)

end
