(* ===== verification/Tests_Downstream.thy ===== *)
theory Tests_Downstream
  imports Downstream_Client Tests_Support
begin

text \<open>
  The unit tests of \<open>src/downstream.rs\<close>. The error texts of \<open>serde\<close> are an argument, so the test of
  malformed reports asks for those texts only that there is an error which names the metadata key.
\<close>

section \<open>The fixtures\<close>

text \<open>A reader that knows the texts of the tests.\<close>

definition downstream_serde :: serde where
  "downstream_serde =
     \<lparr>json_text = compact,
      json_parse = known_toml
        [(raw_text ''{`a`:2}'', Inr (JObject [(''a'', jint 2)])), (raw_text ''{`price`: 3}'', Inr (JObject [(''price'', jint 3)])),
         (''[1]'', Inr (JArray [jint 1]))]\<rparr>"

definition success :: "string list \<Rightarrow> call_tool_result" where
  "success ts = \<lparr>cr_content = map TextBlock ts, cr_is_error = Some False, cr_structured = None, cr_meta = None\<rparr>"

definition provenance_meta :: "json \<Rightarrow> (string \<times> json) list" where
  "provenance_meta p = [(PROVENANCE_META_KEY, p)]"

section \<open>Tools\<close>

definition qualified_name_prefixes_the_downstream :: bool where
  "qualified_name_prefixes_the_downstream \<longleftrightarrow>
     qualified_name \<lparr>ts_server = ''wallet'', ts_name = ''transfer'', ts_description = [],
       ts_input_schema = JObject [(''type'', JString ''object'')], ts_output_schema = None\<rparr> = ''wallet.transfer''"

definition tool_schema_copies_fields_and_defaults_description :: bool where
  "tool_schema_copies_fields_and_defaults_description \<longleftrightarrow>
     (let out = [(''required'', JArray [JString ''price'']), (''type'', JString ''object'')];
          s = unwrap (tool_schema_of ''market'' \<lparr>mt_name = ''get_price'', mt_description = None,
                mt_input_schema = [(''type'', JString ''object'')], mt_output_schema = Some out\<rparr>)
      in ts_server s = ''market'' \<and> ts_name s = ''get_price'' \<and> ts_description s = [] \<and>
         ts_input_schema s = JObject [(''type'', JString ''object'')] \<and> ts_output_schema s = Some (JObject out))"

definition dotted_tool_name_is_rejected :: bool where
  "dotted_tool_name_is_rejected \<longleftrightarrow>
     (let e = unwrap_err (tool_schema_of ''market'' \<lparr>mt_name = ''a.b'', mt_description = Some ''x'',
                mt_input_schema = [(''type'', JString ''object'')], mt_output_schema = None\<rparr>)
      in contains_str e ''downstream `market`'' \<and> contains_str e ''`a.b`'')"

section \<open>Results\<close>

definition is_error_concatenates_text :: bool where
  "is_error_concatenates_text \<longleftrightarrow>
     map_result downstream_serde ((success [''un'', ''authorized''])\<lparr>cr_is_error := Some True\<rparr>) = Inl ''unauthorized''"

definition structured_content_wins :: bool where
  "structured_content_wins \<longleftrightarrow>
     map_result downstream_serde ((success [raw_text ''{`a`:2}''])\<lparr>cr_structured := Some (JObject [(''a'', jint 1)])\<rparr>) =
       Inr (JObject [(''a'', jint 1)])"

definition non_object_structured_content_is_wrapped :: bool where
  "non_object_structured_content_is_wrapped \<longleftrightarrow>
     map_result downstream_serde ((success [])\<lparr>cr_structured := Some (JArray [jint 1, jint 2])\<rparr>) =
       Inr (JObject [(''value'', JArray [jint 1, jint 2])])"

definition single_json_object_text_is_parsed :: bool where
  "single_json_object_text_is_parsed \<longleftrightarrow>
     map_result downstream_serde (success [raw_text ''{`price`: 3}'']) = Inr (JObject [(''price'', jint 3)])"

definition other_text_is_wrapped :: bool where
  "other_text_is_wrapped \<longleftrightarrow>
     map_result downstream_serde (success [''[1]'']) = Inr (JObject [(''text'', JString ''[1]'')]) \<and>
     map_result downstream_serde (success [raw_text ''{`a`:1}'', raw_text ''{`b`:2}'']) =
       Inr (JObject [(''text'', JString (raw_text ''{`a`:1}{`b`:2}''))]) \<and>
     map_result downstream_serde (success []) = Inr (JObject [(''text'', JString [])])"

section \<open>Provenance\<close>

definition missing_provenance_is_unsigned_with_no_attestation :: "(json \<Rightarrow> string) \<Rightarrow> bool" where
  "missing_provenance_is_unsigned_with_no_attestation derr \<longleftrightarrow>
     read_provenance compact_serde derr None = Inr (Unsigned, []) \<and>
     read_provenance compact_serde derr
       (Some [(''traceparent'', JString ''00-0af7651916cd43dd8448eb211c80319c-00f067aa0ba902b7-01'')]) = Inr (Unsigned, [])"

text \<open>Objects as \<open>json!\<close> builds them, the keys in order.\<close>

definition reported_provenance_maps_to_each_variant :: "(json \<Rightarrow> string) \<Rightarrow> bool" where
  "reported_provenance_maps_to_each_variant derr \<longleftrightarrow>
     list_all (\<lambda>(reported, tag, blob).
         read_provenance compact_serde derr (Some (provenance_meta (JObject (bt_of_list reported)))) = Inr (tag, raw_text blob))
       [([(''type'', JString ''unsigned'')], Unsigned, []),
        ([(''type'', JString ''signed''), (''by'', JString ''feed-key-1''), (''sig'', JString ''0xabcd'')],
         Signed ''feed-key-1'' ''0xabcd'', ''{`by`:`feed-key-1`,`sig`:`0xabcd`,`type`:`signed`}''),
        ([(''type'', JString ''onchain''), (''chain'', JString ''31337''), (''block'', jint 12), (''reference'', JString ''0xbeef'')],
         Onchain ''31337'' 12 ''0xbeef'', ''{`block`:12,`chain`:`31337`,`reference`:`0xbeef`,`type`:`onchain`}''),
        ([(''type'', JString ''notarized''), (''scheme'', JString ''tlsnotary''), (''reference'', JString ''sha256:00'')],
         Notarized ''tlsnotary'' ''sha256:00'', ''{`reference`:`sha256:00`,`scheme`:`tlsnotary`,`type`:`notarized`}'')]"

definition provenance_attestation_ignores_reported_key_order :: "(json \<Rightarrow> string) \<Rightarrow> bool" where
  "provenance_attestation_ignores_reported_key_order derr \<longleftrightarrow>
     (let a = [(''type'', JString ''onchain''), (''reference'', JString ''0xbeef''), (''block'', jint 12), (''chain'', JString ''31337'')];
          b = [(''chain'', JString ''31337''), (''block'', jint 12), (''type'', JString ''onchain''), (''reference'', JString ''0xbeef'')];
          blob = (\<lambda>m. snd (unwrap (read_provenance compact_serde derr (Some (provenance_meta (JObject m))))))
      in blob a = blob b)"

definition malformed_case :: "(json \<Rightarrow> string) \<Rightarrow> json \<times> string \<Rightarrow> bool" where
  "malformed_case derr c \<longleftrightarrow>
     (case read_provenance compact_serde derr (Some (provenance_meta (fst c))) of
        Inr _ \<Rightarrow> False
      | Inl e \<Rightarrow> contains_str e PROVENANCE_META_KEY \<and> contains_str e (snd c))"

text \<open>The cases whose text is the gateway's own, and those in which it is \<open>serde\<close>'s.\<close>

definition malformed_here :: "(json \<times> string) list" where
  "malformed_here =
     [(JNull, ''must be an object''), (JString ''onchain'', ''must be an object''),
      (JObject [(''block'', jint 12), (''chain'', JString ''1''), (''proof'', JString ''0x2''), (''reference'', JString ''0x1''),
                (''type'', JString ''onchain'')], ''`onchain` does not define field(s) `proof`''),
      (JObject [(''sig'', JString ''0x1''), (''type'', JString ''unsigned'')], ''`unsigned` does not define field(s) `sig`''),
      (JObject [(''by'', JString []), (''sig'', JString ''0x1''), (''type'', JString ''signed'')], ''field `by` is empty'')]"

definition malformed_serde :: "(string \<times> json) list list" where
  "malformed_serde =
     [[], [(''type'', JString ''gossip'')], [(''block'', jint 12), (''chain'', JString ''1''), (''type'', JString ''onchain'')],
      [(''block'', JString ''12''), (''chain'', JString ''1''), (''reference'', JString ''0x1''), (''type'', JString ''onchain'')],
      [(''block'', jint (- 1)), (''chain'', JString ''1''), (''reference'', JString ''0x1''), (''type'', JString ''onchain'')]]"

definition malformed_provenance_is_an_error_not_unsigned :: "(json \<Rightarrow> string) \<Rightarrow> bool" where
  "malformed_provenance_is_an_error_not_unsigned derr \<longleftrightarrow>
     list_all (malformed_case derr) (malformed_here @ map (\<lambda>m. (JObject m, derr (JObject m))) malformed_serde)"

definition provenance_metadata_never_reaches_the_value :: bool where
  "provenance_metadata_never_reaches_the_value \<longleftrightarrow>
     map_result downstream_serde
       ((success [raw_text ''{`eth_milli`:3}''])\<lparr>cr_structured := Some (JObject [(''eth_milli'', jint 3)]),
          cr_meta := Some (provenance_meta (JObject [(''block'', jint 12), (''chain'', JString ''1''),
            (''reference'', JString ''0x1''), (''type'', JString ''onchain'')]))\<rparr>) = Inr (JObject [(''eth_milli'', jint 3)])"

lemma downstream_tests:
  qualified_name_prefixes_the_downstream tool_schema_copies_fields_and_defaults_description dotted_tool_name_is_rejected
  is_error_concatenates_text structured_content_wins non_object_structured_content_is_wrapped
  single_json_object_text_is_parsed other_text_is_wrapped provenance_metadata_never_reaches_the_value
  by code_simp+

lemma downstream_provenance_tests:
  "missing_provenance_is_unsigned_with_no_attestation derr" "reported_provenance_maps_to_each_variant derr"
  "provenance_attestation_ignores_reported_key_order derr"
  by code_simp+

lemma malformed_case_serde:
  assumes "provenance_from_object derr m = Inl (derr (JObject m))"
  shows "malformed_case derr (JObject m, derr (JObject m))"
proof -
  have "read_provenance compact_serde derr (Some (provenance_meta (JObject m))) =
      Inl (''`'' @ PROVENANCE_META_KEY @ ''`: '' @ derr (JObject m))"
    by (simp add: read_provenance_def provenance_meta_def result_simps assms)
  moreover have "contains_str (''`'' @ PROVENANCE_META_KEY @ ''`: '' @ derr (JObject m)) PROVENANCE_META_KEY"
    by (rule contains_str_mid)
  moreover have "contains_str (''`'' @ PROVENANCE_META_KEY @ ''`: '' @ derr (JObject m)) (derr (JObject m))"
    using contains_str_end [of "''`'' @ PROVENANCE_META_KEY @ ''`: ''"] by simp
  ultimately show ?thesis by (simp add: malformed_case_def)
qed

lemma malformed_here_refused: "list_all (malformed_case derr) malformed_here"
  by code_simp

lemma malformed_serde_refused: "list_all (\<lambda>m. provenance_from_object derr m = Inl (derr (JObject m))) malformed_serde"
  by (simp add: malformed_serde_def provenance_from_object_def Let_def)

lemma downstream_malformed_test: "malformed_provenance_is_an_error_not_unsigned derr"
  using malformed_here_refused malformed_serde_refused [of derr]
  by (auto simp: malformed_provenance_is_an_error_not_unsigned_def list_all_iff intro: malformed_case_serde)

end
