(* ===== verification/Tests_Values.thy ===== *)
theory Tests_Values
  imports Lua_Values Tests_Support
begin

text \<open>
  The unit tests of \<open>src/values.rs\<close> on the mapping from JSON to tables, with association lists for tables.
  Those that ask for the canonical bytes of a table test proveno-core and are left out.
\<close>

definition table_of :: "(string \<times> json) list \<Rightarrow> sample_table" where
  "table_of m = unwrap (json_to_table sample_core sample_serde (JObject m))"

definition get_value :: "sample_table \<Rightarrow> string \<Rightarrow> sample_table lua_value" where
  "get_value t k = (case table_get sample_core t (KString k) of Some v \<Rightarrow> v | None \<Rightarrow> LNil)"

definition float_becomes_decimal_string :: bool where
  "float_becomes_decimal_string \<longleftrightarrow>
     get_value (table_of [(''price'', JNumber (Float ''2500.5''))]) ''price'' = LString ''2500.5''"

text \<open>The reader turns \<open>1e3\<close> into the float whose text is \<open>1000.0\<close>.\<close>

definition exponent_number_becomes_string :: bool where
  "exponent_number_becomes_string \<longleftrightarrow>
     get_value (table_of [(''big'', JNumber (Float ''1000.0''))]) ''big'' = LString ''1000.0''"

definition i64_values_stay_integers :: bool where
  "i64_values_stay_integers \<longleftrightarrow>
     (let t = table_of [(''max'', JNumber (PosInt 9223372036854775807)), (''min'', JNumber (NegInt (- 9223372036854775808)))]
      in get_value t ''min'' = LInteger (- 9223372036854775808) \<and> get_value t ''max'' = LInteger 9223372036854775807)"

definition i64_overflow_becomes_string :: bool where
  "i64_overflow_becomes_string \<longleftrightarrow>
     get_value (table_of [(''n'', JNumber (PosInt 9223372036854775808))]) ''n'' = LString ''9223372036854775808''"

definition null_array_element_is_an_error :: bool where
  "null_array_element_is_an_error \<longleftrightarrow>
     contains_str (unwrap_err (json_to_table sample_core sample_serde (JObject [(''xs'', JArray [jint 1, JNull, jint 3])])))
       ''index 2''"

definition non_object_top_level_is_an_error :: bool where
  "non_object_top_level_is_an_error \<longleftrightarrow>
     list_all (\<lambda>v. \<not> is_ok (json_to_table sample_core sample_serde v)) [JArray [jint 1, jint 2], jint 3, JString ''x'', JNull]"

definition array_keys_start_at_one :: bool where
  "array_keys_start_at_one \<longleftrightarrow>
     (case get_value (table_of [(''xs'', JArray [JString ''a'', JString ''b''])]) ''xs'' of
        LTable xs \<Rightarrow>
          table_get sample_core xs (KInteger 1) = Some (LString ''a'') \<and>
          table_get sample_core xs (KInteger 2) = Some (LString ''b'') \<and> length (table_entries xs) = 2
      | _ \<Rightarrow> False)"

lemma values_tests:
  float_becomes_decimal_string exponent_number_becomes_string null_array_element_is_an_error
  non_object_top_level_is_an_error array_keys_start_at_one
  by code_simp+

lemma values_integer_tests: i64_values_stay_integers i64_overflow_becomes_string
  by (simp_all add: i64_values_stay_integers_def i64_overflow_becomes_string_def table_of_def get_value_def
      json_to_table_def object_to_table_def sample_core_def show_nat.simps digit_char_def)
    code_simp

end
