(* ===== verification/Tests_Engine.thy ===== *)
theory Tests_Engine
  imports Execute_Engine Mcp_Server Tests_Support
begin

text \<open>
  The unit tests of \<open>src/engine.rs\<close>, apart from the one that compiles a prelude, of \<open>src/server.rs\<close>, and
  those of \<open>src/dialect.rs\<close> on errors and on the guide. The compiler of the tests knows the sources they
  compile.
\<close>

section \<open>Error messages of a run\<close>

text \<open>The core of the examples, writing strings in quotes.\<close>

definition engine_test_core :: "sample_table lua_core" where
  "engine_test_core = sample_core
     \<lparr>canonical_serialize := (\<lambda>v. Inr (case v of LString s \<Rightarrow> quoted s | other \<Rightarrow> scalar_text other))\<rparr>"

fun engine_test_error :: "run_status \<Rightarrow> string \<times> string" where
  "engine_test_error (RunError kind message) = (kind, message)"

definition line_in_program_is_reported_against_the_agent :: bool where
  "line_in_program_is_reported_against_the_agent \<longleftrightarrow>
     engine_test_error (error_status engine_test_core (WithLine 5 (ToolError ''policy: no'')) 3) =
       (''ToolError'', ''line 2: policy: no'')"

definition line_in_prelude_is_dropped :: bool where
  "line_in_prelude_is_dropped \<longleftrightarrow>
     engine_test_error (error_status engine_test_core (WithLine 2 GasExhausted) 3) = (''GasExhausted'', ''gas exhausted'')"

definition runtime_error_value_becomes_the_message :: bool where
  "runtime_error_value_becomes_the_message \<longleftrightarrow>
     engine_test_error (error_status engine_test_core (RuntimeError (LString ''boom'')) 3) = (''RuntimeError'', ''boom'') \<and>
     engine_test_error (error_status engine_test_core (RuntimeError (LInteger 7)) 3) = (''RuntimeError'', ''7'')"

definition output_over_the_limit_is_output_exceeded :: bool where
  "output_over_the_limit_is_output_exceeded \<longleftrightarrow>
     output_json engine_test_core (LString ''0123456789'') 64 = Inr (Inr (quoted ''0123456789'')) \<and>
     output_json engine_test_core (LString ''0123456789'') 11 = Inr (Inl OutputExceeded)"

lemma engine_error_tests:
  line_in_program_is_reported_against_the_agent line_in_prelude_is_dropped runtime_error_value_becomes_the_message
  output_over_the_limit_is_output_exceeded
  by code_simp+

section \<open>Names\<close>

definition named_tool :: "string \<Rightarrow> string \<Rightarrow> tool_schema" where
  "named_tool server name =
     \<lparr>ts_server = server, ts_name = name, ts_description = [], ts_input_schema = JObject [(''type'', JString ''object'')],
      ts_output_schema = None\<rparr>"

definition lua_names_are_accepted :: bool where
  "lua_names_are_accepted \<longleftrightarrow>
     list_all (\<lambda>(server, name). check_lua_names (named_tool server name) = Inr ())
       [(''wallet'', ''get_balance''), (''_x2'', ''type''), (''market'', ''Get2'')]"

definition names_lua_cannot_declare_are_rejected :: bool where
  "names_lua_cannot_declare_are_rejected \<longleftrightarrow>
     list_all (\<lambda>(server, name). \<not> is_ok (check_lua_names (named_tool server name)))
       [(''wallet'', ''get-price''), (''wallet'', ''end''), (''wallet'', ''2fa''), (''my-wallet'', ''get''), (''local'', ''get''),
        (''tool'', ''get''), (''string'', ''get''), (''os'', ''get'')]"

lemma engine_name_tests: lua_names_are_accepted names_lua_cannot_declare_are_rejected
  by code_simp+

section \<open>Tokens\<close>

definition token_maps_to_its_principal_only :: "crypto \<Rightarrow> bool" where
  "token_maps_to_its_principal_only cr \<longleftrightarrow>
     (let tokens = [(''alice'', sha256 cr ''a-token''), (''bob'', sha256 cr ''b-token'')]
      in principal_for cr tokens ''a-token'' = Some ''alice'' \<and> principal_for cr tokens ''b-token'' = Some ''bob'' \<and>
         principal_for cr tokens ''a-toke'' = None \<and> principal_for cr tokens [] = None)"

lemma server_token_test: "token_maps_to_its_principal_only sample_crypto"
  by code_simp

section \<open>Lint errors\<close>

definition lint_error_displays_with_line_number :: bool where
  "lint_error_displays_with_line_number \<longleftrightarrow>
     lint_text \<lparr>le_line = 4, le_message = ''os is not available; call clock.now{}''\<rparr> =
       ''line 4: os is not available; call clock.now{}''"

text \<open>A compiler that refuses the sources of the tests as core does, and accepts any other.\<close>

definition known_compiler :: "(string \<times> compile_error) list \<Rightarrow> (sample_table, string, string, unit) core" where
  "known_compiler known =
     \<lparr>table_new = table_new sample_core, table_rawset = table_rawset sample_core, table_get = table_get sample_core,
      canonical_serialize = canonical_serialize sample_core,
      canonical_serialize_table = canonical_serialize_table sample_core, lua_debug = lua_debug sample_core,
      core_parse = Inr, core_compile = (\<lambda>b. case map_of known b of Some e \<Rightarrow> Inl e | None \<Rightarrow> Inr b),
      core_verify = (\<lambda>_. Inr ()), core_program_hash = (\<lambda>_. []), core_execute = (\<lambda>_ _. Finish (Inr LNil) 0 0),
      tape_strict = (\<lambda>_. ()), tape_call = (\<lambda>k _ _. (k, Inl [])), tape_take = (\<lambda>k. (k, None)),
      tape_diverged = (\<lambda>_. None), tape_remaining = (\<lambda>_. 0)\<rparr>"

fun lint_of :: "lint_failure + 'p \<Rightarrow> lint_error" where
  "lint_of (Inl (Lint e)) = e"

definition errors_are_reported_against_program_lines :: bool where
  "errors_are_reported_against_program_lines \<longleftrightarrow>
     (let prelude = text_of_lines [''local a = {}'', ''local b = {}'']; program = ''local x = 1'' @ [NL] @ ''return y'';
          co = known_compiler [(prelude @ program, UnknownGlobal ''y'' 4 ''line 4: unknown global'')]
      in le_line (lint_of (compile_program co prelude program)) = 2)"

definition prelude_without_trailing_newline_is_separated :: bool where
  "prelude_without_trailing_newline_is_separated \<longleftrightarrow>
     (let co = known_compiler [(''local a = {}'' @ [NL] @ ''return y'', UnknownGlobal ''y'' 2 ''line 2: unknown global'')]
      in le_line (lint_of (compile_program co ''local a = {}'' ''return y'')) = 1)"

definition other_compile_messages_lose_the_core_line_prefix :: bool where
  "other_compile_messages_lose_the_core_line_prefix \<longleftrightarrow>
     (let program = [NL] @ ''break''; co = known_compiler [(program, OtherCompileError 2 ''line 2: `break` outside loop'')];
          e = lint_of (compile_program co [] program)
      in le_line e = 2 \<and> le_message e = ''`break` outside loop'')"

definition broken_prelude_panics :: bool where
  "broken_prelude_panics \<longleftrightarrow>
     (let prelude = text_of_lines [''local a = undefined_thing''];
          co = known_compiler [(prelude @ ''return 1'', UnknownGlobal ''undefined_thing'' 1 ''line 1: unknown global'')]
      in case compile_program co prelude ''return 1'' of
           Inl (LintPanic m) \<Rightarrow> contains_str m ''generated prelude failed to compile''
         | _ \<Rightarrow> False)"

lemma dialect_lint_tests:
  lint_error_displays_with_line_number errors_are_reported_against_program_lines
  prelude_without_trailing_newline_is_separated other_compile_messages_lose_the_core_line_prefix broken_prelude_panics
  by code_simp+

definition lua_guide_starts_with_the_rules_and_includes_examples :: bool where
  "lua_guide_starts_with_the_rules_and_includes_examples \<longleftrightarrow>
     starts_with lua_guide dialect_rules \<and> contains_str lua_guide ''# Examples''"

lemma lua_guide_test: lua_guide_starts_with_the_rules_and_includes_examples
  unfolding lua_guide_starts_with_the_rules_and_includes_examples_def lua_guide_def examples_section_def
  using contains_str_mid [of "dialect_rules @ [NL]" "''# Examples''"] by (simp only: starts_with_append append_assoc simp_thms)

end
