(* ===== verification/Spec2Isabelle.thy ===== *)
theory Spec2Isabelle
  imports Sample_Run Racing_Tasks Trace_Shape Store_Writers Demo_Run Demo_Client Tests_Policy Tests_Description
    Tests_Store Tests_Config Tests_Downstream Tests_Values Tests_Engine
begin

text \<open>
  \<^bold>\<open>A verification of proveno-gateway.\<close>

  The gateway is an MCP server that runs Lua programs written by an agent on the deterministic machine
  of proveno-core. Every tool call a program makes is checked against a policy and a schema before it is
  sent to a downstream MCP server; every run is recorded as a signed trace in an append-only store, and
  any trace can be replayed offline. This development models the whole of \<open>src/src\<close> apart from its
  transports, and the demo programs around it, as executable definitions, and proves what makes the
  parts and their composition correct.

  \<^bold>\<open>How the parts interact.\<close> A request arrives over HTTP with a bearer token (\<open>server.rs\<close>), which names a
  principal. The engine (\<open>engine.rs\<close>) takes the tools the policy (\<open>policy.rs\<close>) allows to that principal
  from those the downstream servers list (\<open>downstream.rs\<close>), generates their description and a Lua prelude
  (\<open>description.rs\<close>), compiles the program behind the prelude (\<open>dialect.rs\<close>), and runs it over a host
  (\<open>host.rs\<close>) that validates (\<open>schema.rs\<close>), decides, dispatches, converts (\<open>values.rs\<close>) and logs each call.
  The run becomes a trace (\<open>trace.rs\<close>) that is signed and stored (\<open>store.rs\<close>). Replaying (\<open>replay.rs\<close>) runs
  the stored program over the tape of the recorded calls and compares. \<open>config.rs\<close> holds the settings and
  \<open>main.rs\<close> the commands.

  \<^bold>\<open>Theories and sources.\<close>
  \<^item> \<open>Gateway_Prelude\<close>: results, decimal text, the string functions of Rust the code uses, UTF-8 decoding,
    and ordered maps as sorted association lists, with the locale \<open>ordered_map\<close> that gives their laws.
  \<^item> \<open>Json_Value\<close>, \<open>Lua_Values\<close>: JSON values, and \<open>values.rs\<close>; \<open>represents\<close> is the relation between a JSON
    value and the Lua table made from it.
  \<^item> \<open>Gateway_Config\<close> (\<open>config.rs\<close>), \<open>Policy_Rules\<close> (\<open>policy.rs\<close>; \<open>permits\<close> is its declarative reading),
    \<open>Trace_Format\<close> (\<open>trace.rs\<close>), \<open>Downstream_Client\<close> (\<open>downstream.rs\<close>).
  \<^item> \<open>Vm_Interface\<close>: proveno-core as a parameter. A program run is a tree of tool calls whose results
    decide how it goes on (\<open>vm_run\<close>, interpreted by \<open>run_vm\<close>); the compiler, the program hash and the tape
    are fields of the record \<open>core\<close>. Two locales state what the gateway needs of a host
    (\<open>logging_host\<close>) and what a host can do to the world (\<open>stepping_host\<close>).
  \<^item> \<open>Tool_Host\<close> (\<open>host.rs\<close>, \<open>schema.rs\<close>): the host, and its interpretations of those locales.
  \<^item> \<open>Lua_Dialect\<close> (\<open>dialect.rs\<close>), \<open>Tool_Description\<close> (\<open>description.rs\<close>).
  \<^item> \<open>Trace_Store\<close> (\<open>store.rs\<close>): the store on an explicit file system, in which each operation may fail
    (\<open>io_env\<close>); the locale \<open>content_store\<close> is the contract of its content-addressed parts.
    \<open>Store_Steps\<close>: a whole put as an executable function of single system calls (\<open>put_step\<close>).
    \<open>Store_Writers\<close>: the interleavings of any number of puts in one process (\<open>puts_step\<close>).
  \<^item> \<open>Execute_Engine\<close> (\<open>engine.rs\<close>, \<open>lib.rs\<close>; \<open>Trace_Shape\<close> is the shape of the traces it stores), \<open>Trace_Replay\<close> (\<open>replay.rs\<close>), \<open>Mcp_Server\<close> (\<open>server.rs\<close>),
    \<open>Gateway_Cli\<close> (\<open>main.rs\<close>).
  \<^item> \<open>Gateway_Service\<close>: the gateway as a whole, a step relation \<open>gateway_step\<close> whose steps are tool calls
    over HTTP and replays on the same store; \<open>served_step\<close> is the same with any failures, look-ups included. \<open>Gateway_Tasks\<close>: \<open>Engine::execute\<close> cut into the steps at which
    concurrent executions can interleave (\<open>task_step\<close>), and their interleavings (\<open>tasks_step\<close>).
    \<open>Fine_Tasks\<close>: the same with every put taken apart into system calls (\<open>fine_step\<close>). \<open>Racing_Tasks\<close>:
    the interleavings of those (\<open>racing_step\<close>), with the invariant that makes their races harmless.
  \<^item> \<open>Demo_Servers\<close> (\<open>demo/market\<close>, \<open>examples/stdio_env_server.rs\<close>), \<open>Demo_Wallet\<close> (\<open>demo/wallet\<close>),
    \<open>Demo_Client\<close> (\<open>demo/client\<close>): the programs at the other ends, composed with the gateway's own reading
    of their results and requests.
  \<^item> \<open>Demo_System\<close>: the demo as deployed (\<open>demo/gateway.toml\<close>, \<open>demo/policy.toml\<close>), the gateway started on
    its configuration with the wallet and the market behind it and a chain that keeps what it is sent.
    \<open>Demo_Run\<close>: a run of it, for the examples.
  \<^item> \<open>Sample_Instances\<close>, \<open>Sample_Run\<close>: concrete parameters (a signature scheme, a writer, tables, a core, an
    engine, a configuration), used to evaluate the examples after the properties.

  \<^item> \<open>Tests_Policy\<close>, \<open>Tests_Description\<close>, \<open>Tests_Trace\<close>, \<open>Tests_Store\<close>, \<open>Tests_Config\<close>,
    \<open>Tests_Downstream\<close>, \<open>Tests_Values\<close>, \<open>Tests_Engine\<close>: the unit tests at the end of those sources, each
    under its name as the boolean its assertions compute on the model, with \<open>Tests_Support\<close> for what they
    share. That they pass ties the definitions to the answers, to the letter, that the authors expect.

  State is passed explicitly: a file system \<open>fs\<close> (files, directories, the counter of temporary names)
  and a world \<open>'w\<close> that only calls to downstream servers change. A fallible function returns a sum with
  the error on the left; a panic of the code is a value of its own (\<open>PanicE\<close>, \<open>LintPanic\<close>, \<open>Panicked\<close>,
  \<open>ReplayPanic\<close>, \<open>ServerPanic\<close>). Machine integers are words of their width; strings and byte strings are
  lists of bytes. No definition needs fuel: loops are structural recursion over their input, or
  recursion with a length measure (the UTF-8 decoders and \<open>split_whitespace\<close>), and a run ends because
  \<open>vm_run\<close> is a datatype, which is how core's gas limit enters.

  \<^bold>\<open>What is shown.\<close> Over any history of requests, one after another and with any failures: the world changes
  only by requests permitted to a known principal, no stored file is removed, and none changes but a trace
  at whose path the look-up whether it exists failed; every answered run replays later without a mismatch
  (when no such look-up fails). Over any interleaving of the system calls of concurrent executions, which
  make up \<open>execute\<close> exactly: the world changes only by permitted requests, every answered run replays without
  a mismatch, no file of the store goes and no trace of another id changes. Every stored trace has the shape
  its fields promise, and records the run of the stored program. Each part: the policy check against its declarative reading, parsing of policies, authentication, the tool
  host's refusals and records, faithful and total conversion of responses, provenance reports, the
  environment of child processes, all-or-nothing and append-only writes also under failures, whole files
  under any interleaving of puts, the program store as a write-once map, signatures, line numbers of lint errors, names
  usable in Lua, descriptions that do not depend on the order of tools, absence of panics, and that an
  execution goes through when nothing fails. For the demo: that it comes up on its
  configuration, that over any interleaving of what the agent submits every transaction that reaches the
  chain is within the bound of its policy file, and that reported balances, prices, environments and results are what the code means.
  Three theorems record where the code departs from its own comments: two writers of one trace id can
  both succeed, a server named \<open>decimal\<close> shadows that library, and property names can break the two lines of a
  rendered tool.

  \<^bold>\<open>Assumptions\<close> on code outside the repository are named predicates: \<open>crypto_laws\<close>, \<open>writer_faithful\<close>,
  \<open>text_faithful\<close>, \<open>table_laws\<close>, \<open>rawset_accepts\<close>, \<open>records_calls\<close>, \<open>outputs_json\<close>, \<open>tape_laws\<close>,
  \<open>tape_serves\<close>, \<open>hash_covers_bytecode\<close>, \<open>rmcp_laws\<close>, \<open>result_laws\<close>; each property that uses one is
  followed by an example in which the assumption is met.

  \<^bold>\<open>Not modelled.\<close> The HTTP and stdio transports, sessions, shutdown and the asynchronous runtime (axum,
  rmcp, tokio); argument parsing (clap); the TOML and JSON readers, the JSON Schema validator, hashing
  and signing, the chain client (parameters); texts on standard error; the Python agent of the demo; the
  integration tests, and the unit tests that test a parameter: of the JSON Schema validator, the TOML
  reader, the canonical bytes and the compiler of core, a pinned Ed25519 signature, and those that search
  the whole text of the dialect. Concurrency is modelled where executions meet: a step is one file
  operation of the store or one tool call. Work of one execution that touches neither has no step of its
  own. The races assume distinct trace ids, which are fresh UUIDs, and a counter of temporary names that
  does not wrap, which would take 2 to the 64 writes in one process.
\<close>

section \<open>Values\<close>

text \<open>C0: what a program sees of a response is the response: when the mapping into the virtual machine
  succeeds, the table represents the JSON object member for member and element for element, integers
  beyond \<open>i64\<close> and floats as their text, and holds nothing else.\<close>

theorem response_table_faithful:
  assumes "table_laws co" and "wf_json v" and "json_to_table co sd v = Inr t"
  shows "is_object v \<and> represents co v (LTable t)"
  using assms by (rule json_to_table_represents)

theorem response_table_faithful_witness:
  "\<exists>t. json_to_table sample_core sample_serde sample_response = Inr t \<and>
       represents sample_core sample_response (LTable t)"
proof -
  have wf: "wf_json sample_response"
    by (simp add: sample_response_def bt_wf_def less_char_def)
  have "is_ok (json_to_table sample_core sample_serde sample_response)"
    unfolding json_to_table_total [OF rawset_accepts_sample] by code_simp
  then obtain t where t: "json_to_table sample_core sample_serde sample_response = Inr t"
    by (cases "json_to_table sample_core sample_serde sample_response") simp_all
  from response_table_faithful [OF table_laws_sample wf t] t show ?thesis by blast
qed

text \<open>C0: the mapping refuses a response exactly when it is not an object or has a null element in
  an array, where a table could not hold it; nothing is dropped silently.\<close>

theorem response_table_total:
  assumes "rawset_accepts co"
  shows "is_ok (json_to_table co sd v) \<longleftrightarrow> is_object v \<and> \<not> null_in_array v"
  using assms by (rule json_to_table_total)

theorem response_table_total_witness:
  "is_ok (json_to_table sample_core sample_serde sample_response) \<and>
   \<not> is_ok (json_to_table sample_core sample_serde (JObject [(''xs'', JArray [JBool True, JNull])]))"
  unfolding response_table_total [OF rawset_accepts_sample] by code_simp

section \<open>Traces\<close>

text \<open>C0: a trace signed with a key verifies under that key's public half, signing changes nothing but the
  signature, and signing the signed trace again changes nothing at all.\<close>

theorem signed_trace_verifies:
  assumes "crypto_laws cr"
  shows "trace_verify cr w (ed_verifying_key cr k) (trace_sign cr w k t) = Inr () \<and>
     set_signature (tf_signature (tr_footer t)) (trace_sign cr w k t) = t \<and>
     trace_sign cr w k (trace_sign cr w k t) = trace_sign cr w k t"
  using trace_verify_signed [OF assms] trace_sign_idem by (simp add: trace_sign_def Let_def set_signature_same)

theorem signed_trace_verifies_witness:
  "trace_verify sample_crypto sample_writer [1, 2] (trace_sign sample_crypto sample_writer [1, 2] sample_trace) = Inr ()"
  using signed_trace_verifies [OF crypto_laws_sample, of sample_writer "[1, 2]" sample_trace]
  by (simp add: sample_crypto_def)

text \<open>C0: tampering is forging. A trace that verifies under a key is one of the traces that were issued, in
  every field but the signature, or else its own signature is a forgery, accepted for the SHA-256 of a text
  that no issued trace has, or its text and that of an issued trace are a collision of SHA-256. Nothing is
  assumed of the signature scheme or the hash.\<close>

theorem verified_trace_authentic:
  assumes "writer_faithful w" and "trace_verify cr w pk t = Inr ()"
  shows "(\<exists>t0 \<in> issued. set_signature [] t = set_signature [] t0) \<or>
     (\<exists>sig. hex_decode_to_slice cr 64 (tf_signature (tr_footer t)) = Some sig \<and>
        ed_verify_strict cr pk (sha256 cr (trace_text w (set_signature [] t))) sig \<and>
        (\<forall>t0 \<in> issued. sha256 cr (trace_text w (set_signature [] t0)) \<noteq> sha256 cr (trace_text w (set_signature [] t)))) \<or>
     (\<exists>t0 \<in> issued. trace_text w (set_signature [] t) \<noteq> trace_text w (set_signature [] t0) \<and>
        sha256 cr (trace_text w (set_signature [] t)) = sha256 cr (trace_text w (set_signature [] t0)))"
proof -
  let ?m = "\<lambda>t. trace_text w (set_signature [] t)"
  from assms(2) obtain sig where sig: "hex_decode_to_slice cr 64 (tf_signature (tr_footer t)) = Some sig"
      "ed_verify_strict cr pk (sha256 cr (?m t)) sig"
    by (auto simp: trace_verify_Inr trace_digest_def)
  show ?thesis
  proof (cases "\<exists>t0 \<in> issued. sha256 cr (?m t) = sha256 cr (?m t0)")
    case True
    then obtain t0 where t0: "t0 \<in> issued" "sha256 cr (?m t) = sha256 cr (?m t0)" by blast
    with trace_text_inj [OF assms(1)] show ?thesis by (cases "?m t = ?m t0") blast+
  next
    case False
    then have "\<forall>t0 \<in> issued. sha256 cr (?m t0) \<noteq> sha256 cr (?m t)" by metis
    with sig show ?thesis by blast
  qed
qed

theorem verified_trace_authentic_witness:
  "let t = trace_sign sample_crypto sample_writer [1] sample_trace
   in trace_verify sample_crypto sample_writer [1] t = Inr () \<and>
      (\<exists>t0 \<in> {sample_trace}. set_signature [] t = set_signature [] t0)"
proof -
  let ?t = "trace_sign sample_crypto sample_writer [1] sample_trace"
  have ok: "trace_verify sample_crypto sample_writer [1] ?t = Inr ()"
    using trace_verify_signed [OF crypto_laws_sample, of sample_writer "[1]" sample_trace]
    by (simp add: sample_crypto_def)
  from verified_trace_authentic [OF writer_faithful_sample ok, of "{sample_trace}"]
  have "\<exists>t0 \<in> {sample_trace}. set_signature [] ?t = set_signature [] t0"
    unfolding trace_sign_unsigned by blast
  with ok show ?thesis by (simp add: Let_def)
qed

section \<open>Tool calls\<close>

text \<open>Whatever a program does, the outside world changes only by permitted requests: each goes to a
  tool the principal was offered, with arguments that passed the tool's schema and the policy, at the
  server and tool its qualified name stands for; and no call changes the rules it is judged by.\<close>

theorem run_world_confined:
  assumes "run_vm (host_call_tool co env) host_take_attestation run (h, w) tr = ((h', w'), tr', out)"
  shows "same_rules h h' \<and> (permitted_request env h)\<^sup>*\<^sup>* w w'"
  using confined_host.run_steps [OF assms] by (rule host_steps_world)

text \<open>C0: the decision in the log is exactly the decision of the rules. Every call adds one entry; it says
  \<open>Allowed\<close> exactly when the arguments are JSON, the tool is offered to the principal, the arguments fit
  its schema and the policy permits them. In every other case nothing reached a server: the world is as
  it was, no attestation is pending, and the program got an error.\<close>

theorem logged_decision_exact:
  assumes "host_call_tool co env (h, w) name args = ((h', w'), res)"
  shows "\<exists>d p. gh_log h' = gh_log h @ [(d, p)] \<and>
     (d = Allowed \<longleftrightarrow>
        (\<exists>a tool. table_to_json co (he_serde env) args = Inr a \<and>
           List.find (\<lambda>t. qualified_name t = name) (gh_allowed h) = Some tool \<and>
           check_args (he_validate env) tool a = Inr () \<and> permits (gh_policy h) (gh_principal h) name a)) \<and>
     (d \<noteq> Allowed \<longrightarrow> w' = w \<and> p = Unsigned \<and> gh_attestation h' = None \<and> (\<exists>m. res = Inl m))"
proof (rule host_stage_cases [of name h co env args])
  fix d message
  assume refused: "stage_refusal name (gh_principal h) (host_stage co env h name args) = Some (d, message)"
  then have "d \<noteq> Allowed" "\<forall>a. host_stage co env h name args \<noteq> Dispatched a"
    by (cases "host_stage co env h name args"; auto)+
  with assms show ?thesis unfolding host_call_refused [OF refused] by (auto simp: host_stage_dispatched)
next
  fix a
  assume stage: "host_stage co env h name args = Dispatched a"
  have "\<exists>p. gh_log h' = gh_log h @ [(Allowed, p)]"
    using assms unfolding host_call_dispatched [OF stage]
    by (cases res) (auto dest!: host_dispatch_Inl host_dispatch_Inr)
  with stage show ?thesis unfolding host_stage_dispatched by blast
qed

theorem logged_decision_exact_witness:
  "\<exists>h' m. host_call_tool sample_core sample_env (sample_host, 0) ''w.drain'' (STable []) = ((h', 0), Inl m) \<and>
     (\<exists>d. gh_log h' = [(d, Unsigned)] \<and> d \<noteq> Allowed)"
proof -
  obtain h' w' res where c: "host_call_tool sample_core sample_env (sample_host, 0) ''w.drain'' (STable []) = ((h', w'), res)"
    by (metis prod.collapse)
  have none: "List.find (\<lambda>t. qualified_name t = ''w.drain'') (gh_allowed sample_host) = None" by code_simp
  have log: "gh_log sample_host = []" by (simp add: sample_host_def host_new_def)
  from logged_decision_exact [OF c] none log obtain d where
    "gh_log h' = [(d, Unsigned)]" "d \<noteq> Allowed" "w' = 0" "\<exists>m. res = Inl m" by auto
  with c show ?thesis by blast
qed

text \<open>C0: a call that succeeds was dispatched, the program gets the table of the very response the
  server gave, that table can be recorded, and the log and the pending attestation hold the response's
  provenance.\<close>

theorem successful_call_recorded:
  assumes "host_call_tool co env (h, w) name args = ((h', w'), Inr t)"
  shows "\<exists>a r. host_stage co env h name args = Dispatched a \<and>
     downstream_call (he_serde env) (he_serde_error env) (he_call_tool env) (gh_downstreams h) name a w = (w', Inr r) \<and>
     json_to_table co (he_serde env) (tp_value r) = Inr t \<and>
     is_ok (canonical_serialize_table co t) \<and>
     h' = h\<lparr>gh_log := gh_log h @ [(Allowed, tp_provenance r)],
            gh_attestation := (if tp_attestation r = [] then None else Some (tp_attestation r))\<rparr>"
  using assms by (elim host_call_Inr) (auto dest!: host_dispatch_Inr)

theorem successful_call_recorded_witness:
  "\<exists>h' t (r :: tool_response). host_call_tool sample_core sample_env (sample_host, 0) ''w.transfer'' (STable []) = ((h', 1), Inr t) \<and>
     json_to_table sample_core sample_serde (tp_value r) = Inr t \<and>
     gh_log h' = [(Allowed, tp_provenance r)]"
proof -
  let ?c = "host_call_tool sample_core sample_env (sample_host, 0) ''w.transfer'' (STable [])"
  have "snd (fst ?c) = 1" "is_ok (snd ?c)" by code_simp+
  then obtain h' t where c: "?c = ((h', 1), Inr t)"
    by (cases ?c; cases "fst ?c"; cases "snd ?c") auto
  from successful_call_recorded [OF c] obtain r :: tool_response where
    r: "json_to_table sample_core (he_serde sample_env) (tp_value r) = Inr t"
    and h': "h' = sample_host\<lparr>gh_log := gh_log sample_host @ [(Allowed, tp_provenance r)],
            gh_attestation := (if tp_attestation r = [] then None else Some (tp_attestation r))\<rparr>"
    by blast
  have "gh_log h' = [(Allowed, tp_provenance r)]" by (simp add: h' sample_host_def host_new_def)
  moreover have "he_serde sample_env = sample_serde" by (simp add: sample_env_def)
  ultimately show ?thesis using c r by auto
qed

text \<open>In every run of the machine over a fresh host, core's transcript and the host's log have one
  entry per tool call, so pairing them by position (and the assertion before it) is sound.\<close>

theorem transcript_matches_host_log:
  assumes "records_calls co run"
    and "run_vm (host_call_tool co env) host_take_attestation run (host_new who ds allowed pol, w) [] = ((h', w'), tr, out)"
  shows "length tr = length (gh_log h')"
  using gateway_host.transcript_matches_log [OF assms] by (simp add: host_new_def)

section \<open>Policies\<close>

text \<open>C0: the hash of a policy identifies it: two policies with one hash are the same policy, or their
  texts are a collision of SHA-256.\<close>

theorem policy_hash_identifies:
  assumes "text_faithful (json_text sd)" and "policy_hash cr sd p = policy_hash cr sd q"
  shows "p = q \<or>
     json_text sd (policy_json p) \<noteq> json_text sd (policy_json q) \<and>
     sha256 cr (json_text sd (policy_json p)) = sha256 cr (json_text sd (policy_json q))"
  using assms
  by (auto simp: policy_hash_def text_faithfulD plain_json_policy policy_json_inj)

theorem policy_hash_identifies_witness:
  "policy_hash (sample_crypto\<lparr>sha256 := (\<lambda>s. [word_of_nat (length s)])\<rparr>) sample_serde sample_policy =
     policy_hash (sample_crypto\<lparr>sha256 := (\<lambda>s. [word_of_nat (length s)])\<rparr>) sample_serde
       (sample_policy\<lparr>pol_constraints := [(''w.transfer'', [(''amount'', 101)])]\<rparr>) \<and>
   json_text sample_serde (policy_json sample_policy) \<noteq>
     json_text sample_serde (policy_json (sample_policy\<lparr>pol_constraints := [(''w.transfer'', [(''amount'', 101)])]\<rparr>))"
proof -
  let ?cr = "sample_crypto\<lparr>sha256 := (\<lambda>s. [word_of_nat (length s)])\<rparr>"
  let ?q = "sample_policy\<lparr>pol_constraints := [(''w.transfer'', [(''amount'', 101)])]\<rparr>"
  have same: "policy_hash ?cr sample_serde sample_policy = policy_hash ?cr sample_serde ?q"
    by code_simp
  have faithful: "text_faithful (json_text sample_serde)"
    by (simp add: sample_serde_def text_faithful_enc)
  have "sample_policy \<noteq> ?q" by (simp add: sample_policy_def)
  with policy_hash_identifies [OF faithful same] same show ?thesis by blast
qed

section \<open>Compiling and starting\<close>

text \<open>C0: a lint error points into the program the agent wrote. Whenever a parse or compile error is
  reported with a line, core found it that many lines after the end of the prelude; the line arithmetic
  does not wrap.\<close>

theorem lint_lines_are_program_lines:
  assumes "compile_program co prelude program = Inl (Lint e)" and "0 < le_line e"
    and "count_char NL (prelude_part prelude) < 2 ^ 32"
  shows "\<exists>l. stage_error co (prelude_part prelude @ program) l \<and>
     unat l = count_char NL (prelude_part prelude) + unat (le_line e)"
proof -
  from compile_program_Lint [OF assms(1,2)] obtain l where
    l: "stage_error co (prelude_part prelude @ program) l" "compile_offset (prelude_part prelude) < l"
      "le_line e = l - compile_offset (prelude_part prelude)" by blast
  with unat_minus_less [OF l(2)] unat_compile_offset [OF assms(3)] show ?thesis by auto
qed

theorem lint_lines_are_program_lines_witness:
  "let co = sample_gw\<lparr>core_parse := (\<lambda>_. Inl (FloatLiteral 3 ''float''))\<rparr>; prelude = ''local w = {}'' @ [NL]
   in compile_program co prelude ''return 1.5'' =
        Inl (Lint \<lparr>le_line = 2, le_message = ''floats are not supported; use integers or decimal strings''\<rparr>) \<and>
      (\<exists>l. stage_error co (prelude @ ''return 1.5'') l \<and> unat l = 1 + unat (2 :: u32))"
proof -
  let ?co = "sample_gw\<lparr>core_parse := (\<lambda>_. Inl (FloatLiteral 3 ''float''))\<rparr>"
  let ?pre = "''local w = {}'' @ [NL]"
  let ?e = "\<lparr>le_line = 2, le_message = ''floats are not supported; use integers or decimal strings''\<rparr>"
  have c: "compile_program ?co ?pre ''return 1.5'' = Inl (Lint ?e)" by code_simp
  have part: "prelude_part ?pre = ?pre" and one: "count_char NL ?pre = 1" by code_simp+
  show ?thesis
    using c lint_lines_are_program_lines [OF c] unfolding part one by simp
qed

text \<open>C0: once the engine has started, every tool of every configured principal has names Lua can
  declare, none of the reserved ones, and the principal's prelude has exactly one line for each server
  and one for each tool.\<close>

theorem started_engine_names_usable:
  assumes "engine_new cr se io config s = (s', Inr en)" and "who \<in> fst ` set (gc_principals config)"
  shows "(\<forall>t \<in> set (allowed_schemas en who).
            is_name (ts_server t) \<and> is_name (ts_name t) \<and> ts_server t \<notin> set DIALECT_NAMES) \<and>
     count_char NL (td_prelude (description_for cr en who)) =
       card (ts_server ` set (allowed_schemas en who)) + length (allowed_schemas en who)"
  using engine_new_Inr [OF assms(1)] assms(2) engine_prelude_lines [OF assms]
  by (auto simp: check_lua_names_ok)

theorem started_engine_names_usable_witness:
  "\<exists>s' en. engine_new sample_crypto sample_start sample_io sample_config empty_fs = (s', Inr en) \<and>
     allowed_schemas en ''alice'' \<noteq> [] \<and>
     (\<forall>t \<in> set (allowed_schemas en ''alice''). is_name (ts_server t))"
proof -
  let ?r = "engine_new sample_crypto sample_start sample_io sample_config empty_fs"
  have "is_ok (snd ?r)" by code_simp
  then obtain s' en where en: "?r = (s', Inr en)" by (cases ?r; cases "snd ?r") auto
  have "(case snd ?r of Inr en \<Rightarrow> allowed_schemas en ''alice'' \<noteq> [] | Inl _ \<Rightarrow> False)" by code_simp
  with en have "allowed_schemas en ''alice'' \<noteq> []" by simp
  moreover have "''alice'' \<in> fst ` set (gc_principals sample_config)" by (simp add: sample_config_def)
  from started_engine_names_usable [OF en this]
  have "\<forall>t \<in> set (allowed_schemas en ''alice''). is_name (ts_server t)" by blast
  ultimately show ?thesis using en by blast
qed

text \<open>C0: the list of reserved names misses one library. On an engine that has started, no server whose
  tools a configured principal may call is named like a library of the dialect, except \<open>decimal\<close>; and a
  server of that name shadows the library: the prelude put before every program of that principal declares
  a local of its name.\<close>

theorem decimal_alone_shadowed:
  assumes "engine_new cr se io config s = (s', Inr en)" and "who \<in> fst ` set (gc_principals config)"
    and "t \<in> set (allowed_schemas en who)" and "ts_server t \<in> dialect_libraries"
  shows "ts_server t = ''decimal'' \<and>
     (\<exists>a b. td_prelude (description_for cr en who) = a @ ''local decimal = {}'' @ [NL] @ b)"
proof -
  have "check_lua_names t = Inr ()" using engine_new_Inr [OF assms(1)] assms(2,3) by blast
  then have "ts_server t = ''decimal''" using assms(4) by (rule library_names)
  with description_declares [OF assms(3), of cr] show ?thesis by (simp add: local_line_def)
qed

text \<open>It does start with such a server.\<close>

theorem decimal_alone_shadowed_witness:
  "\<exists>s' en a b. engine_new sample_crypto decimal_start sample_io decimal_config empty_fs = (s', Inr en) \<and>
     td_prelude (description_for sample_crypto en ''alice'') = a @ ''local decimal = {}'' @ [NL] @ b"
proof -
  let ?r = "engine_new sample_crypto decimal_start sample_io decimal_config empty_fs"
  have "is_ok (snd ?r)" by code_simp
  then obtain s' en where en: "?r = (s', Inr en)" by (cases ?r; cases "snd ?r") auto
  have "(case snd ?r of Inr en \<Rightarrow> list_ex (\<lambda>t. ts_server t = ''decimal'') (allowed_schemas en ''alice'') | Inl _ \<Rightarrow> False)"
    by code_simp
  with en obtain t where t: "t \<in> set (allowed_schemas en ''alice'')" "ts_server t = ''decimal''"
    by (auto simp: list_ex_iff)
  moreover have "''alice'' \<in> fst ` set (gc_principals decimal_config)" by (simp add: decimal_config_def sample_config_def)
  ultimately show ?thesis
    using decimal_alone_shadowed [OF en, of "''alice''" t] en by (simp add: dialect_libraries_def)
qed

section \<open>Executing\<close>

text \<open>A program that does not lint leaves no mark: nothing is stored, no temporary name is used up
  and no tool is called.\<close>

theorem lint_error_has_no_effect:
  assumes "execute co cr tw io env en tid who req (s, w) = ((s', w'), Inl (LintE e))"
  shows "s' = s \<and> w' = w \<and>
     compile_program co (td_prelude (description_for cr en who)) (rq_program req) = Inl (Lint e)"
proof (cases "compile_program co (td_prelude (build cr (allowed_schemas en who))) (rq_program req)")
  case (Inl f)
  with execute_not_compiled [OF Inl, of tw io env tid s w] assms show ?thesis
    by (cases f) (auto simp: description_for_def)
next
  case (Inr program)
  have no: "finish cr tw sd io en h s2 z \<noteq> (s', Inl (LintE e))" for sd h s2 z
    by (auto simp: finish_def Let_def split: prod.splits sum.splits option.splits)
  show ?thesis
    by (rule execute_compiled [OF Inr assms]) (auto simp: no split: sum.splits)
qed

theorem lint_error_has_no_effect_witness:
  "let co = sample_gw\<lparr>core_parse := (\<lambda>_. Inl (FloatLiteral 9 ''float''))\<rparr>
   in \<exists>e. execute co sample_crypto sample_writer sample_io sample_env sample_engine ''0a'' ''alice'' sample_request
          (empty_fs, 0) = ((empty_fs, 0), Inl (LintE e))"
proof -
  let ?co = "sample_gw\<lparr>core_parse := (\<lambda>_. Inl (FloatLiteral 9 ''float''))\<rparr>"
  let ?pre = "td_prelude (build sample_crypto (allowed_schemas sample_engine ''alice''))"
  have "compile_offset ?pre < 9" unfolding sample_allowed sample_prelude by code_simp
  then have "compile_program ?co ?pre (rq_program sample_request) =
      Inl (Lint \<lparr>le_line = 9 - compile_offset ?pre, le_message = ''floats are not supported; use integers or decimal strings''\<rparr>)"
    by (simp add: compile_program_def Let_def located_def)
  from execute_not_compiled [OF this, of sample_writer sample_io sample_env "''0a''" empty_fs 0]
  obtain e where run: "execute ?co sample_crypto sample_writer sample_io sample_env sample_engine ''0a'' ''alice''
      sample_request (empty_fs, 0) = ((empty_fs, 0), Inl (LintE e))" by simp
  from lint_error_has_no_effect [OF run] run show ?thesis by auto
qed

text \<open>C0: behind every response there is a stored trace that verifies under the gateway's public key,
  carries the response's id, the principal, the request and the limits, and says the same about status
  and result as the response.\<close>

theorem response_backed_by_signed_trace:
  assumes "execute co cr tw io env en tid who req (s, w) = ((s', w'), Inr resp)" and "crypto_laws cr"
  shows "\<exists>t p. key_path (st_traces (en_store en)) tid ''json'' = Inr p \<and>
     fs_files s' p = Some (trace_text tw t) \<and>
     trace_verify cr tw (ed_verifying_key cr (en_signing_key en)) t = Inr () \<and>
     trace_id (tr_header t) = tid \<and> th_principal (tr_header t) = who \<and>
     th_request (tr_header t) = rq_request req \<and> th_vm_config (tr_header t) = en_vm en \<and>
     rs_trace_id resp = tid \<and> rs_status resp = tf_status (tr_footer t) \<and>
     (case tf_output (tr_footer t) of None \<Rightarrow> rs_result resp = None
      | Some json \<Rightarrow> \<exists>v. json_parse (he_serde env) json = Inr v \<and> rs_result resp = Some v)"
  using assms by (rule execute_trace)

theorem response_backed_by_signed_trace_witness:
  "\<exists>s' w' resp t p. execute sample_gw sample_crypto sample_writer sample_io sample_env sample_engine ''0a'' ''alice''
       sample_request (empty_fs, 0) = ((s', w'), Inr resp) \<and>
     fs_files s' p = Some (trace_text sample_writer t) \<and>
     trace_verify sample_crypto sample_writer (ed_verifying_key sample_crypto sample_key) t = Inr ()"
proof -
  obtain s' w' resp where run: "execute sample_gw sample_crypto sample_writer sample_io sample_env sample_engine ''0a''
      ''alice'' sample_request (empty_fs, 0) = ((s', w'), Inr resp)"
    using sample_executes by blast
  from response_backed_by_signed_trace [OF run crypto_laws_sample] obtain t p where
    "fs_files s' p = Some (trace_text sample_writer t)"
    "trace_verify sample_crypto sample_writer (ed_verifying_key sample_crypto (en_signing_key sample_engine)) t = Inr ()"
    by blast
  moreover have "en_signing_key sample_engine = sample_key" by (simp add: sample_engine_def)
  ultimately show ?thesis using run by auto
qed

text \<open>C0: every trace an execution stores is well shaped, as the comments on its fields say: the three
  hashes are 32 bytes and the signature 64 bytes in lowercase hex, the id is a valid key of the store, the
  output is there exactly when the run ended well, and then it is valid UTF-8 within the configured limit,
  and a call that was rejected or denied names no provider.\<close>

theorem stored_trace_typed:
  assumes "execute co cr tw io env en tid who req (s, w) = ((s', w'), Inr resp)" and "crypto_laws cr"
    and "\<forall>program. length (core_program_hash co program) = 32"
  shows "\<exists>t q. key_path (st_traces (en_store en)) tid ''json'' = Inr q \<and>
     fs_files s' q = Some (trace_text tw t) \<and> trace_shape t"
  using assms by (rule execute_trace_shape)

theorem stored_trace_typed_witness:
  "\<exists>s' w' resp t q. execute sample_gw sample_crypto sample_writer sample_io sample_env sample_engine ''0a'' ''alice''
       sample_request (empty_fs, 0) = ((s', w'), Inr resp) \<and>
     fs_files s' q = Some (trace_text sample_writer t) \<and> trace_shape t"
proof -
  obtain s' w' resp where run: "execute sample_gw sample_crypto sample_writer sample_io sample_env sample_engine ''0a''
      ''alice'' sample_request (empty_fs, 0) = ((s', w'), Inr resp)"
    using sample_executes by blast
  have "\<forall>program. length (core_program_hash sample_gw program) = 32" by (simp add: sample_gw_def)
  from stored_trace_typed [OF run crypto_laws_sample this] run show ?thesis by blast
qed



text \<open>C0: an execution goes through. When the program compiles, no file operation fails, the store is in
  order and the trace id is unused, the run is answered with a response, whatever the program and the
  servers do.\<close>

theorem execution_goes_through:
  assumes "crypto_laws cr" and "io_quiet io" and "store_ready (en_store en) s"
    and "compile_program co (td_prelude (build cr (allowed_schemas en who))) (rq_program req) = Inr program"
    and "core_program_hash co program \<noteq> []"
    and "records_calls co (core_execute co (vm_config_of (en_vm en)) program)"
    and "outputs_json co (he_serde env)"
    and "valid_key tid" and "fs_files s (st_traces (en_store en) @ [tid @ ''.json'']) = None"
    and "st_traces (en_store en) @ [tid @ ''.json''] \<notin> set (fs_dirs s)"
    and "fs_files s (st_descriptions (en_store en)
         @ [hex_encode cr (td_hash (build cr (allowed_schemas en who))) @ ''.txt''])
       \<in> {None, Some (td_text (build cr (allowed_schemas en who)))}"
  shows "\<exists>s' w' resp. execute co cr tw io env en tid who req (s, w) = ((s', w'), Inr resp)"
  using assms by (rule execute_succeeds)

theorem execution_goes_through_witness:
  "\<exists>s' w' resp. execute sample_gw sample_crypto sample_writer sample_io sample_env sample_engine ''0b'' ''bob''
     sample_request (empty_fs, 0) = ((s', w'), Inr resp)"
proof (rule execution_goes_through [OF crypto_laws_sample io_quiet_sample store_ready_sample compile_sample])
  show "core_program_hash sample_gw (td_prelude (build sample_crypto (allowed_schemas sample_engine ''bob'')) @ rq_program sample_request) \<noteq> []"
    by (simp add: sample_gw_def pad_to_def)
  show "outputs_json sample_gw (he_serde sample_env)" by (simp add: sample_env_def outputs_json_gw)
  show "valid_key ''0b''" by code_simp
qed (simp_all add: records_calls_gw empty_fs_def sample_engine_def sample_store_def)



text \<open>The output that is recorded and returned stays within the limit: a run has an output exactly
  when it succeeded, and then it is the canonical text of the returned value, of at most
  \<open>max_output_bytes\<close> bytes.\<close>

theorem output_within_limit:
  assumes "run_program co env en who allowed pl program w = (w', Inr (entries, out, status, gas, mem))"
  shows "(out \<noteq> None \<longleftrightarrow> status = RunOk) \<and>
     (\<forall>json. out = Some json \<longrightarrow> length json \<le> unat (max_output_bytes (en_vm en)) \<and> utf8_valid json)"
proof -
  from assms obtain res where
    outcome: "run_outcome co (max_output_bytes (en_vm en)) pl res = Inr (out, status)" by (rule run_program_Inr)
  then have "out = None \<Longrightarrow> status \<noteq> RunOk"
    using error_status_error [of co _ pl] unfolding run_outcome_def
    by (auto split: sum.splits) (metis run_status.distinct(1))+
  then show ?thesis using run_outcome_Inr [OF outcome] by auto
qed

section \<open>Serving and replaying\<close>

text \<open>C0: everything that was answered can be audited later. Take any history of requests and replays on
  a store whose programs are filed under their hashes (an empty one, say), an execution in it that is
  answered, and any further history: replaying the trace of that execution, with the same signing key
  and store, reports a match and not one mismatch. In particular this holds when the program was not
  stored itself because another source with the same bytecode already was.\<close>

theorem answered_runs_replay:
  assumes "(gateway_step co cr tw env rm derr ts en)\<^sup>*\<^sup>* (s0, w0) (s, w)"
    and "execute co cr tw io env en tid who req (s, w) = ((s', w'), Inr resp)"
    and "(gateway_step co cr tw env rm derr ts en)\<^sup>*\<^sup>* (s', w') (s2, w2)"
    and "programs_sound co cr (en_store en) s0" and "\<forall>p. \<not> io_stat io p" and "\<forall>p. io_read io' p = None"
    and "\<forall>who. utf8_valid (td_prelude (build cr (allowed_schemas en who)))" and "utf8_valid (rq_program req)"
    and "crypto_laws cr" and "\<forall>t. from_slice (trace_text tw t) = Inr t"
    and "hash_covers_bytecode co" and "\<forall>cfg p. records_calls co (core_execute co cfg p)"
    and "tape_laws co at" and "\<forall>cfg p. tape_serves co at (core_execute co cfg p)"
    and "secret_resolve ienv (signing_key (gc_server config)) = Inr hex"
    and "signing_key_from_hex cr hex = Inr (en_signing_key en)"
    and "store_open io' s2 (store_dir (gc_store config)) = (s3, Inr (en_store en))"
  shows "\<exists>rep. replay co cr tw io' ienv from_slice config tid s2 = (s3, Inr rep) \<and>
     rr_matched rep \<and> rr_mismatches rep = []"
proof (rule answered_run_replays [OF assms(2)])
  show "programs_sound co cr (en_store en) s" by (rule gateway_history(3) [OF assms(1,4,7)])
  show "keeps s' s2" by (rule gateway_history(1) [OF assms(3)])
  show "utf8_valid (td_prelude (build cr (allowed_schemas en who)) @ rq_program req)"
    using assms(7,8) by (simp add: utf8_valid_append)
qed (use assms in auto)

theorem answered_runs_replay_witness:
  "\<exists>s' w' resp s3 rep.
     execute sample_gw sample_crypto sample_writer sample_io sample_env sample_engine ''0a'' ''alice''
       sample_request (empty_fs, 0) = ((s', w'), Inr resp) \<and>
     replay sample_gw sample_crypto sample_writer sample_io replay_env sample_from_slice replay_config ''0a'' s'
       = (s3, Inr rep) \<and> rr_matched rep"
proof -
  obtain s' w' resp where run: "execute sample_gw sample_crypto sample_writer sample_io sample_env sample_engine ''0a''
      ''alice'' sample_request (empty_fs, 0) = ((s', w'), Inr resp)"
    using sample_executes by blast
  obtain s3 where store: "store_open sample_io s' (store_dir (gc_store replay_config)) = (s3, Inr (en_store sample_engine))"
    using replay_store_opens by blast
  have "\<exists>rep. replay sample_gw sample_crypto sample_writer sample_io replay_env sample_from_slice replay_config
      ''0a'' s' = (s3, Inr rep) \<and> rr_matched rep \<and> rr_mismatches rep = []"
    by (rule answered_runs_replay [OF rtranclp.rtrancl_refl run rtranclp.rtrancl_refl,
          where at = sample_at and hex = "hex_enc sample_key"])
      (simp_all add: replay_laws tape_laws_gw store, simp add: sample_engine_def)
  with run show ?thesis by blast
qed

text \<open>C0: over any history of requests and replays, one after another and with whatever file operations
  failing, the world changes only by requests that the policy permits to some principal whose token the
  gateway knows, for tools offered to that principal and with arguments that fit their schema. No stored
  file is ever removed, and none is changed, except a trace at whose path one of the failures is that of
  the look-up whether it exists. (For executions at the same time, see the section on them.)\<close>

theorem history_confined:
  assumes "(served_step co cr tw env rm derr ts en ios)\<^sup>*\<^sup>* (s, w) (s', w')"
  shows "(authorized_request env ts en)\<^sup>*\<^sup>* w w' \<and>
     (\<forall>q c. \<not> is_tmp q \<longrightarrow> fs_files s q = Some c \<longrightarrow>
        fs_files s' q = Some c \<or>
        fs_files s' q \<noteq> None \<and> (\<exists>io \<in> ios. io_stat io q) \<and>
          (\<exists>tid. key_path (st_traces (en_store en)) tid ''json'' = Inr q))"
  using served_history [OF assms] unfolding keeps_but_def look_up_failed_def by blast

theorem history_confined_witness:
  "\<exists>s' w'. (served_step sample_gw sample_crypto sample_writer sample_env sample_rmcp (\<lambda>_. []) sample_tokens sample_engine
         {io. \<forall>p. \<not> io_stat io p})\<^sup>*\<^sup>* (empty_fs, 0) (s', w') \<and> w' = 1 \<and>
     (authorized_request sample_env sample_tokens sample_engine)\<^sup>*\<^sup>* 0 1"
proof -
  obtain s' where "(served_step sample_gw sample_crypto sample_writer sample_env sample_rmcp (\<lambda>_. []) sample_tokens
      sample_engine {io. \<forall>p. \<not> io_stat io p})\<^sup>*\<^sup>* (empty_fs, 0) (s', 1)"
    using sample_step by (blast intro: r_into_rtranclp gateway_step_served)
  with history_confined [OF this] show ?thesis by blast
qed

text \<open>C0: a request is served exactly for the principal whose token it carries. With the tokens resolved
  from a configuration, the header must be the scheme \<open>bearer\<close> (in any case), one space and a token with
  the digest of that principal's token. Any other request is answered 401 and changes nothing. One that
  carries a principal's token is served, in that principal's name: what it executes is what \<open>execute\<close> does
  for that principal, to the state and in the answer; what it checks is checked against that principal's
  tools; and anything else is answered with an error and changes nothing.\<close>

theorem authentication_exact:
  assumes "tokens_resolve cr env config = Inr ts" and "bt_wf (gc_principals config)"
    and "\<forall>t. length (sha256 cr t) = 32"
  shows "(bearer_principal cr ts authorization = Some who \<longleftrightarrow>
       (\<exists>scheme token expected. authorization = Some (scheme @ '' '' @ token) \<and> CHR '' '' \<notin> set scheme \<and>
          eq_ignore_ascii_case scheme ''bearer'' \<and> token_of env (gc_principals config) who = Some expected \<and>
          sha256 cr token = sha256 cr expected)) \<and>
     (let m = (case tq_arguments req of Some m \<Rightarrow> m | None \<Rightarrow> []) in
      case bearer_principal cr ts authorization of
        None \<Rightarrow> serve_call co cr tw io henv rm derr ts en tid authorization req sw = (sw, Unauthorized)
      | Some p \<Rightarrow>
          if tq_name req = ''execute'' \<and> execute_args m \<noteq> None then
            (\<exists>sw' r. execute co cr tw io henv en tid p (the (execute_args m)) sw = (sw', r) \<and>
               serve_call co cr tw io henv rm derr ts en tid authorization req sw =
                 (sw', Served (snd (gateway_execute rm (\<lambda>_ _ _. (sw', r)) p (the (execute_args m)) sw))))
          else if tq_name req = ''check'' \<and> check_args_program m \<noteq> None then
            serve_call co cr tw io henv rm derr ts en tid authorization req sw =
              (sw, Served (gateway_check rm (engine_check co cr en) p (the (check_args_program m))))
          else (\<exists>e. serve_call co cr tw io henv rm derr ts en tid authorization req sw = (sw, Served (Answer (Inl (InvalidParams e))))))"
proof -
  have "principal_for cr ts token = Some who \<longleftrightarrow>
      (\<exists>expected. token_of env (gc_principals config) who = Some expected \<and> sha256 cr token = sha256 cr expected)" for token
    using principal_for_iff [OF tokens_resolve_Inr(1) [OF assms(1-3)], of cr token who]
      tokens_resolve_Inr(2) [OF assms(1-3), of who] assms(3) by auto
  then have "bearer_principal cr ts authorization = Some who \<longleftrightarrow>
       (\<exists>scheme token expected. authorization = Some (scheme @ '' '' @ token) \<and> CHR '' '' \<notin> set scheme \<and>
          eq_ignore_ascii_case scheme ''bearer'' \<and> token_of env (gc_principals config) who = Some expected \<and>
          sha256 cr token = sha256 cr expected)"
    by (auto simp: bearer_principal_Some)
  then show ?thesis using serve_call_served by (rule conjI)
qed

theorem authentication_exact_witness:
  "tokens_resolve sample_crypto (se_env sample_start) sample_config = Inr sample_tokens \<and>
   bearer_principal sample_crypto sample_tokens (Some ''BEARER token'') = Some ''alice''"
proof -
  have ts: "tokens_resolve sample_crypto (se_env sample_start) sample_config = Inr sample_tokens" by (rule sample_tokens_resolve)
  have wf: "bt_wf (gc_principals sample_config)" by code_simp
  have len: "\<forall>t. length (sha256 sample_crypto t) = 32" by (simp add: sample_crypto_def)
  have "\<exists>scheme token expected. Some ''BEARER token'' = Some (scheme @ '' '' @ token) \<and> CHR '' '' \<notin> set scheme \<and>
      eq_ignore_ascii_case scheme ''bearer'' \<and>
      token_of (se_env sample_start) (gc_principals sample_config) ''alice'' = Some expected \<and>
      sha256 sample_crypto token = sha256 sample_crypto expected"
    by (rule exI [of _ "''BEARER''"], rule exI [of _ "''token''"], rule exI [of _ "''token''"]) code_simp
  with ts authentication_exact [OF ts wf len, of "Some ''BEARER token''" "''alice''"] show ?thesis by blast
qed

text \<open>C0: the verdict of the replay command can be trusted. When it exits 0, the trace stored under the id
  verifies under the configured key, the stored program has the recorded hash, and running it over the
  tape of the recorded calls, within the recorded limits, uses up the tape without diverging and gives
  the recorded output, status kind, gas and memory.\<close>

theorem replay_verdict_sound:
  assumes "replay_command co cr tw io env from_slice toml read config_path tid s = (s', Exit 0 lines)"
  shows "\<exists>config hex key st t source program k transcript res out status.
     config_load toml read config_path = Inr config \<and>
     secret_resolve env (signing_key (gc_server config)) = Inr hex \<and> signing_key_from_hex cr hex = Inr key \<and>
     store_open io s (store_dir (gc_store config)) = (s', Inr st) \<and>
     get_trace io from_slice st s' tid = Inr t \<and>
     trace_verify cr tw (ed_verifying_key cr key) t = Inr () \<and>
     get_program io st s' (program_hash (tr_header t)) = Inr source \<and>
     compile_program co [] source = Inr program \<and>
     hex_encode cr (core_program_hash co program) = program_hash (tr_header t) \<and>
     run_vm (tape_call co) (tape_take co) (core_execute co (vm_config_of (th_vm_config (tr_header t))) program)
       (tape_strict co (map te_record (tr_entries t))) [] =
       (k, transcript, res, tf_gas_used (tr_footer t), tf_memory_used (tr_footer t)) \<and>
     run_outcome co (max_output_bytes (th_vm_config (tr_header t))) 0 res = Inr (out, status) \<and>
     tape_diverged co k = None \<and> tape_remaining co k = 0 \<and>
     out = tf_output (tr_footer t) \<and> status_kind status = status_kind (tf_status (tr_footer t))"
proof -
  from assms obtain config report where c: "config_load toml read config_path = Inr config"
    and r: "replay co cr tw io env from_slice config tid s = (s', Inr report)" and m: "rr_matched report"
    unfolding replay_command_success by blast
  from r obtain hex key st t source program where
    parts: "secret_resolve env (signing_key (gc_server config)) = Inr hex" "signing_key_from_hex cr hex = Inr key"
      "store_open io s (store_dir (gc_store config)) = (s', Inr st)" "get_trace io from_slice st s' tid = Inr t"
      "trace_verify cr tw (ed_verifying_key cr key) t = Inr ()"
      "get_program io st s' (program_hash (tr_header t)) = Inr source"
      "recompile co (program_hash (tr_header t)) source = Inr program"
    and run: "replay_run co cr tid t program = Inr report"
    by (rule replay_Inr)
  from run obtain k tr res where
    tape: "run_vm (tape_call co) (tape_take co) (core_execute co (vm_config_of (th_vm_config (tr_header t))) program)
       (tape_strict co (map te_record (tr_entries t))) [] = (k, tr, res, rr_gas_used report, rr_memory_used report)"
    "run_outcome co (max_output_bytes (th_vm_config (tr_header t))) 0 res = Inr (rr_output report, rr_status report)"
    and mm: "rr_mismatches report = mismatches_of (tr_header t) (tr_footer t) (length (tr_entries t))
       (hex_encode cr (core_program_hash co program)) (tape_diverged co k) (tape_remaining co k)
       (rr_output report) (rr_status report) (rr_gas_used report) (rr_memory_used report)"
    "rr_matched report = (rr_mismatches report = [])"
    by (rule replay_run_Inr)
  from mm m have "mismatches_of (tr_header t) (tr_footer t) (length (tr_entries t))
       (hex_encode cr (core_program_hash co program)) (tape_diverged co k) (tape_remaining co k)
       (rr_output report) (rr_status report) (rr_gas_used report) (rr_memory_used report) = []" by simp
  note same = this [unfolded mismatches_of_Nil]
  show ?thesis
    by (rule exI [of _ config], rule exI [of _ hex], rule exI [of _ key], rule exI [of _ st], rule exI [of _ t],
        rule exI [of _ source], rule exI [of _ program], rule exI [of _ k], rule exI [of _ tr], rule exI [of _ res],
        rule exI [of _ "rr_output report"], rule exI [of _ "rr_status report"])
      (use c parts tape same in \<open>simp add: recompile_Inr\<close>)
qed

theorem replay_verdict_sound_witness:
  "\<exists>s s' lines t.
     replay_command sample_gw sample_crypto sample_writer sample_io replay_env sample_from_slice (\<lambda>_. Inr replay_config)
       (\<lambda>_. Inr []) [''gateway.toml''] ''0a'' s = (s', Exit 0 lines) \<and>
     get_trace sample_io sample_from_slice sample_store s' ''0a'' = Inr t \<and>
     trace_verify sample_crypto sample_writer (ed_verifying_key sample_crypto sample_key) t = Inr ()"
proof -
  obtain s s' lines where exit: "replay_command sample_gw sample_crypto sample_writer sample_io replay_env sample_from_slice
      (\<lambda>_. Inr replay_config) (\<lambda>_. Inr []) [''gateway.toml''] ''0a'' s = (s', Exit 0 lines)"
    using sample_replay_exits by blast
  from replay_verdict_sound [OF exit] obtain config hex key st t where
    c: "config_load (\<lambda>_. Inr replay_config) (\<lambda>_. Inr []) [''gateway.toml''] = Inr config"
    and k: "secret_resolve replay_env (signing_key (gc_server config)) = Inr hex" "signing_key_from_hex sample_crypto hex = Inr key"
    and st: "store_open sample_io s (store_dir (gc_store config)) = (s', Inr st)"
    and t: "get_trace sample_io sample_from_slice st s' ''0a'' = Inr t"
      "trace_verify sample_crypto sample_writer (ed_verifying_key sample_crypto key) t = Inr ()"
    by blast
  have "config = replay_config" using c replay_config_loads by simp
  then have "hex = hex_enc sample_key" "key = sample_key" "st = sample_store"
    using k st replay_key replay_store_opens [of s] by (auto simp: sample_engine_def)
  with exit t show ?thesis by blast
qed

section \<open>Executions at the same time\<close>

text \<open>The steps at which concurrent executions can interleave (the program stored, the description
  stored, one tool call at a time, the end of the run, the trace stored) make up an execution exactly: a
  task that is left alone comes to an answer, and it comes to just the state and the answer of
  \<open>execute\<close>.\<close>

theorem stepwise_execution_exact:
  "task_reaches co cr tw io env en tid who req (s, w, Arrived) (s', w', Answered r) \<longleftrightarrow>
     execute co cr tw io env en tid who req (s, w) = ((s', w'), r)"
  by (rule task_alone)

text \<open>Concurrent executions can be audited like single ones. Start from a store whose programs are
  filed under their hashes, let requests of known principals arrive and let their tasks interleave in any
  way, each step with failures of its own: whenever a task has been answered, replaying its trace reports
  a match and not one mismatch. Meanwhile the world has changed only by requests permitted to a known
  principal, and no file that was stored has changed.\<close>

theorem concurrent_runs_replay:
  assumes "(tasks_step co cr tw env ts en)\<^sup>*\<^sup>* (s0, w0, \<lambda>_. None) (s, w, tasks)"
    and "programs_sound co cr (en_store en) s0"
    and "tasks i = Some (tid, who, req, Answered (Inr resp))" and "\<forall>p. io_read io p = None"
    and "crypto_laws cr" and "\<forall>t. from_slice (trace_text tw t) = Inr t"
    and "hash_covers_bytecode co" and "\<forall>cfg p. records_calls co (core_execute co cfg p)"
    and "tape_laws co at" and "\<forall>cfg p. tape_serves co at (core_execute co cfg p)"
    and "secret_resolve ienv (signing_key (gc_server config)) = Inr hex"
    and "signing_key_from_hex cr hex = Inr (en_signing_key en)"
    and "store_open io s (store_dir (gc_store config)) = (s', Inr (en_store en))"
  shows "(\<exists>rep. replay co cr tw io ienv from_slice config tid s = (s', Inr rep) \<and>
       rr_matched rep \<and> rr_mismatches rep = []) \<and>
     (authorized_request env ts en)\<^sup>*\<^sup>* w0 w \<and>
     (\<forall>q c. \<not> is_tmp q \<longrightarrow> fs_files s0 q = Some c \<longrightarrow> fs_files s q = Some c)"
proof -
  note inv = tasks_history [OF assms(1) tasks_ok_none assms(2,8)]
  then have "task_ok co cr tw env en s (tid, who, req, Answered (Inr resp))"
    using assms(3) unfolding tasks_ok_def by blast
  from answered_task_replays [OF this _ assms(4) [rule_format] assms(5-7,9-13)] inv show ?thesis
    by (simp add: keeps_def)
qed

text \<open>Two requests arrive, and the one that came second is answered while the first still waits.\<close>

theorem concurrent_runs_replay_witness:
  "\<exists>s w tasks resp s' rep.
     (tasks_step sample_gw sample_crypto sample_writer sample_env sample_tokens sample_engine)\<^sup>*\<^sup>*
       (empty_fs, 0, \<lambda>_. None) (s, w, tasks) \<and>
     tasks 0 = Some (''0b'', ''alice'', sample_request, Arrived) \<and>
     tasks 1 = Some (''0a'', ''alice'', sample_request, Answered (Inr resp)) \<and>
     replay sample_gw sample_crypto sample_writer sample_io replay_env sample_from_slice replay_config ''0a'' s
       = (s', Inr rep) \<and> rr_matched rep"
proof -
  let ?step = "tasks_step sample_gw sample_crypto sample_writer sample_env sample_tokens sample_engine"
  let ?ts = "Map.empty((0 :: nat) \<mapsto> (''0b'', ''alice'', sample_request, Arrived))"
  obtain s w resp where run: "execute sample_gw sample_crypto sample_writer sample_io sample_env sample_engine ''0a''
      ''alice'' sample_request (empty_fs, 0) = ((s, w), Inr resp)"
    using sample_executes by blast
  let ?tasks = "?ts(1 \<mapsto> (''0a'', ''alice'', sample_request, Answered (Inr resp)))"
  have alice: "''alice'' \<in> fst ` set sample_tokens" by (simp add: sample_tokens_def)
  have utf8: "utf8_valid (td_prelude (build sample_crypto (allowed_schemas sample_engine ''alice'')) @ rq_program sample_request)"
    by (simp add: utf8_valid_append replay_laws)
  have "?step (empty_fs, 0, Map.empty) (empty_fs, 0, ?ts)"
    by (rule tasks_step.Arrive [OF _ alice utf8]) simp
  moreover have "?step (empty_fs, 0, ?ts) (empty_fs, 0, ?ts(1 \<mapsto> (''0a'', ''alice'', sample_request, Arrived)))"
    by (rule tasks_step.Arrive [OF _ alice utf8]) simp
  ultimately have "?step\<^sup>*\<^sup>* (empty_fs, 0, Map.empty) (empty_fs, 0, ?ts(1 \<mapsto> (''0a'', ''alice'', sample_request, Arrived)))"
    by (rule converse_rtranclp_into_rtranclp [OF _ r_into_rtranclp])
  from rtranclp_trans [OF this task_reaches_tasks [OF execute_by_steps [OF run] sample_io_quiet(1)]]
  have reached: "?step\<^sup>*\<^sup>* (empty_fs, 0, Map.empty) (s, w, ?tasks)" .
  obtain s' where store: "store_open sample_io s (store_dir (gc_store replay_config)) = (s', Inr (en_store sample_engine))"
    using replay_store_opens by blast
  have answered: "?tasks 1 = Some (''0a'', ''alice'', sample_request, Answered (Inr resp))" by simp
  have "(\<exists>rep. replay sample_gw sample_crypto sample_writer sample_io replay_env sample_from_slice replay_config ''0a'' s
      = (s', Inr rep) \<and> rr_matched rep \<and> rr_mismatches rep = []) \<and>
      (authorized_request sample_env sample_tokens sample_engine)\<^sup>*\<^sup>* 0 w \<and>
      (\<forall>q c. \<not> is_tmp q \<longrightarrow> fs_files empty_fs q = Some c \<longrightarrow> fs_files s q = Some c)"
    by (rule concurrent_runs_replay [OF reached _ answered _ _ _ _ _ tape_laws_gw _ replay_key store])
      (simp_all add: replay_laws)
  moreover have "?tasks 0 = Some (''0b'', ''alice'', sample_request, Arrived)" by simp
  ultimately show ?thesis using reached answered by (intro exI [of _ s] exI [of _ w] exI [of _ ?tasks]) blast
qed

text \<open>C0: an execution taken apart into single system calls (the look-up, the drawing of a temporary name,
  open, write, sync and rename of each put, one tool call at a time) is, when it is left alone, exactly
  \<open>execute\<close>: it comes to an answer, in the same state and with the same answer, whatever fails.\<close>

theorem fine_execution_exact:
  "(\<exists>n. (fine_step co cr tw io env en tid who req ^^ n) (s, w, Between Arrived) = (s', w', Between (Answered r))) \<longleftrightarrow>
     execute co cr tw io env en tid who req (s, w) = ((s', w'), r)"
  by (rule fine_alone)

text \<open>C0: races between executions do no harm. Start from a store whose programs are filed under their
  hashes, let requests of known principals arrive, each with a trace id of its own, and let their system
  calls interleave in any way, with any failures: whenever a task has been answered, replaying its trace
  reports a match and not one mismatch, also when two tasks stored different sources of one program hash
  at the same time. Meanwhile the world has changed only by requests permitted to a known principal, no
  file of the store has gone, and no trace of another id has changed.\<close>

theorem racing_runs_replay:
  assumes "(racing_step co cr tw env ts en pid)\<^sup>*\<^sup>* (s0, w0, \<lambda>_. None) (s, w, tasks)"
    and "programs_sound co cr (en_store en) s0"
    and "tasks i = Some (tid, who, req, Between (Answered (Inr resp)))" and "\<forall>p. io_read io p = None"
    and "crypto_laws cr" and "\<forall>t. from_slice (trace_text tw t) = Inr t"
    and "hash_covers_bytecode co" and "\<forall>cfg p. records_calls co (core_execute co cfg p)"
    and "tape_laws co at" and "\<forall>cfg p. tape_serves co at (core_execute co cfg p)"
    and "secret_resolve ienv (signing_key (gc_server config)) = Inr hex"
    and "signing_key_from_hex cr hex = Inr (en_signing_key en)"
    and "store_open io s (store_dir (gc_store config)) = (s', Inr (en_store en))"
  shows "(\<exists>rep. replay co cr tw io ienv from_slice config tid s = (s', Inr rep) \<and>
       rr_matched rep \<and> rr_mismatches rep = []) \<and>
     (authorized_request env ts en)\<^sup>*\<^sup>* w0 w \<and>
     (\<forall>q. \<not> is_tmp q \<longrightarrow> fs_files s0 q \<noteq> None \<longrightarrow> fs_files s q \<noteq> None) \<and>
     (\<forall>key q. key_path (st_traces (en_store en)) key ''json'' = Inr q \<longrightarrow> key \<notin> task_ids tasks \<longrightarrow>
        fs_files s q = fs_files s0 q)"
proof -
  from racing_history [OF assms(1) racing_ok_none [OF assms(2)] assms(8)]
  have ok: "tasks_fine co cr tw env ts en s tasks" and sound: "programs_sound co cr (en_store en) s"
    and keeps: "race_keeps en s0 s tasks" and world: "(authorized_request env ts en)\<^sup>*\<^sup>* w0 w"
    by (simp_all add: racing_ok_def)
  have "task_ok co cr tw env en s (tid, who, req, Answered (Inr resp))"
    using ok assms(3) unfolding tasks_fine_def by (blast dest: fine_ok.simps(1) [THEN iffD1])
  from answered_task_replays [OF this sound assms(4) [rule_format] assms(5-7,9-13)] world keeps show ?thesis
    by (simp add: race_keeps_def stays_def)
qed

lemma sample_overtaken:
  "\<exists>program j. (fine_step sample_gw sample_crypto sample_writer sample_io sample_env sample_engine tid ''alice'' sample_request
     ^^ 2) (empty_fs, 0, Between Arrived) = (empty_fs, 0, StoringProgram program j Drawing)"
proof -
  let ?program = "td_prelude (build sample_crypto (allowed_schemas sample_engine ''alice'')) @ rq_program sample_request"
  have "valid_key (hex_encode sample_crypto (core_program_hash sample_gw ?program))"
    by (rule hex_valid_key [OF crypto_laws_sample]) (simp add: sample_gw_def pad_to_def)
  then obtain j where j: "task_program_job sample_gw sample_crypto sample_engine ''alice'' sample_request ?program = Inr j"
    by (simp add: task_program_job_def program_job_def key_path_ok)
  then have "look_up sample_io j empty_fs = Drawing"
    by (auto simp: task_jobs look_up_def fs_read_def sample_io_def empty_fs_def)
  with j show ?thesis
    by (simp add: numeral_2_eq_2 compile_sample begin_put_def go_on_def)
qed

text \<open>A task has found its program missing and is about to write it; another one of the same program
  overtakes it and is answered.\<close>

theorem racing_runs_replay_witness:
  "\<exists>s w tasks program j resp s' rep.
     (racing_step sample_gw sample_crypto sample_writer sample_env sample_tokens sample_engine (io_pid sample_io))\<^sup>*\<^sup>*
       (empty_fs, 0, \<lambda>_. None) (s, w, tasks) \<and>
     tasks 0 = Some (''0b'', ''alice'', sample_request, StoringProgram program j Drawing) \<and>
     tasks 1 = Some (''0a'', ''alice'', sample_request, Between (Answered (Inr resp))) \<and>
     replay sample_gw sample_crypto sample_writer sample_io replay_env sample_from_slice replay_config ''0a'' s
       = (s', Inr rep) \<and> rr_matched rep"
proof -
  let ?race = "racing_step sample_gw sample_crypto sample_writer sample_env sample_tokens sample_engine (io_pid sample_io)"
  let ?f = "\<lambda>tid. fine_step sample_gw sample_crypto sample_writer sample_io sample_env sample_engine tid ''alice'' sample_request"
  obtain s w resp where run: "execute sample_gw sample_crypto sample_writer sample_io sample_env sample_engine ''0a''
      ''alice'' sample_request (empty_fs, 0) = ((s, w), Inr resp)"
    using sample_executes by blast
  obtain program j where two: "(?f ''0b'' ^^ 2) (empty_fs, 0, Between Arrived) = (empty_fs, 0, StoringProgram program j Drawing)"
    using sample_overtaken by blast
  obtain n where all: "(?f ''0a'' ^^ n) (empty_fs, 0, Between Arrived) = (s, w, Between (Answered (Inr resp)))"
    using run unfolding fine_alone [symmetric] by blast
  let ?x = "(''0b'', ''alice'', sample_request, StoringProgram program j Drawing)"
  let ?ts = "[0 :: nat \<mapsto> ?x]"
  let ?tasks = "?ts(1 \<mapsto> (''0a'', ''alice'', sample_request, Between (Answered (Inr resp))))"
  have alice: "''alice'' \<in> fst ` set sample_tokens" by (simp add: sample_tokens_def)
  have utf8: "utf8_valid (td_prelude (build sample_crypto (allowed_schemas sample_engine ''alice'')) @ rq_program sample_request)"
    by (simp add: utf8_valid_append replay_laws)
  have fresh: "unat (fs_counter empty_fs) + 3 < 2 ^ 64" by (simp add: empty_fs_def)
  have "?race (empty_fs, 0, Map.empty) (empty_fs, 0, [0 \<mapsto> (''0b'', ''alice'', sample_request, Between Arrived)])"
    by (rule racing_step.Arrive [OF _ alice _ utf8]) simp_all
  moreover have "?race\<^sup>*\<^sup>* (empty_fs, 0, [0 \<mapsto> (''0b'', ''alice'', sample_request, Between Arrived)]) (empty_fs, 0, ?ts)"
    by (rule fine_steps_race [OF two refl]) (use fresh in simp)
  moreover have "?race (empty_fs, 0, ?ts) (empty_fs, 0, ?ts(1 \<mapsto> (''0a'', ''alice'', sample_request, Between Arrived)))"
    by (rule racing_step.Arrive [OF _ alice _ utf8]) (auto split: if_splits)
  moreover have "?race\<^sup>*\<^sup>* (empty_fs, 0, ?ts(1 \<mapsto> (''0a'', ''alice'', sample_request, Between Arrived))) (s, w, ?tasks)"
    by (rule fine_steps_race [OF all refl]) (use fresh in simp)
  ultimately have reached: "?race\<^sup>*\<^sup>* (empty_fs, 0, Map.empty) (s, w, ?tasks)"
    by (meson converse_rtranclp_into_rtranclp rtranclp_trans)
  obtain s' where store: "store_open sample_io s (store_dir (gc_store replay_config)) = (s', Inr (en_store sample_engine))"
    using replay_store_opens by blast
  have answered: "?tasks 1 = Some (''0a'', ''alice'', sample_request, Between (Answered (Inr resp)))" by simp
  have "\<exists>rep. replay sample_gw sample_crypto sample_writer sample_io replay_env sample_from_slice replay_config ''0a'' s
      = (s', Inr rep) \<and> rr_matched rep \<and> rr_mismatches rep = []"
    by (rule racing_runs_replay [OF reached _ answered _ _ _ _ _ tape_laws_gw _ replay_key store, THEN conjunct1])
      (simp_all add: replay_laws)
  moreover have "?tasks 0 = Some ?x" by simp
  ultimately show ?thesis using reached answered by (intro exI [of _ s] exI [of _ w] exI [of _ ?tasks]) blast
qed

section \<open>The demo as deployed\<close>

text \<open>C0: the demo comes up. With the environment its configuration names (the wallet's key, the market's
  token, the signing key and the agent's token), a market that knows the same token and a store that can
  be opened, the gateway starts on \<open>gateway.toml\<close> and \<open>policy.toml\<close>: it spawns the wallet with its key,
  connects to the market, finds every name usable, and offers the agent exactly the three tools of the
  policy, and nobody else any.\<close>

theorem demo_starts:
  assumes "env ''WALLET_PRIVATE_KEY'' = Some k" and "parse_key k = Inr signer"
    and "url_error ''http://127.0.0.1:8545'' = None"
    and "env ''MARKET_KEY'' = Some t" and "market_env ''MARKET_TOKEN'' = Some t"
    and "env ''PROVENO_SIGNING_KEY'' = Some hex" and "signing_key_from_hex cr hex = Inr seed"
    and "env ''DEMO_AGENT_TOKEN'' = Some a" and "store_open io s [''traces''] = (s', Inr st)"
  shows "\<exists>en. engine_new cr (demo_start ch parse_key signer_address url_error market_env env) io (demo_config d) s
       = (s', Inr en) \<and> en_policy en = demo_policy \<and> en_store en = st \<and> en_signing_key en = seed \<and>
     map qualified_name (allowed_schemas en ''demo-agent'') =
       [''market.get_price'', ''wallet.get_balance'', ''wallet.transfer''] \<and>
     (\<forall>who. who \<noteq> ''demo-agent'' \<longrightarrow> allowed_schemas en who = [])"
proof -
  obtain en where en: "engine_new cr (demo_start ch parse_key signer_address url_error market_env env) io (demo_config d) s
      = (s', Inr en)" "en_policy en = demo_policy" "en_store en = st" "en_signing_key en = seed"
      "allowed_schemas en ''demo-agent'' = demo_tools ch (signer_address signer)"
    using demo_comes_up [where ch = ch and parse_key = parse_key and signer_address = signer_address
        and url_error = url_error and market_env = market_env and env = env and d = d, OF assms] by blast
  have "\<forall>who. who \<noteq> ''demo-agent'' \<longrightarrow> allowed_schemas en who = []" using demo_others [OF en(2)] by blast
  moreover have "map qualified_name (allowed_schemas en ''demo-agent'') =
      [''market.get_price'', ''wallet.get_balance'', ''wallet.transfer'']"
    unfolding en(5) by (rule demo_qualified)
  ultimately show ?thesis using en(1-4) by (intro exI [of _ en] conjI)
qed

theorem demo_starts_witness:
  "\<exists>s en. engine_new sample_crypto demo_from sample_io (demo_config (vm_config_of sample_settings)) bare_fs = (s, Inr en) \<and>
     map qualified_name (allowed_schemas en ''demo-agent'') =
       [''market.get_price'', ''wallet.get_balance'', ''wallet.transfer'']"
proof -
  obtain s st where store: "store_open sample_io bare_fs [''traces''] = (s, Inr st)"
    using demo_store_opens by blast
  note up = demo_starts [where parse_key = "Inr" and signer_address = "\<lambda>_. ''0x9''" and url_error = "\<lambda>_. None"
      and ch = sample_chain and env = demo_vars and market_env = "[''MARKET_TOKEN'' \<mapsto> ''m'']" and d = "vm_config_of sample_settings",
      OF demo_vars(1) refl refl demo_vars(2) demo_market demo_vars(3) demo_key demo_vars(4) store]
  show ?thesis
    by (rule exE [OF up], unfold demo_from_def, elim conjE, intro exI conjI)
qed

text \<open>C0: the policy file caps what the agent can spend, whatever programs it submits. Start the demo on
  its configuration and let requests arrive and run at the same time in any interleaving of their system
  calls, with any failures: every transaction that reaches the chain comes from the wallet's own account
  and moves a whole, positive number of milli-ETH that is at most the 50 of \<open>policy.toml\<close>.\<close>

theorem demo_transfers_capped:
  assumes "engine_new cr (demo_start ch parse_key signer_address url_error market_env vars) io (demo_config d) s
      = (s0, Inr en)"
    and "he_call_tool env = demo_call rc rpc (watched ch) from prices"
    and "(racing_step co cr tw env tokens en pid)\<^sup>*\<^sup>* (s0, (w0, []), \<lambda>_. None) (s1, (w1, sent), tasks)"
    and "programs_sound co cr (en_store en) s0" and "\<forall>cfg p. records_calls co (core_execute co cfg p)"
  shows "list_all (within from 50) sent"
proof -
  have "(authorized_request env tokens en)\<^sup>*\<^sup>* (w0, []) (w1, sent)"
    using racing_history [OF assms(3) racing_ok_none [OF assms(4)] assms(5)] by blast
  moreover have "(''amount'', 50) \<in> set (bounds_for (en_policy en) ''wallet.transfer'')"
    by (simp add: demo_engine [OF assms(1)] demo_bound)
  ultimately show ?thesis using demo_requests [OF _ assms(2)] by fastforce
qed

text \<open>A program that transfers 7 milli-ETH: the transaction reaches the chain.\<close>

theorem demo_transfers_capped_witness:
  "\<exists>s0 s1 en tasks. engine_new sample_crypto demo_from sample_io (demo_config (vm_config_of sample_settings)) bare_fs = (s0, Inr en) \<and>
     (racing_step demo_gw sample_crypto sample_writer demo_env demo_tokens en (io_pid sample_io))\<^sup>*\<^sup>*
       (s0, (0, []), \<lambda>_. None) (s1, (1, [seven]), tasks) \<and> list_all (within ''0x9'' 50) [seven]"
proof -
  obtain s0 en where up: "engine_new sample_crypto demo_from sample_io (demo_config (vm_config_of sample_settings)) bare_fs
      = (s0, Inr en)" "fs_files s0 = Map.empty"
    and ready: "store_ready (en_store en) s0" "fs_counter s0 = 0" "st_traces (en_store en) @ [''0a.json''] \<notin> set (fs_dirs s0)"
      "en_policy en = demo_policy" "map fst (ds_clients (en_downstreams en)) = [''market'', ''wallet'']"
      "ds_tools (en_downstreams en) = demo_tools sample_chain ''0x9''"
      "allowed_schemas en ''demo-agent'' = demo_tools sample_chain ''0x9''"
    using demo_up [of "vm_config_of sample_settings"] .
  from demo_races [OF ready(1) up(2) ready(2-)]
  obtain s1 tasks where race: "(racing_step demo_gw sample_crypto sample_writer demo_env demo_tokens en
      (io_pid sample_io))\<^sup>*\<^sup>* (s0, (0, []), \<lambda>_. None) (s1, (1, [seven]), tasks)" by blast
  have "programs_sound demo_gw sample_crypto (en_store en) s0" by (simp add: programs_sound_def up(2))
  moreover have "he_call_tool demo_env = demo_call sample_ctors (\<lambda>_. ''refused'') (watched sample_chain) ''0x9'' []"
    by (simp add: demo_env_def)
  ultimately have "list_all (within ''0x9'' 50) [seven]"
    using demo_transfers_capped [OF up(1) [unfolded demo_from_def] _ race] records_calls_demo by blast
  with up(1) race show ?thesis by blast
qed

section \<open>Stores with several writers\<close>

definition other_trace :: trace where
  "other_trace = sample_trace\<lparr>tr_footer := (tr_footer sample_trace)\<lparr>tf_gas_used := 4\<rparr>\<rparr>"

lemma sample_race:
  "io_quiet sample_io" "store_ready sample_store empty_fs" "valid_key ''0a-1''"
  "trace_id (tr_header sample_trace) = ''0a-1''" "trace_id (tr_header other_trace) = ''0a-1''"
  "fs_files empty_fs (st_traces sample_store @ [''0a-1'' @ ''.json'']) = None"
  "st_traces sample_store @ [''0a-1'' @ ''.json''] \<notin> set (fs_dirs empty_fs)"
  "unat (fs_counter empty_fs) + 2 < 2 ^ 64"
proof -
  show "valid_key ''0a-1''" by code_simp
qed (simp_all add: io_quiet_sample store_ready_def sample_store_def empty_fs_def sample_trace_def other_trace_def)

text \<open>C0: a reader never sees a partial file. Let any puts of traces, programs and descriptions run in the
  threads of one process, their system calls interleaved in any order, with any failures, and stopped at
  any point. A file that is not temporary holds what it held at the start or all the bytes of a put that
  has succeeded; what a successful put wrote is there, or a later one's whole content; and the steps that
  interleave are, for one put alone, \<open>put_trace\<close>, \<open>put_program\<close> and \<open>put_description\<close>.\<close>

theorem concurrent_writes_whole:
  assumes "(puts_step w st pid)\<^sup>*\<^sup>* (s0, \<lambda>_. None) (s, ps)"
  shows "(\<forall>q. is_tmp q \<or> fs_files s q = fs_files s0 q \<or> written s ps q) \<and>
     (\<forall>i j. ps i = Some (j, PutDone (Inr ())) \<longrightarrow> written s ps (pj_path j)) \<and>
     (\<forall>io op j s. op_job w st op = Inr j \<longrightarrow>
        (put_step io j ^^ 7) (s, LookingUp) = (case run_op w st (io, op) s of (s', r) \<Rightarrow> (s', PutDone r)))"
  using puts_history [OF assms] run_op_by_steps unfolding puts_inv_def by blast

text \<open>Two puts of one trace id at the same time on an empty store: both succeed, and the file is whole.\<close>

theorem concurrent_writes_whole_witness:
  "\<exists>s ps j. (puts_step sample_writer sample_store 1)\<^sup>*\<^sup>* (empty_fs, \<lambda>_. None) (s, ps) \<and>
     ps 0 = Some (j, PutDone (Inr ())) \<and> written s ps (pj_path j)"
proof -
  obtain s j k where run: "(puts_step sample_writer sample_store (io_pid sample_io))\<^sup>*\<^sup>* (empty_fs, \<lambda>_. None)
      (s, [0 \<mapsto> (j, PutDone (Inr ())), 1 \<mapsto> (k, PutDone (Inr ()))])"
    using both_puts_succeed [OF sample_race, of sample_writer] by blast
  let ?ps = "[0 :: nat \<mapsto> (j, PutDone (Inr ())), 1 \<mapsto> (k, PutDone (Inr ()))]"
  have pid: "io_pid sample_io = 1" by (simp add: sample_io_def)
  have first: "?ps 0 = Some (j, PutDone (Inr ()))" by simp
  from concurrent_writes_whole [OF run, THEN conjunct2, THEN conjunct1, rule_format, OF first]
  show ?thesis using run first unfolding pid by (intro exI conjI)
qed

text \<open>C0: the check that makes writing an existing trace id an error is not atomic with the write. On a
  store that works and has no trace of an id, two \<open>put_trace\<close> calls for that id in two threads can both
  find it unused and both succeed, and the second trace replaces the first; one after the other, the
  second is refused.\<close>

theorem trace_id_race:
  assumes "io_quiet io" and "store_ready st s" and "valid_key tid"
    and "trace_id (tr_header t1) = tid" and "trace_id (tr_header t2) = tid"
    and "fs_files s (st_traces st @ [tid @ ''.json'']) = None" and "st_traces st @ [tid @ ''.json''] \<notin> set (fs_dirs s)"
    and "unat (fs_counter s) + 2 < 2 ^ 64"
  shows "\<exists>s1 s' j k. op_job w st (PutTrace t1) = Inr j \<and> op_job w st (PutTrace t2) = Inr k \<and>
     (puts_step w st (io_pid io))\<^sup>*\<^sup>* (s, \<lambda>_. None) (s', [0 \<mapsto> (j, PutDone (Inr ())), 1 \<mapsto> (k, PutDone (Inr ()))]) \<and>
     fs_files s' (st_traces st @ [tid @ ''.json'']) = Some (trace_text w t2) \<and>
     put_trace io w st s t1 = (s1, Inr ()) \<and> put_trace io w st s1 t2 = (s1, Inl (TraceExists tid))"
  using assms by (rule both_puts_succeed)

theorem trace_id_race_witness:
  "\<exists>s1 s' j k. (puts_step sample_writer sample_store 1)\<^sup>*\<^sup>* (empty_fs, \<lambda>_. None)
       (s', [0 \<mapsto> (j, PutDone (Inr ())), 1 \<mapsto> (k, PutDone (Inr ()))]) \<and>
     fs_files s' [''d'', ''traces'', ''0a-1.json''] = Some (trace_text sample_writer other_trace) \<and>
     put_trace sample_io sample_writer sample_store empty_fs sample_trace = (s1, Inr ()) \<and>
     put_trace sample_io sample_writer sample_store s1 other_trace = (s1, Inl (TraceExists ''0a-1''))"
proof -
  have pid: "io_pid sample_io = 1"
    and path: "st_traces sample_store @ [''0a-1'' @ ''.json''] = [''d'', ''traces'', ''0a-1.json'']"
    by (simp_all add: sample_io_def sample_store_def)
  show ?thesis using trace_id_race [OF sample_race, of sample_writer] unfolding pid path
    by (elim exE conjE) (intro exI conjI)
qed

end
